theory Spec2Isabelle
  imports Main "HOL-Library.AList"
begin

section \<open>JavaScript values\<close>

text \<open>
  The orchestration engine is TypeScript; values of type \<^verbatim>\<open>any\<close> flow through tool
  results, context variables and branch decisions. They are modelled by the datatype
  below. Numbers are restricted to the integers (no NaN, no fractions), objects are
  association lists in insertion order, and properties inherited from a prototype
  (\<^verbatim>\<open>toString\<close>, \<^verbatim>\<open>constructor\<close>, ...) are not modelled.
\<close>

datatype jv =
    JUndefined
  | JNull
  | JBool bool
  | JNum int
  | JStr string
  | JArr "jv list"
  | JObj "(string \<times> jv) list"

text \<open>ToBoolean, as used by \<^verbatim>\<open>if (x)\<close>, \<^verbatim>\<open>!x\<close>, \<^verbatim>\<open>x || y\<close> and \<^verbatim>\<open>c ? a : b\<close>.\<close>

fun truthy :: "jv \<Rightarrow> bool" where
  "truthy JUndefined = False"
| "truthy JNull = False"
| "truthy (JBool b) = b"
| "truthy (JNum n) = (n \<noteq> 0)"
| "truthy (JStr s) = (s \<noteq> [])"
| "truthy (JArr xs) = True"
| "truthy (JObj kvs) = True"

text \<open>\<^verbatim>\<open>a || b\<close> on values.\<close>

definition js_or :: "jv \<Rightarrow> jv \<Rightarrow> jv" where
  "js_or a b = (if truthy a then a else b)"

text \<open>Decimal digits of a natural number, and ToString of an integer.\<close>

fun digits :: "nat \<Rightarrow> nat \<Rightarrow> string" where
  "digits 0 n = []"
| "digits (Suc fuel) n =
     (if n < 10 then [char_of (48 + n)]
      else digits fuel (n div 10) @ [char_of (48 + n mod 10)])"

definition show_nat :: "nat \<Rightarrow> string" where
  "show_nat n = digits (Suc n) n"

definition show_int :: "int \<Rightarrow> string" where
  "show_int i = (if i < 0 then CHR ''-'' # show_nat (nat (- i)) else show_nat (nat i))"

fun join :: "string \<Rightarrow> string list \<Rightarrow> string" where
  "join sep [] = []"
| "join sep [x] = x"
| "join sep (x # y # ys) = x @ sep @ join sep (y # ys)"

text \<open>
  ToString, which \<^verbatim>\<open>String.prototype.replace\<close> applies to whatever its callback
  returns: \<^verbatim>\<open>undefined\<close> becomes the nine characters \<^verbatim>\<open>undefined\<close>.
\<close>

fun to_string :: "jv \<Rightarrow> string" where
  "to_string JUndefined = ''undefined''"
| "to_string JNull = ''null''"
| "to_string (JBool b) = (if b then ''true'' else ''false'')"
| "to_string (JNum n) = show_int n"
| "to_string (JStr s) = s"
| "to_string (JArr xs) =
     join '','' (map (\<lambda>x. case x of JUndefined \<Rightarrow> [] | JNull \<Rightarrow> [] | _ \<Rightarrow> to_string x) xs)"
| "to_string (JObj kvs) = ''[object Object]''"

section \<open>Strings\<close>

definition startsWith :: "string \<Rightarrow> string \<Rightarrow> bool" where
  "startsWith s p = (take (length p) s = p)"

fun str_includes :: "string \<Rightarrow> string \<Rightarrow> bool" where
  "str_includes [] p = (p = [])"
| "str_includes (c # cs) p = (startsWith (c # cs) p \<or> str_includes cs p)"

text \<open>White space and line terminators of the ASCII range (\<^verbatim>\<open>\s\<close>, \<^verbatim>\<open>trim\<close>).\<close>

definition is_space :: "char \<Rightarrow> bool" where
  "is_space c = (c \<in> set [CHR '' '', CHR 0x09, CHR 0x0A, CHR 0x0B, CHR 0x0C, CHR 0x0D])"

definition line_terminator :: "char \<Rightarrow> bool" where
  "line_terminator c = (c = CHR 0x0A \<or> c = CHR 0x0D)"

definition trim :: "string \<Rightarrow> string" where
  "trim s = rev (dropWhile is_space (rev (dropWhile is_space s)))"

text \<open>\<^verbatim>\<open>s.split('.')\<close>: always at least one piece.\<close>

fun split_on :: "char \<Rightarrow> string \<Rightarrow> string list" where
  "split_on d [] = [[]]"
| "split_on d (c # cs) =
     (if c = d then [] # split_on d cs
      else (case split_on d cs of p # ps \<Rightarrow> (c # p) # ps | [] \<Rightarrow> [[c]]))"

section \<open>Execution context and tools\<close>

text \<open>\<^verbatim>\<open>WorkflowExecutionContext\<close> (workflow-types.ts).\<close>

record ctx =
  variables :: "(string \<times> jv) list"
  iteration :: nat
  history :: "jv list"
  userMessages :: "string list"
  previousArtifacts :: "(string \<times> string) list"

text \<open>\<^verbatim>\<open>obj[key]\<close> on an object given as an association list.\<close>

definition js_prop :: "(string \<times> jv) list \<Rightarrow> string \<Rightarrow> jv" where
  "js_prop kvs k = (case map_of kvs k of None \<Rightarrow> JUndefined | Some v \<Rightarrow> v)"

text \<open>
  A tool's \<^verbatim>\<open>execute(params, context)\<close>: it throws (\<open>Inl\<close>, the error message) or
  returns a value, and it may have written to the context it was handed. A tool that
  throws is taken to have left the context as it was.
\<close>

type_synonym tool_fn = "jv \<Rightarrow> ctx \<Rightarrow> string + (jv \<times> ctx)"

record Tool =
  description :: string
  parameters :: jv
  execute :: tool_fn

text \<open>
  \<^verbatim>\<open>Map<string, Tool>\<close>: insertion-ordered, \<^verbatim>\<open>set\<close> on an existing key keeps its place.
\<close>

type_synonym tools = "(string \<times> Tool) list"

definition addTool :: "string \<times> Tool \<Rightarrow> tools \<Rightarrow> tools" where
  "addTool t ts = AList.update (fst t) (snd t) ts"

text \<open>
  What the engine takes from its host: the language model (\<^verbatim>\<open>llmClient.chat\<close>, which
  fails or returns the reply's content), \<^verbatim>\<open>eval\<close> in a scope that holds the context,
  and the JSON functions. \<^verbatim>\<open>JSON.stringify\<close> throws on a value it cannot serialise (an
  object that contains itself, a \<^verbatim>\<open>BigInt\<close>); such values are not among those of the
  datatype above, so whether it throws is the host's answer (\<open>Inl\<close>, the error message).
  Its value is taken as the text that a template literal shows (for \<^verbatim>\<open>undefined\<close> it
  returns \<^verbatim>\<open>undefined\<close>, shown as that word). \<open>json_context\<close> is
  \<^verbatim>\<open>JSON.stringify(context, null, 2)\<close>.
\<close>

datatype role = System | User | Assistant

type_synonym LLMMessage = "role \<times> string"

record host =
  chat :: "LLMMessage list \<Rightarrow> string + string"
  js_eval :: "string \<Rightarrow> ctx \<Rightarrow> string + jv"
  json_parse :: "string \<Rightarrow> jv option"
  json_stringify :: "jv \<Rightarrow> string + string"
  json_context :: "ctx \<Rightarrow> string + string"

section \<open>The reasoning loop (ReActExecutor)\<close>

record parsed =
  thought :: string
  action :: string
  actionInput :: jv

text \<open>A step is \<^verbatim>\<open>{ ...parsed, observation }\<close>.\<close>

record ReActStep = parsed +
  observation :: string

record ReActResult =
  success :: bool
  result :: jv
  steps :: "ReActStep list"

definition nl :: string where
  "nl = [CHR 0x0A]"

definition dq :: string where
  "dq = [CHR 0x22]"

subsection \<open>The three regular expressions of \<^verbatim>\<open>parseReActResponse\<close>\<close>

text \<open>
  Each has the shape \<^verbatim>\<open>/Label:\s*(.+?)(?=stop1|stop2|$)/s\<close>. The lazy group takes one
  character and then as few more as possible until a stop follows or the input ends.
\<close>

fun lazy_tail :: "string list \<Rightarrow> string \<Rightarrow> string" where
  "lazy_tail stops [] = []"
| "lazy_tail stops (c # cs) =
     (if list_ex (startsWith (c # cs)) stops then [] else c # lazy_tail stops cs)"

text \<open>
  After the label, \<^verbatim>\<open>\s*\<close> is greedy. When something other than white space is left,
  the group starts there; when only white space follows the label, the matcher
  backtracks by one character and the group is the last white-space character.
\<close>

definition group_after :: "string list \<Rightarrow> string \<Rightarrow> string" where
  "group_after stops r =
     (case dropWhile is_space r of
        [] \<Rightarrow> [last r]
      | c # cs \<Rightarrow> c # lazy_tail stops cs)"

text \<open>
  \<^verbatim>\<open>response.match(re)\<close>: the leftmost place where the label occurs with at least one
  character after it; \<open>None\<close> is \<^verbatim>\<open>null\<close>. The value is capture group 1.
\<close>

fun label_match :: "string \<Rightarrow> string list \<Rightarrow> string \<Rightarrow> string option" where
  "label_match label stops [] = None"
| "label_match label stops (c # cs) =
     (if startsWith (c # cs) label \<and> drop (length label) (c # cs) \<noteq> []
      then Some (group_after stops (drop (length label) (c # cs)))
      else label_match label stops cs)"

definition parseReActResponse :: "host \<Rightarrow> string \<Rightarrow> parsed" where
  "parseReActResponse h response =
     (let thoughtMatch = label_match ''Thought:'' [nl @ ''Action:'', nl @ nl] response;
          actionMatch = label_match ''Action:'' [nl @ ''Action Input:'', nl @ nl] response;
          actionInputMatch = label_match ''Action Input:'' [] response
      in \<lparr> thought = (case thoughtMatch of Some g \<Rightarrow> trim g | None \<Rightarrow> []),
           action = (case actionMatch of Some g \<Rightarrow> trim g | None \<Rightarrow> ''FINISH''),
           actionInput =
             (case actionInputMatch of
                None \<Rightarrow> JObj []
              | Some g \<Rightarrow>
                  (case json_parse h (trim g) of
                     Some v \<Rightarrow> v
                   | None \<Rightarrow> JStr (trim g))) \<rparr>)"

subsection \<open>The prompt\<close>

text \<open>
  \<open>getToolsDescription\<close> and \<open>buildReActPrompt\<close> call \<^verbatim>\<open>JSON.stringify\<close>, on the parameters of
  every tool and on the context; the first call that throws ends them.
\<close>

fun tool_lines :: "host \<Rightarrow> tools \<Rightarrow> string + string list" where
  "tool_lines h [] = Inr []"
| "tool_lines h ((name, tool) # ts) =
     (case json_stringify h (parameters tool) of
        Inl err \<Rightarrow> Inl err
      | Inr ps \<Rightarrow>
          (case tool_lines h ts of
             Inl err \<Rightarrow> Inl err
           | Inr ls \<Rightarrow>
               Inr ([''- '' @ name @ '': '' @ description tool, ''  Parameters: '' @ ps] @ ls)))"

definition getToolsDescription :: "host \<Rightarrow> tools \<Rightarrow> string + string" where
  "getToolsDescription h ts =
     (case tool_lines h ts of Inl err \<Rightarrow> Inl err | Inr ls \<Rightarrow> Inr (join nl ls))"

definition buildReActPrompt :: "host \<Rightarrow> string \<Rightarrow> string \<Rightarrow> ctx \<Rightarrow> string + string" where
  "buildReActPrompt h task toolsDescription c =
     (case json_context h c of
        Inl err \<Rightarrow> Inl err
      | Inr context_json \<Rightarrow>
          Inr (''You are an AI agent using the ReAct (Reasoning and Acting) framework to solve tasks.''
     @ nl @ nl @ ''Task: '' @ task
     @ nl @ nl @ ''Context: '' @ context_json
     @ nl @ nl @ ''Available Tools:'' @ nl @ toolsDescription
     @ nl @ nl @ ''You must respond in the following format for each step:''
     @ nl @ nl @ ''Thought: [Your reasoning about what to do next]''
     @ nl @ ''Action: [The tool name to use, or '' @ dq @ ''FINISH'' @ dq @ '' when the task is complete]''
     @ nl @ ''Action Input: [The input for the tool as a JSON object, or the final result if Action is FINISH]''
     @ nl @ nl @ ''When you have completed the task, use:''
     @ nl @ ''Action: FINISH''
     @ nl @ ''Action Input: [Your final result]''
     @ nl @ nl @ ''Begin!''))"

text \<open>
  The messages before the first round: the system prompt when there is one, then the
  prompt. They are built before the loop and outside its \<^verbatim>\<open>try\<close>, so an error here
  leaves \<open>execute\<close> as an exception.
\<close>

definition initial_messages ::
  "host \<Rightarrow> tools \<Rightarrow> string \<Rightarrow> ctx \<Rightarrow> string option \<Rightarrow> string + LLMMessage list" where
  "initial_messages h ts task c systemPrompt =
     (case getToolsDescription h ts of
        Inl err \<Rightarrow> Inl err
      | Inr toolsDescription \<Rightarrow>
          (case buildReActPrompt h task toolsDescription c of
             Inl err \<Rightarrow> Inl err
           | Inr initialPrompt \<Rightarrow>
               Inr ((case systemPrompt of
                       None \<Rightarrow> []
                     | Some sp \<Rightarrow> if sp = [] then [] else [(System, sp)])
                    @ [(User, initialPrompt)])))"

subsection \<open>The loop\<close>

definition maxIterations :: nat where
  "maxIterations = 10"

definition missing_tool :: "tools \<Rightarrow> string \<Rightarrow> string" where
  "missing_tool ts a =
     ''Error: Tool '' @ dq @ a @ dq @ '' not found. Available tools: '' @ join '', '' (map fst ts)"

definition follow_up :: "string \<Rightarrow> string" where
  "follow_up obs = ''Observation: '' @ obs @ nl @ nl @ ''Continue with your reasoning.''"

text \<open>
  The progress callback is a closure of whoever installs it (\<open>setProgressCallback\<close>): it
  is handed the step, and it can read the context object that was given to \<open>execute\<close>
  and change the state \<open>'s\<close> of its owner. \<open>None\<close> is an executor without a callback.
\<close>

type_synonym 's progressCallback = "ReActStep \<Rightarrow> ctx \<Rightarrow> 's \<Rightarrow> 's"

definition report_step :: "'s progressCallback option \<Rightarrow> ReActStep \<Rightarrow> ctx \<Rightarrow> 's \<Rightarrow> 's" where
  "report_step cb st c s = (case cb of None \<Rightarrow> s | Some f \<Rightarrow> f st c s)"

text \<open>
  \<^verbatim>\<open>for (let i = 0; i < this.maxIterations; i++)\<close>: the numeric argument is the number of
  rounds still allowed, \<^verbatim>\<open>maxIterations - i\<close>. Every exception inside a round (a failing
  model call, a failing tool, a tool result that \<^verbatim>\<open>JSON.stringify\<close> rejects) is caught and
  ends the loop with \<^verbatim>\<open>success: false\<close>, the message of the error and the steps pushed so
  far. The callback is called with every step that is pushed; it is taken not to throw.
\<close>

fun execute_rounds ::
  "host \<Rightarrow> tools \<Rightarrow> 's progressCallback option \<Rightarrow> nat \<Rightarrow> LLMMessage list \<Rightarrow> ReActStep list
     \<Rightarrow> ctx \<Rightarrow> 's \<Rightarrow> (ReActResult \<times> ctx) \<times> 's" where
  "execute_rounds h ts cb 0 messages stps c s =
     ((\<lparr> success = False,
          result = JStr ''Max iterations reached without completion'',
          steps = stps \<rparr>, c), s)"
| "execute_rounds h ts cb (Suc n) messages stps c s =
     (case chat h messages of
        Inl err \<Rightarrow> ((\<lparr> success = False, result = JStr err, steps = stps \<rparr>, c), s)
      | Inr content \<Rightarrow>
          (let p = parseReActResponse h content in
           if action p = ''FINISH''
           then (let finalStep = parsed.extend p \<lparr> observation = ''Task completed'' \<rparr>
                 in ((\<lparr> success = True, result = actionInput p, steps = stps @ [finalStep] \<rparr>, c),
                     report_step cb finalStep c s))
           else
             (case map_of ts (action p) of
                None \<Rightarrow>
                  (let step = parsed.extend p \<lparr> observation = missing_tool ts (action p) \<rparr>
                   in execute_rounds h ts cb n
                        (messages @ [(Assistant, content),
                                     (User, follow_up (missing_tool ts (action p)))])
                        (stps @ [step]) c (report_step cb step c s))
              | Some tool \<Rightarrow>
                  (case execute tool (actionInput p) c of
                     Inl err \<Rightarrow> ((\<lparr> success = False, result = JStr err, steps = stps \<rparr>, c), s)
                   | Inr (obs, c') \<Rightarrow>
                       (case json_stringify h obs of
                          Inl err \<Rightarrow>
                            ((\<lparr> success = False, result = JStr err, steps = stps \<rparr>, c'), s)
                        | Inr obs_json \<Rightarrow>
                            (let step = parsed.extend p \<lparr> observation = obs_json \<rparr>
                             in execute_rounds h ts cb n
                                  (messages @ [(Assistant, content), (User, follow_up obs_json)])
                                  (stps @ [step]) c' (report_step cb step c' s)))))))"

text \<open>The loop of an executor on which no callback was set: only the result is of interest.\<close>

definition execute_loop ::
  "host \<Rightarrow> tools \<Rightarrow> nat \<Rightarrow> LLMMessage list \<Rightarrow> ReActStep list \<Rightarrow> ctx \<Rightarrow> ReActResult \<times> ctx" where
  "execute_loop h ts n messages stps c =
     fst (execute_rounds h ts (None :: unit progressCallback option) n messages stps c ())"

text \<open>
  \<open>execute\<close>: \<open>Inl\<close> when building the first prompt threw, otherwise what the loop returns
  and the state of the callback's owner.
\<close>

definition react_execute ::
  "host \<Rightarrow> tools \<Rightarrow> 's progressCallback option \<Rightarrow> string \<Rightarrow> ctx \<Rightarrow> string option \<Rightarrow> 's
     \<Rightarrow> string + ((ReActResult \<times> ctx) \<times> 's)" where
  "react_execute h ts cb task c systemPrompt s =
     (case initial_messages h ts task c systemPrompt of
        Inl err \<Rightarrow> Inl err
      | Inr messages \<Rightarrow> Inr (execute_rounds h ts cb maxIterations messages [] c s))"

text \<open>
  How each round of a run of the loop ended: with \<^verbatim>\<open>FINISH\<close>, with a step and a
  \<^verbatim>\<open>continue\<close> (a tool that is missing or one that ran), or in the \<^verbatim>\<open>catch\<close> clause. The
  list has one entry for each round that was begun, that is for each call of the model.
\<close>

datatype round_end = Finished | Continued | Failed string

fun round_events :: "host \<Rightarrow> tools \<Rightarrow> nat \<Rightarrow> LLMMessage list \<Rightarrow> ctx \<Rightarrow> round_end list" where
  "round_events h ts 0 messages c = []"
| "round_events h ts (Suc n) messages c =
     (case chat h messages of
        Inl err \<Rightarrow> [Failed err]
      | Inr content \<Rightarrow>
          (let p = parseReActResponse h content in
           if action p = ''FINISH'' then [Finished]
           else
             (case map_of ts (action p) of
                None \<Rightarrow>
                  Continued # round_events h ts n
                    (messages @ [(Assistant, content),
                                 (User, follow_up (missing_tool ts (action p)))]) c
              | Some tool \<Rightarrow>
                  (case execute tool (actionInput p) c of
                     Inl err \<Rightarrow> [Failed err]
                   | Inr (obs, c') \<Rightarrow>
                       (case json_stringify h obs of
                          Inl err \<Rightarrow> [Failed err]
                        | Inr obs_json \<Rightarrow>
                            Continued # round_events h ts n
                              (messages @ [(Assistant, content), (User, follow_up obs_json)])
                              c')))))"

section \<open>The workflow graph executor (WorkflowEngine)\<close>

datatype WorkflowNodeType = TOOL_CALL | DATA_ACCESS | REACT | CONDITION | LOOP | OTHER string

record config =
  toolName :: "string option"
  toolParams :: "(string \<times> jv) list option"
  dataSource :: "string option"
  condition :: "string option"
  cfg_maxIterations :: "nat option"
  reactPrompt :: "string option"

text \<open>\<^verbatim>\<open>next?: string | string[]\<close>\<close>

datatype next_field = NoNext | NextId string | NextIds "string list"

record WorkflowNode =
  node_id :: string
  node_type :: WorkflowNodeType
  node_name :: string
  node_config :: config
  node_next :: next_field

record Workflow =
  wf_id :: string
  wf_name :: string
  wf_agentType :: string
  nodes :: "WorkflowNode list"
  startNode :: string
  goalCondition :: string

record WorkflowExecutionResult =
  wf_success :: bool
  wf_output :: jv
  wf_error :: "string option"
  wf_context :: ctx

subsection \<open>Placeholder substitution\<close>

text \<open>
  \<^verbatim>\<open>str.replace(/\{\{(.+?)\}\}/g, callback)\<close>. Without the \<^verbatim>\<open>s\<close> flag the dot does not
  match a line terminator. \<open>find_close\<close> is the lazy group followed by the closing
  braces: it returns the group and what is left of the input after the match.
\<close>

fun find_close :: "string \<Rightarrow> string \<Rightarrow> (string \<times> string) option" where
  "find_close acc [] = None"
| "find_close acc (c # cs) =
     (if line_terminator c then None
      else if startsWith cs ''}}'' then Some (acc @ [c], drop 2 cs)
      else find_close (acc @ [c]) cs)"

definition match_at :: "string \<Rightarrow> (string \<times> string) option" where
  "match_at s = (if startsWith s ''{{'' then find_close [] (drop 2 s) else None)"

lemma find_close_shorter: "find_close acc s = Some (g, r) \<Longrightarrow> length r < length s"
  by (induction acc s rule: find_close.induct) (auto split: if_splits)

lemma match_at_shorter: "match_at s = Some (g, r) \<Longrightarrow> length r < length s"
  by (auto simp: match_at_def split: if_splits dest: find_close_shorter)

function replace_placeholders :: "(string \<Rightarrow> string) \<Rightarrow> string \<Rightarrow> string" where
  "replace_placeholders f [] = []"
| "replace_placeholders f (c # cs) =
     (case match_at (c # cs) of
        Some (g, rest) \<Rightarrow> f g @ replace_placeholders f rest
      | None \<Rightarrow> c # replace_placeholders f cs)"
  by pat_completeness auto
termination
  by (relation "measure (\<lambda>(f, s). length s)") (auto dest: match_at_shorter)

text \<open>The context object itself, for the dotted lookup \<^verbatim>\<open>context.a.b\<close>.\<close>

definition context_value :: "ctx \<Rightarrow> jv" where
  "context_value c =
     JObj [(''variables'', JObj (variables c)),
           (''iteration'', JNum (int (iteration c))),
           (''history'', JArr (history c)),
           (''userMessages'', JArr (map JStr (userMessages c))),
           (''previousArtifacts'', JObj (map (\<lambda>(k, v). (k, JStr v)) (previousArtifacts c)))]"

definition is_digit :: "char \<Rightarrow> bool" where
  "is_digit c = ((48 :: nat) \<le> of_char c \<and> of_char c \<le> (57 :: nat))"

text \<open>An array index: a decimal numeral in canonical form.\<close>

definition parse_index :: "string \<Rightarrow> nat option" where
  "parse_index k =
     (if k \<noteq> [] \<and> list_all is_digit k
      then (let n = foldl (\<lambda>a c. 10 * a + (of_char c - 48)) (0 :: nat) k
            in if show_nat n = k then Some n else None)
      else None)"

text \<open>\<^verbatim>\<open>current[key]\<close> on own properties.\<close>

fun js_get :: "jv \<Rightarrow> string \<Rightarrow> jv" where
  "js_get (JObj kvs) k = js_prop kvs k"
| "js_get (JArr xs) k =
     (if k = ''length'' then JNum (int (length xs))
      else (case parse_index k of
              Some i \<Rightarrow> if i < length xs then xs ! i else JUndefined
            | None \<Rightarrow> JUndefined))"
| "js_get (JStr s) k =
     (if k = ''length'' then JNum (int (length s))
      else (case parse_index k of
              Some i \<Rightarrow> if i < length s then JStr [s ! i] else JUndefined
            | None \<Rightarrow> JUndefined))"
| "js_get v k = JUndefined"

text \<open>\<^verbatim>\<open>path.split('.').reduce((current, key) => current?.[key], obj)\<close>\<close>

definition getNestedValue :: "jv \<Rightarrow> string \<Rightarrow> jv" where
  "getNestedValue obj path =
     foldl (\<lambda>current key.
              (case current of
                 JUndefined \<Rightarrow> JUndefined
               | JNull \<Rightarrow> JUndefined
               | _ \<Rightarrow> js_get current key))
       obj (split_on CHR ''.'' path)"

text \<open>
  The callback of \<^verbatim>\<open>resolveString\<close>, followed by the ToString that \<^verbatim>\<open>replace\<close> applies
  to its value.
\<close>

definition placeholder :: "ctx \<Rightarrow> string \<Rightarrow> string" where
  "placeholder c varName =
     (let trimmed = trim varName in
      if startsWith trimmed ''context.''
      then to_string (getNestedValue (context_value c) (drop 8 trimmed))
      else to_string (js_or (js_prop (variables c) trimmed) (JStr [])))"

definition resolveString :: "string \<Rightarrow> ctx \<Rightarrow> string" where
  "resolveString str c = replace_placeholders (placeholder c) str"

definition resolveParameters :: "(string \<times> jv) list \<Rightarrow> ctx \<Rightarrow> jv" where
  "resolveParameters params c =
     JObj (map (\<lambda>(key, v). (key, (case v of JStr s \<Rightarrow> JStr (resolveString s c) | _ \<Rightarrow> v))) params)"

subsection \<open>Conditions\<close>

text \<open>A goal condition that is empty or whose evaluation throws counts as not met.\<close>

definition evaluateGoalCondition :: "host \<Rightarrow> string \<Rightarrow> ctx \<Rightarrow> bool" where
  "evaluateGoalCondition h cond c =
     (if cond = [] then False
      else (case js_eval h (resolveString cond c) c of
              Inl err \<Rightarrow> False
            | Inr v \<Rightarrow> truthy v))"

definition evaluateCondition :: "host \<Rightarrow> WorkflowNode \<Rightarrow> ctx \<Rightarrow> jv" where
  "evaluateCondition h node c =
     (case condition (node_config node) of
        None \<Rightarrow> JBool False
      | Some cond \<Rightarrow>
          if cond = [] then JBool False
          else (case js_eval h (resolveString cond c) c of
                  Inl err \<Rightarrow> JBool False
                | Inr v \<Rightarrow> v))"

subsection \<open>Node kinds\<close>

definition executeToolCall :: "tools \<Rightarrow> WorkflowNode \<Rightarrow> ctx \<Rightarrow> string + (jv \<times> ctx)" where
  "executeToolCall ts node c =
     (case toolName (node_config node) of
        None \<Rightarrow> Inl (''Tool name not specified in node '' @ node_id node)
      | Some tn \<Rightarrow>
          if tn = [] then Inl (''Tool name not specified in node '' @ node_id node)
          else (case map_of ts tn of
                  None \<Rightarrow> Inl (''Tool '' @ tn @ '' not found'')
                | Some tool \<Rightarrow>
                    execute tool
                      (resolveParameters
                         (case toolParams (node_config node) of None \<Rightarrow> [] | Some ps \<Rightarrow> ps) c)
                      c))"

definition executeDataAccess :: "WorkflowNode \<Rightarrow> ctx \<Rightarrow> string + (jv \<times> ctx)" where
  "executeDataAccess node c =
     (case dataSource (node_config node) of
        None \<Rightarrow> Inl (''Data source not specified in node '' @ node_id node)
      | Some ds \<Rightarrow>
          if ds = [] then Inl (''Data source not specified in node '' @ node_id node)
          else if startsWith ds ''artifact:''
          then Inr ((case map_of (previousArtifacts c) (drop 9 ds) of
                       None \<Rightarrow> JUndefined
                     | Some path \<Rightarrow> JStr path), c)
          else if startsWith ds ''variable:''
          then Inr (js_prop (variables c) (drop 9 ds), c)
          else Inl (''Unknown data source: '' @ ds))"

text \<open>
  A \<^verbatim>\<open>react\<close> node runs a fresh reasoning loop without a system prompt and without a
  progress callback, and returns its \<^verbatim>\<open>result\<close> field, whether or not the loop succeeded.
  When \<open>execute\<close> throws, so does the node.
\<close>

definition executeReAct :: "host \<Rightarrow> tools \<Rightarrow> WorkflowNode \<Rightarrow> ctx \<Rightarrow> string + (jv \<times> ctx)" where
  "executeReAct h ts node c =
     (let task = (case reactPrompt (node_config node) of
                    None \<Rightarrow> ''Complete the current task''
                  | Some t \<Rightarrow> if t = [] then ''Complete the current task'' else t)
      in case react_execute h ts (None :: unit progressCallback option)
                (resolveString task c) c None () of
           Inl err \<Rightarrow> Inl err
         | Inr r \<Rightarrow> Inr (result (fst (fst r)), snd (fst r)))"

text \<open>
  \<^verbatim>\<open>for (let i = 0; i < maxIterations; i++)\<close> of \<^verbatim>\<open>executeLoop\<close>, with the number of
  passes left and the counter \<open>i\<close>.
\<close>

fun executeLoop_from :: "host \<Rightarrow> string \<Rightarrow> nat \<Rightarrow> nat \<Rightarrow> jv list \<Rightarrow> ctx \<Rightarrow> jv list \<times> ctx" where
  "executeLoop_from h goal 0 i results c = (results, c)"
| "executeLoop_from h goal (Suc k) i results c =
     (let c' = c\<lparr> iteration := i \<rparr> in
      if evaluateGoalCondition h goal c' then (results, c')
      else executeLoop_from h goal k (Suc i) (results @ [JObj [(''iteration'', JNum (int i))]]) c')"

definition executeLoop :: "host \<Rightarrow> WorkflowNode \<Rightarrow> ctx \<Rightarrow> Workflow \<Rightarrow> string + (jv \<times> ctx)" where
  "executeLoop h node c w =
     (let maxIter = (case cfg_maxIterations (node_config node) of
                       None \<Rightarrow> 10
                     | Some m \<Rightarrow> if m = 0 then 10 else m);
          r = executeLoop_from h (goalCondition w) maxIter 0 [] c
      in Inr (JArr (fst r), snd r))"

definition executeNode ::
  "host \<Rightarrow> tools \<Rightarrow> WorkflowNode \<Rightarrow> ctx \<Rightarrow> Workflow \<Rightarrow> string + (jv \<times> ctx)" where
  "executeNode h ts node c w =
     (case node_type node of
        TOOL_CALL \<Rightarrow> executeToolCall ts node c
      | DATA_ACCESS \<Rightarrow> executeDataAccess node c
      | REACT \<Rightarrow> executeReAct h ts node c
      | CONDITION \<Rightarrow> Inr (evaluateCondition h node c, c)
      | LOOP \<Rightarrow> executeLoop h node c w
      | OTHER t \<Rightarrow> Inl (''Unknown node type: '' @ t))"

subsection \<open>Choosing the next node\<close>

definition nth_opt :: "'a list \<Rightarrow> nat \<Rightarrow> 'a option" where
  "nth_opt xs i = (if i < length xs then Some (xs ! i) else None)"

text \<open>\<open>None\<close> is \<^verbatim>\<open>undefined\<close>. The context argument is not used by the source either.\<close>

definition determineNextNode :: "WorkflowNode \<Rightarrow> jv \<Rightarrow> ctx \<Rightarrow> string option" where
  "determineNextNode node res c =
     (case node_next node of
        NoNext \<Rightarrow> None
      | NextId n \<Rightarrow> if n = [] then None else Some n
      | NextIds ns \<Rightarrow>
          if length ns > 0
          then (if truthy res then nth_opt ns 0 else nth_opt ns 1)
          else None)"

subsection \<open>Running a workflow\<close>

definition history_entry :: "WorkflowNode \<Rightarrow> jv \<Rightarrow> jv" where
  "history_entry node res = JObj [(''node'', JStr (node_id node)), (''result'', res)]"

text \<open>\<^verbatim>\<open>context.history.push({ node: node.id, result })\<close>\<close>

definition visited :: "WorkflowNode \<Rightarrow> jv \<Rightarrow> ctx \<Rightarrow> ctx" where
  "visited node res c = c\<lparr> history := history c @ [history_entry node res] \<rparr>"

text \<open>
  \<^verbatim>\<open>while (currentNodeId) { ... }\<close> inside the \<^verbatim>\<open>try\<close>. A graph with a cycle can keep the
  loop running for ever, so the loop takes fuel: one unit per node visit, \<open>None\<close> when
  the fuel is used up before the loop has ended. A thrown error ends the run with
  \<^verbatim>\<open>success: false\<close> and the context as it was.
\<close>

fun executeWorkflow_loop ::
  "host \<Rightarrow> tools \<Rightarrow> Workflow \<Rightarrow> nat \<Rightarrow> string option \<Rightarrow> ctx \<Rightarrow> WorkflowExecutionResult option" where
  "executeWorkflow_loop h ts w fuel None c =
     Some \<lparr> wf_success = True, wf_output = js_prop (variables c) ''output'',
            wf_error = None, wf_context = c \<rparr>"
| "executeWorkflow_loop h ts w 0 (Some cur) c =
     (if cur = []
      then Some \<lparr> wf_success = True, wf_output = js_prop (variables c) ''output'',
                  wf_error = None, wf_context = c \<rparr>
      else None)"
| "executeWorkflow_loop h ts w (Suc fuel) (Some cur) c =
     (if cur = []
      then Some \<lparr> wf_success = True, wf_output = js_prop (variables c) ''output'',
                  wf_error = None, wf_context = c \<rparr>
      else
        (case find (\<lambda>n. node_id n = cur) (nodes w) of
           None \<Rightarrow>
             Some \<lparr> wf_success = False, wf_output = JUndefined,
                    wf_error = Some (''Node '' @ cur @ '' not found in workflow''),
                    wf_context = c \<rparr>
         | Some node \<Rightarrow>
             (case executeNode h ts node c w of
                Inl err \<Rightarrow>
                  Some \<lparr> wf_success = False, wf_output = JUndefined,
                         wf_error = Some err, wf_context = c \<rparr>
              | Inr (res, c1) \<Rightarrow>
                  (let c2 = visited node res c1 in
                   if evaluateGoalCondition h (goalCondition w) c2
                   then Some \<lparr> wf_success = True,
                               wf_output = js_or (js_prop (variables c2) ''output'') res,
                               wf_error = None, wf_context = c2 \<rparr>
                   else executeWorkflow_loop h ts w fuel (determineNextNode node res c2) c2))))"

definition executeWorkflow ::
  "host \<Rightarrow> tools \<Rightarrow> nat \<Rightarrow> Workflow \<Rightarrow> ctx \<Rightarrow> WorkflowExecutionResult option" where
  "executeWorkflow h ts fuel w initialContext =
     executeWorkflow_loop h ts w fuel (Some (startNode w)) initialContext"

section \<open>The message bus (A2AServer)\<close>

datatype MessageType =
    AGENT_START | AGENT_COMPLETE | AGENT_ERROR | AGENT_PROGRESS
  | USER_MESSAGE | SYSTEM_MESSAGE | ARTIFACT_APPROVAL

record payload =
  p_content :: "string option"
  p_data :: jv
  p_artifactPath :: jv
  p_error :: "string option"

text \<open>
  \<^verbatim>\<open>Omit<A2AMessage, 'id' | 'timestamp'>\<close> is what an agent hands to \<^verbatim>\<open>sendA2AMessage\<close>; the
  full message adds the two generated fields. Sender and recipient are the strings
  found at run time: an agent type, \<^verbatim>\<open>user\<close>, \<^verbatim>\<open>system\<close> or \<^verbatim>\<open>all\<close>.
\<close>

record a2a_body =
  msg_type :: MessageType
  msg_from :: string
  msg_to :: string
  msg_payload :: payload

record A2AMessage = a2a_body +
  msg_id :: string
  msg_timestamp :: nat

text \<open>
  A server-side socket: whether its \<^verbatim>\<open>readyState\<close> is \<^verbatim>\<open>OPEN\<close>, and the messages handed
  to its \<^verbatim>\<open>send\<close> so far, each wrapped by the server as
  \<^verbatim>\<open>{ type: 'a2a_message', payload: message }\<close>.
\<close>

record socket =
  ready :: bool
  sent :: "A2AMessage list"

definition ws_send :: "A2AMessage \<Rightarrow> socket \<Rightarrow> socket" where
  "ws_send m ws = ws\<lparr> sent := sent ws @ [m] \<rparr>"

text \<open>
  The four maps of the server, in insertion order. Message handlers are observers:
  the model records each notification in \<open>notified\<close>.
\<close>

record A2AServer =
  clients :: "(string \<times> socket) list"
  agentClients :: "(string \<times> string) list"
  messageQueue :: "(string \<times> A2AMessage list) list"
  messageHandlers :: "string list"
  notified :: "(string \<times> A2AMessage) list"

text \<open>The constructor: \<^verbatim>\<open>initializeMessageQueues\<close>.\<close>

definition new_A2AServer :: A2AServer where
  "new_A2AServer =
     \<lparr> clients = [], agentClients = [],
       messageQueue = [(''planner'', []), (''artist'', []), (''developer'', [])],
       messageHandlers = [], notified = [] \<rparr>"

text \<open>The frames a client can send to the server.\<close>

datatype frame = Register string | A2A_Frame A2AMessage | Other_Frame

definition on_connection :: "string \<Rightarrow> A2AServer \<Rightarrow> A2AServer" where
  "on_connection clientId s =
     s\<lparr> clients := AList.update clientId \<lparr> ready = True, sent = [] \<rparr> (clients s) \<rparr>"

text \<open>
  \<^verbatim>\<open>ws.on('close')\<close>: the client goes, and so does the first agent registration that points
  to it. Queued messages stay.
\<close>

definition on_close :: "string \<Rightarrow> A2AServer \<Rightarrow> A2AServer" where
  "on_close clientId s =
     s\<lparr> clients := AList.delete clientId (clients s),
        agentClients :=
          (case find (\<lambda>(agentType, cid). cid = clientId) (agentClients s) of
             None \<Rightarrow> agentClients s
           | Some (agentType, cid) \<Rightarrow> AList.delete agentType (agentClients s)) \<rparr>"

text \<open>
  \<^verbatim>\<open>clientId && this.clients.has(clientId)\<close>: the socket an agent type is bound to, when
  there is one.
\<close>

definition connection_of :: "A2AServer \<Rightarrow> string \<Rightarrow> (string \<times> socket) option" where
  "connection_of s agentType =
     (case map_of (agentClients s) agentType of
        None \<Rightarrow> None
      | Some clientId \<Rightarrow>
          if clientId = [] then None
          else (case map_of (clients s) clientId of
                  None \<Rightarrow> None
                | Some ws \<Rightarrow> Some (clientId, ws)))"

definition connected :: "A2AServer \<Rightarrow> string \<Rightarrow> bool" where
  "connected s agentType = (connection_of s agentType \<noteq> None)"

definition deliverMessage :: "string \<Rightarrow> A2AMessage \<Rightarrow> A2AServer \<Rightarrow> A2AServer" where
  "deliverMessage agentType message s =
     (case connection_of s agentType of
        Some (clientId, ws) \<Rightarrow>
          s\<lparr> clients := AList.update clientId (ws_send message ws) (clients s) \<rparr>
      | None \<Rightarrow>
          (case map_of (messageQueue s) agentType of
             None \<Rightarrow> s
           | Some queue \<Rightarrow>
               s\<lparr> messageQueue := AList.update agentType (queue @ [message]) (messageQueue s) \<rparr>))"

text \<open>
  \<^verbatim>\<open>for (const message of queue) this.deliverMessage(agentType, message)\<close>. The array
  iterator reads \<^verbatim>\<open>queue.length\<close> at every step, and \<open>deliverMessage\<close> pushes to the same
  array when the agent is not connected, so the loop is not bounded by the length the
  queue had at the start: it is a partial function of the index.
\<close>

partial_function (option) sendQueued_from :: "string \<Rightarrow> nat \<Rightarrow> A2AServer \<Rightarrow> A2AServer option" where
  "sendQueued_from agentType i s =
     (case map_of (messageQueue s) agentType of
        None \<Rightarrow> Some s
      | Some queue \<Rightarrow>
          if i < length queue
          then sendQueued_from agentType (Suc i) (deliverMessage agentType (queue ! i) s)
          else Some s)"

definition sendQueuedMessages :: "string \<Rightarrow> A2AServer \<Rightarrow> A2AServer option" where
  "sendQueuedMessages agentType s =
     (case map_of (messageQueue s) agentType of
        None \<Rightarrow> Some s
      | Some queue \<Rightarrow>
          if length queue > 0
          then (case sendQueued_from agentType 0 s of
                  None \<Rightarrow> None
                | Some s' \<Rightarrow>
                    Some (s'\<lparr> messageQueue := AList.update agentType [] (messageQueue s') \<rparr>))
          else Some s)"

definition routeMessage :: "A2AMessage \<Rightarrow> A2AServer \<Rightarrow> A2AServer" where
  "routeMessage message s =
     (let s' = (if msg_to message = ''all''
                then s\<lparr> clients := map (\<lambda>(cid, ws). (cid, if ready ws then ws_send message ws
                                                                 else ws)) (clients s) \<rparr>
                else deliverMessage (msg_to message) message s)
      in s'\<lparr> notified := notified s' @ map (\<lambda>hid. (hid, message)) (messageHandlers s') \<rparr>)"

definition handleMessage :: "string \<Rightarrow> frame \<Rightarrow> A2AServer \<Rightarrow> A2AServer option" where
  "handleMessage clientId fr s =
     (case fr of
        Register agentType \<Rightarrow>
          if agentType \<noteq> []
          then sendQueuedMessages agentType
                 (s\<lparr> agentClients := AList.update agentType clientId (agentClients s) \<rparr>)
          else Some s
      | A2A_Frame message \<Rightarrow> Some (routeMessage message s)
      | Other_Frame \<Rightarrow> Some s)"

definition sendMessage :: "A2AMessage \<Rightarrow> A2AServer \<Rightarrow> A2AServer" where
  "sendMessage message s = routeMessage message s"

definition onMessage :: "string \<Rightarrow> A2AServer \<Rightarrow> A2AServer" where
  "onMessage handlerId s = s\<lparr> messageHandlers := messageHandlers s @ [handlerId] \<rparr>"

definition offMessage :: "string \<Rightarrow> A2AServer \<Rightarrow> A2AServer" where
  "offMessage handlerId s = s\<lparr> messageHandlers := removeAll handlerId (messageHandlers s) \<rparr>"

definition getConnectedAgents :: "A2AServer \<Rightarrow> string list" where
  "getConnectedAgents s = map fst (agentClients s)"

text \<open>A sequence of \<open>sendMessage\<close> calls, in order.\<close>

definition publish_all :: "A2AMessage list \<Rightarrow> A2AServer \<Rightarrow> A2AServer" where
  "publish_all ms s = foldl (\<lambda>s' m. sendMessage m s') s ms"

section \<open>The agent runtime (BaseAgent)\<close>

datatype AgentStatus =
    IDLE | RUNNING | PAUSED | COMPLETED | ERROR | WAITING_FOR_USER | WAITING_FOR_APPROVAL

datatype ExecutionMode = Automatic | Interactive

text \<open>The fields of \<^verbatim>\<open>AgentConfig\<close> that the runtime reads, as found in the stored JSON.\<close>

record AgentConfig =
  scenario :: "string option"
  prompt :: "string option"
  suggestedQuestions :: "string option"

text \<open>
  One agent. \<open>wsOpen\<close> says whether \<^verbatim>\<open>this.ws\<close> exists with \<^verbatim>\<open>readyState === OPEN\<close>, and
  \<open>outbox\<close> lists what was written to it. \<open>defaultGoal\<close> and \<open>systemPrompt\<close> are the values
  of the subclass's \<^verbatim>\<open>getDefaultGoal()\<close> and \<^verbatim>\<open>getSystemPrompt()\<close>; \<^verbatim>\<open>processArtifact\<close> only
  logs in all three subclasses.
\<close>

record BaseAgent =
  agent_type :: string
  status :: AgentStatus
  wsOpen :: bool
  outbox :: "a2a_body list"
  agent_userMessages :: "string list"
  executionContext :: ctx
  goalAchieved :: bool
  currentWorkflow :: "Workflow option"
  agent_tools :: "(string \<times> Tool) list"
  executionMode :: ExecutionMode
  currentQuestion :: "string option"
  artifactForApproval :: jv
  agentConfig :: "AgentConfig option"
  askedForInitialInput :: bool
  defaultGoal :: string
  systemPrompt :: string

text \<open>\<^verbatim>\<open>PersistenceManager\<close>, as far as the runtime reads it.\<close>

record store =
  readAgentConfig :: "string \<Rightarrow> AgentConfig option"
  readWorkflow :: "string \<Rightarrow> Workflow option"

text \<open>
  What a run depends on besides the agent: the host functions, the store, the fuel
  handed to the workflow graph loop, and \<^verbatim>\<open>eval\<close> in the scope of an agent method (for
  the goal condition of \<open>checkGoalAchievement\<close>).
\<close>

record run_env =
  env_host :: host
  env_store :: store
  env_fuel :: nat
  agent_eval :: "string \<Rightarrow> BaseAgent \<Rightarrow> string + jv"

definition sendA2AMessage :: "a2a_body \<Rightarrow> BaseAgent \<Rightarrow> BaseAgent" where
  "sendA2AMessage m a = (if wsOpen a then a\<lparr> outbox := outbox a @ [m] \<rparr> else a)"

definition to_all :: "BaseAgent \<Rightarrow> MessageType \<Rightarrow> payload \<Rightarrow> a2a_body" where
  "to_all a t p = \<lparr> msg_type = t, msg_from = agent_type a, msg_to = ''all'', msg_payload = p \<rparr>"

definition no_payload :: payload where
  "no_payload = \<lparr> p_content = None, p_data = JUndefined, p_artifactPath = JUndefined,
                  p_error = None \<rparr>"

text \<open>The constructor, for a subclass with the given tools, goal and system prompt.\<close>

definition new_BaseAgent :: "string \<Rightarrow> (string \<times> Tool) list \<Rightarrow> string \<Rightarrow> string \<Rightarrow> BaseAgent" where
  "new_BaseAgent t ts goal sp =
     \<lparr> agent_type = t, status = IDLE, wsOpen = False, outbox = [], agent_userMessages = [],
       executionContext = \<lparr> variables = [], iteration = 0, history = [], userMessages = [],
                             previousArtifacts = [] \<rparr>,
       goalAchieved = False, currentWorkflow = None, agent_tools = ts,
       executionMode = Automatic, currentQuestion = None, artifactForApproval = JNull,
       agentConfig = None, askedForInitialInput = False, defaultGoal = goal, systemPrompt = sp \<rparr>"

text \<open>\<open>connectToA2A\<close>, once the socket is open (the registration is the bus's side).\<close>

definition connectToA2A :: "BaseAgent \<Rightarrow> BaseAgent" where
  "connectToA2A a = a\<lparr> wsOpen := True \<rparr>"

subsection \<open>Operations called from outside the loop\<close>

definition stop :: "BaseAgent \<Rightarrow> BaseAgent" where
  "stop a = a\<lparr> status := IDLE, goalAchieved := True \<rparr>"

definition pause :: "BaseAgent \<Rightarrow> BaseAgent" where
  "pause a = a\<lparr> status := PAUSED \<rparr>"

definition resume :: "BaseAgent \<Rightarrow> BaseAgent" where
  "resume a = (if status a = PAUSED then a\<lparr> status := RUNNING \<rparr> else a)"

definition sendUserMessage :: "string \<Rightarrow> BaseAgent \<Rightarrow> BaseAgent" where
  "sendUserMessage message a =
     (let a' = a\<lparr> agent_userMessages := agent_userMessages a @ [message] \<rparr>
      in if status a' = WAITING_FOR_USER
         then a'\<lparr> status := RUNNING, currentQuestion := None \<rparr>
         else a')"

definition approveArtifact :: "bool \<Rightarrow> BaseAgent \<Rightarrow> string + BaseAgent" where
  "approveArtifact approved a =
     (if status a \<noteq> WAITING_FOR_APPROVAL then Inl ''Agent is not waiting for approval''
      else if approved then Inr (a\<lparr> goalAchieved := True, status := RUNNING \<rparr>)
      else Inr (a\<lparr> goalAchieved := False, status := RUNNING, artifactForApproval := JNull \<rparr>))"

text \<open>
  The run loop gives up control at its \<^verbatim>\<open>await\<close>s. What the control plane calls on the
  agent while the loop is suspended there is a list of calls; a rejected approval
  leaves the agent as it was.
\<close>

datatype call = Stop | Pause | Resume | SendUserMessage string | ApproveArtifact bool

fun apply_call :: "call \<Rightarrow> BaseAgent \<Rightarrow> BaseAgent" where
  "apply_call Stop a = stop a"
| "apply_call Pause a = pause a"
| "apply_call Resume a = resume a"
| "apply_call (SendUserMessage m) a = sendUserMessage m a"
| "apply_call (ApproveArtifact b) a = (case approveArtifact b a of Inl err \<Rightarrow> a | Inr a' \<Rightarrow> a')"

definition apply_calls :: "call list \<Rightarrow> BaseAgent \<Rightarrow> BaseAgent" where
  "apply_calls cs a = foldl (\<lambda>a' c. apply_call c a') a cs"

subsection \<open>One pass\<close>

text \<open>The tool map that \<^verbatim>\<open>addTool\<close> and the executor's constructor build from the array.\<close>

definition registered_tools :: "BaseAgent \<Rightarrow> tools" where
  "registered_tools a = foldl (\<lambda>ts t. addTool t ts) [] (agent_tools a)"

definition step_value :: "ReActStep \<Rightarrow> jv" where
  "step_value st =
     JObj [(''thought'', JStr (thought st)), (''action'', JStr (action st)),
           (''actionInput'', actionInput st), (''observation'', JStr (observation st))]"

definition set_output :: "jv \<Rightarrow> ctx \<Rightarrow> ctx" where
  "set_output v c = c\<lparr> variables := AList.update ''output'' v (variables c) \<rparr>"

text \<open>
  A pass of the loop ends in \<open>Inr\<close> with the agent as the pass leaves it, or it throws:
  \<open>Inl\<close>, with the message and the agent as it is then. \<open>None\<close>: the workflow graph loop
  did not end within the fuel.

  The engine works on a context object of its own that shares the variables, the
  history, the user messages and the artifacts with the agent's context and has its
  own iteration count. After a workflow that failed the agent keeps its context object,
  so it sees what the nodes have written so far, under its own iteration count. (Tools
  are taken to change the variables and the history in place.)
\<close>

definition agent_executeWorkflow ::
  "run_env \<Rightarrow> BaseAgent \<Rightarrow> ((string \<times> BaseAgent) + BaseAgent) option" where
  "agent_executeWorkflow env a =
     (case currentWorkflow a of
        None \<Rightarrow> Some (Inr a)
      | Some w \<Rightarrow>
          (case executeWorkflow (env_host env) (registered_tools a) (env_fuel env) w
                  (executionContext a) of
             None \<Rightarrow> None
           | Some r \<Rightarrow>
               if wf_success r
               then Some (Inr (a\<lparr> executionContext := set_output (wf_output r) (wf_context r) \<rparr>))
               else Some (Inl ((case wf_error r of None \<Rightarrow> [] | Some e \<Rightarrow> e),
                               a\<lparr> executionContext :=
                                    (wf_context r)\<lparr> iteration := iteration (executionContext a) \<rparr> \<rparr>))))"

definition scenario_of :: "BaseAgent \<Rightarrow> string option" where
  "scenario_of a =
     (case agentConfig a of
        None \<Rightarrow> None
      | Some cfg \<Rightarrow> (case scenario cfg of None \<Rightarrow> None | Some sc \<Rightarrow> if sc = [] then None else Some sc))"

text \<open>Whether a scenario is stored for the agent, which is what \<open>start\<close> reads.\<close>

definition has_scenario :: "run_env \<Rightarrow> BaseAgent \<Rightarrow> bool" where
  "has_scenario env a =
     (scenario_of (a\<lparr> agentConfig := readAgentConfig (env_store env) (agent_type a) \<rparr>) \<noteq> None)"

definition criteria_label :: string where
  "criteria_label =
     ''Completion Criteria ('' @
     [CHR 0xE9, CHR 0x80, CHR 0x82, CHR 0xE7, CHR 0x94, CHR 0xA8,
      CHR 0xE5, CHR 0x9C, CHR 0xBA, CHR 0xE6, CHR 0x99, CHR 0xAF] @ ''): ''"

definition full_system_prompt :: "BaseAgent \<Rightarrow> string" where
  "full_system_prompt a =
     systemPrompt a
     @ (case scenario_of a of
          None \<Rightarrow> []
        | Some sc \<Rightarrow>
            nl @ nl @ criteria_label @ sc @ nl @
            ''Your task is complete when you have successfully satisfied the above completion criteria.'')
     @ (case agentConfig a of
          None \<Rightarrow> []
        | Some cfg \<Rightarrow>
            (case prompt cfg of
               None \<Rightarrow> []
             | Some p \<Rightarrow> if p = [] then [] else nl @ nl @ ''Additional Instructions: '' @ p))
     @ (case agentConfig a of
          None \<Rightarrow> []
        | Some cfg \<Rightarrow>
            (case suggestedQuestions cfg of
               None \<Rightarrow> []
             | Some q \<Rightarrow>
                 if executionMode a = Interactive \<and> q \<noteq> []
                 then nl @ nl @ ''When asking for user input, you may use these suggested questions: '' @ q
                 else []))"

text \<open>
  The progress callback that \<open>executeReActLoop\<close> installs: one progress message for every
  step of the reasoning loop, with the step and the iteration count that the context
  has at that moment.
\<close>

definition step_progress :: "BaseAgent progressCallback" where
  "step_progress st c a =
     sendA2AMessage
       (to_all a AGENT_PROGRESS
          (no_payload\<lparr> p_content := Some ''ReAct step executed'',
                        p_data := JObj [(''step'', step_value st),
                                        (''iteration'', JNum (int (iteration c)))] \<rparr>)) a"

text \<open>
  The reasoning loop works on the agent's context object itself. While it runs, the
  context is the one threaded through the loop; the agent takes it back at the end,
  also when the loop failed.
\<close>

definition agent_executeReActLoop :: "run_env \<Rightarrow> BaseAgent \<Rightarrow> (string \<times> BaseAgent) + BaseAgent" where
  "agent_executeReActLoop env a =
     (case react_execute (env_host env) (registered_tools a) (Some step_progress) (defaultGoal a)
             (executionContext a) (Some (full_system_prompt a)) a of
        Inl err \<Rightarrow> Inl (err, a)
      | Inr ((r, c), a1) \<Rightarrow>
          if success r
          then Inr (a1\<lparr> executionContext :=
                         (set_output (result r) c)
                           \<lparr> history := history c @ map step_value (steps r) \<rparr> \<rparr>)
          else Inl (to_string (result r), a1\<lparr> executionContext := c \<rparr>))"

definition one_pass :: "run_env \<Rightarrow> BaseAgent \<Rightarrow> ((string \<times> BaseAgent) + BaseAgent) option" where
  "one_pass env a =
     (if currentWorkflow a \<noteq> None then agent_executeWorkflow env a
      else Some (agent_executeReActLoop env a))"

text \<open>
  \<open>checkGoalAchievement\<close>. The flag \<open>goalAchieved\<close> only ever feeds tests, so the model
  keeps the truth value of what \<^verbatim>\<open>eval\<close> returned.
\<close>

definition checkGoalAchievement :: "run_env \<Rightarrow> BaseAgent \<Rightarrow> bool" where
  "checkGoalAchievement env a =
     (case (case currentWorkflow a of
              None \<Rightarrow> None
            | Some w \<Rightarrow> if goalCondition w = [] then None else Some (goalCondition w)) of
        Some cond \<Rightarrow>
          (case agent_eval env cond a of Inl err \<Rightarrow> False | Inr v \<Rightarrow> truthy v)
      | None \<Rightarrow>
          if \<not> truthy (js_prop (variables (executionContext a)) ''output'') then False
          else if scenario_of a \<noteq> None then True
          else truthy (js_prop (variables (executionContext a)) ''output''))"

subsection \<open>The main loop\<close>

definition ask_initial_input :: "BaseAgent \<Rightarrow> BaseAgent" where
  "ask_initial_input a =
     (let q = ''Please provide your initial requirements to begin.'';
          a' = a\<lparr> askedForInitialInput := True, currentQuestion := Some q,
                  status := WAITING_FOR_USER \<rparr>
      in sendA2AMessage
           (to_all a' AGENT_PROGRESS
              (no_payload\<lparr> p_content := Some q,
                            p_data := JObj [(''status'', JStr ''waiting_for_user''),
                                            (''question'', JStr q)] \<rparr>)) a')"

definition begin_iteration :: "BaseAgent \<Rightarrow> BaseAgent" where
  "begin_iteration a =
     a\<lparr> executionContext :=
          (executionContext a)\<lparr> iteration := Suc (iteration (executionContext a)),
                                 userMessages := agent_userMessages a \<rparr>,
        agent_userMessages := [] \<rparr>"

definition request_approval :: "BaseAgent \<Rightarrow> BaseAgent" where
  "request_approval a =
     (let art = js_prop (variables (executionContext a)) ''output'';
          a' = a\<lparr> artifactForApproval := art, status := WAITING_FOR_APPROVAL \<rparr>
      in sendA2AMessage
           (to_all a' AGENT_PROGRESS
              (no_payload\<lparr> p_content := Some ''Task completed. Please review the artifact.'',
                            p_data := JObj [(''status'', JStr ''waiting_for_approval''),
                                            (''artifact'', art)] \<rparr>)) a')"

definition report_progress :: "BaseAgent \<Rightarrow> BaseAgent" where
  "report_progress a =
     sendA2AMessage
       (to_all a AGENT_PROGRESS
          (no_payload\<lparr> p_content := Some (''Iteration '' @ show_nat (iteration (executionContext a))
                                          @ '' completed''),
                        p_data := JObj [(''goalAchieved'', JBool (goalAchieved a))] \<rparr>)) a"

text \<open>What follows the loop: the completion message goes out whenever the flag is set.\<close>

definition run_epilogue :: "BaseAgent \<Rightarrow> BaseAgent" where
  "run_epilogue a =
     (if goalAchieved a
      then (let a' = a\<lparr> status := COMPLETED \<rparr>
            in sendA2AMessage
                 (to_all a' AGENT_COMPLETE
                    (no_payload\<lparr> p_content := Some (agent_type a' @ '' agent completed''),
                                  p_data := js_prop (variables (executionContext a')) ''output'',
                                  p_artifactPath :=
                                    js_prop (variables (executionContext a')) ''artifactPath'' \<rparr>)) a')
      else a)"

text \<open>
  How a call of \<open>run\<close> or \<open>start\<close> ends: it returns, it throws, or it is still inside the
  loop when the schedule of the environment is used up (\<open>Pending\<close>, with the agent as it
  is then).
\<close>

datatype outcome = Returned BaseAgent | Threw string BaseAgent | Pending BaseAgent

text \<open>
  The \<^verbatim>\<open>while\<close> loop of \<open>run\<close>. The schedule has one entry for each \<^verbatim>\<open>await\<close> at which the
  loop is suspended (the one-second sleeps and the pass): the calls that reach the
  agent during that suspension. A \<^verbatim>\<open>continue\<close> that does not pass an \<^verbatim>\<open>await\<close> takes
  nothing from the schedule.
\<close>

function run_loop :: "run_env \<Rightarrow> call list list \<Rightarrow> BaseAgent \<Rightarrow> outcome" where
  "run_loop env sched a =
     (if \<not> goalAchieved a \<and> status a \<noteq> ERROR
      then
        (if status a = WAITING_FOR_USER
         then (case sched of [] \<Rightarrow> Pending a | e # es \<Rightarrow> run_loop env es (apply_calls e a))
         else if status a = WAITING_FOR_APPROVAL
         then (case sched of [] \<Rightarrow> Pending a | e # es \<Rightarrow> run_loop env es (apply_calls e a))
         else if status a \<noteq> RUNNING
         then (case sched of [] \<Rightarrow> Pending a | e # es \<Rightarrow> run_loop env es (apply_calls e a))
         else if executionMode a = Interactive \<and> \<not> askedForInitialInput a
                 \<and> agent_userMessages a = []
         then run_loop env sched (ask_initial_input a)
         else
           (case sched of
              [] \<Rightarrow> Pending (begin_iteration a)
            | e # es \<Rightarrow>
                (case one_pass env (apply_calls e (begin_iteration a)) of
                   None \<Rightarrow> Pending (apply_calls e (begin_iteration a))
                 | Some (Inl (err, a1)) \<Rightarrow> Threw err a1
                 | Some (Inr a2) \<Rightarrow>
                     (if executionMode a2 = Interactive \<and> checkGoalAchievement env a2
                      then run_loop env es
                             (request_approval (a2\<lparr> goalAchieved := checkGoalAchievement env a2 \<rparr>))
                      else
                        (case es of
                           [] \<Rightarrow> Pending (report_progress
                                            (a2\<lparr> goalAchieved := checkGoalAchievement env a2 \<rparr>))
                         | d # ds \<Rightarrow>
                             run_loop env ds
                               (apply_calls d
                                  (report_progress
                                     (a2\<lparr> goalAchieved := checkGoalAchievement env a2 \<rparr>))))))))
      else Returned (run_epilogue a))"
  by pat_completeness auto
termination
  by (relation "inv_image (less_than <*lex*> less_than)
        (\<lambda>(env, sched, a). (length sched, if askedForInitialInput a then 0 else (1::nat)))")
     (auto simp: ask_initial_input_def sendA2AMessage_def Let_def)

declare run_loop.simps [simp del]

definition run :: "run_env \<Rightarrow> call list list \<Rightarrow> BaseAgent \<Rightarrow> outcome" where
  "run env sched a =
     run_loop env sched
       (case readWorkflow (env_store env) (agent_type a) of
          None \<Rightarrow> a
        | Some w \<Rightarrow> a\<lparr> currentWorkflow := Some w \<rparr>)"

subsection \<open>Starting\<close>

text \<open>
  The part of \<open>start\<close> before \<^verbatim>\<open>await this.run()\<close>: nothing when the agent is running, an
  error when no scenario is stored for it (the configuration that was read stays in
  the agent), and otherwise the agent set running, with the start message sent.

  Between the test of the status and the rest lies \<^verbatim>\<open>await readAgentConfig\<close>.
  \<open>start_configured\<close> is what follows that \<^verbatim>\<open>await\<close>, applied to the agent as it is then;
  in \<open>start_begin\<close> the agent has not changed in between, so \<open>start_begin\<close> and \<open>start\<close> are
  calls on an agent that nothing else touches while its configuration is read.
\<close>

datatype begun = AlreadyRunning | NoScenario string BaseAgent | Begun BaseAgent

definition start_configured ::
  "run_env \<Rightarrow> (string \<times> jv) list \<Rightarrow> ExecutionMode option \<Rightarrow> BaseAgent \<Rightarrow> begun" where
  "start_configured env initialData mode a =
     (let a1 = a\<lparr> agentConfig := readAgentConfig (env_store env) (agent_type a) \<rparr>
      in if scenario_of a1 = None
         then NoScenario (''Agent '' @ agent_type a
                          @ '' must have a scenario configured to define completion criteria'') a1
         else
           (let a2 = a1\<lparr> executionMode := (case mode of None \<Rightarrow> Automatic | Some m \<Rightarrow> m),
                         status := RUNNING,
                         goalAchieved := False,
                         executionContext := (executionContext a1)\<lparr> variables := initialData \<rparr> \<rparr>
            in Begun
                 (sendA2AMessage
                    (to_all a2 AGENT_START
                       (no_payload\<lparr> p_content :=
                          Some (agent_type a2 @ '' agent started in ''
                                @ (case executionMode a2 of
                                     Automatic \<Rightarrow> ''automatic''
                                   | Interactive \<Rightarrow> ''interactive'')
                                @ '' mode'') \<rparr>)) a2)))"

definition start_begin ::
  "run_env \<Rightarrow> (string \<times> jv) list \<Rightarrow> ExecutionMode option \<Rightarrow> BaseAgent \<Rightarrow> begun" where
  "start_begin env initialData mode a =
     (if status a = RUNNING then AlreadyRunning
      else start_configured env initialData mode a)"

text \<open>\<^verbatim>\<open>try { await this.run() } catch (error) { ... }\<close>\<close>

definition catch_run :: "outcome \<Rightarrow> outcome" where
  "catch_run r =
     (case r of
        Threw err a4 \<Rightarrow>
          Returned (sendA2AMessage
                      (to_all a4 AGENT_ERROR (no_payload\<lparr> p_error := Some err \<rparr>))
                      (a4\<lparr> status := ERROR \<rparr>))
      | Returned a4 \<Rightarrow> Returned a4
      | Pending a4 \<Rightarrow> Pending a4)"

definition start ::
  "run_env \<Rightarrow> call list list \<Rightarrow> (string \<times> jv) list \<Rightarrow> ExecutionMode option \<Rightarrow> BaseAgent \<Rightarrow> outcome" where
  "start env sched initialData mode a =
     (case start_begin env initialData mode a of
        AlreadyRunning \<Rightarrow> Returned a
      | NoScenario err a1 \<Rightarrow> Threw err a1
      | Begun a3 \<Rightarrow> catch_run (run env sched a3))"

section \<open>The dependency scheduler (server)\<close>

record AgentConnection =
  conn_from :: string
  conn_to :: string

record WorkflowExecutionState =
  currentNodeId :: "string option"
  currentAgentType :: "string option"
  es_mode :: ExecutionMode
  blockedAgents :: "string list"
  completedNodes :: "string list"
  artifactApprovals :: "(string \<times> bool) list"

text \<open>
  The module-level variables of the server. \<open>startCalls\<close> is not one of them: it is the
  trace of the \<^verbatim>\<open>agent.start(...)\<close> calls the handlers make, kept to state what was
  started.
\<close>

record Server =
  plannerAgent :: "BaseAgent option"
  artistAgent :: "BaseAgent option"
  developerAgent :: "BaseAgent option"
  agentConnections :: "AgentConnection list"
  executionState :: WorkflowExecutionState
  startCalls :: "string list"

definition getAgentByType :: "Server \<Rightarrow> string \<Rightarrow> BaseAgent option" where
  "getAgentByType s t =
     (if t = ''planner'' then plannerAgent s
      else if t = ''artist'' then artistAgent s
      else if t = ''developer'' then developerAgent s
      else None)"

text \<open>The agent object of type \<open>t\<close> after a call has changed it.\<close>

definition put_agent :: "string \<Rightarrow> BaseAgent \<Rightarrow> Server \<Rightarrow> Server" where
  "put_agent t a s =
     (if t = ''planner'' then s\<lparr> plannerAgent := Some a \<rparr>
      else if t = ''artist'' then s\<lparr> artistAgent := Some a \<rparr>
      else if t = ''developer'' then s\<lparr> developerAgent := Some a \<rparr>
      else s)"

definition called_start :: "string \<Rightarrow> Server \<Rightarrow> Server" where
  "called_start t s = s\<lparr> startCalls := startCalls s @ [t] \<rparr>"

definition allAgents :: "string list" where
  "allAgents = [''planner'', ''artist'', ''developer'']"

definition startingAgents :: "AgentConnection list \<Rightarrow> string list" where
  "startingAgents conns =
     (let agentsWithDependencies = map conn_to conns
      in filter (\<lambda>agent. agent \<notin> set agentsWithDependencies) allAgents)"

datatype response = Success "string list" | Status400 string | Status500 string

text \<open>
  \<^verbatim>\<open>for (const agentType of startingAgents) { ... await agent.start({}, mode) ... }\<close>. Each
  call is awaited, so the next agent is started when the run of the one before has
  ended. The result is \<open>None\<close> when a call does not return within its schedule;
  otherwise the error that was thrown, if any, and the server then. \<open>scheds t\<close> is the
  schedule met by the run of agent \<open>t\<close>.
\<close>

fun start_each ::
  "run_env \<Rightarrow> (string \<Rightarrow> call list list) \<Rightarrow> ExecutionMode option \<Rightarrow> string list \<Rightarrow> Server
     \<Rightarrow> (string option \<times> Server) option" where
  "start_each env scheds mode [] s = Some (None, s)"
| "start_each env scheds mode (t # ts) s =
     (case getAgentByType s t of
        None \<Rightarrow> start_each env scheds mode ts s
      | Some agent \<Rightarrow>
          (case start env (scheds t) [] mode agent of
             Pending a' \<Rightarrow> None
           | Threw err a' \<Rightarrow> Some (Some err, put_agent t a' (called_start t s))
           | Returned a' \<Rightarrow> start_each env scheds mode ts (put_agent t a' (called_start t s))))"

definition fresh_state :: "ExecutionMode option \<Rightarrow> WorkflowExecutionState" where
  "fresh_state mode =
     \<lparr> currentNodeId = None, currentAgentType = None,
       es_mode = (case mode of None \<Rightarrow> Automatic | Some m \<Rightarrow> m),
       blockedAgents = [], completedNodes = [], artifactApprovals = [] \<rparr>"

text \<open>The handler of \<^verbatim>\<open>POST /api/workflow/start\<close>.\<close>

definition startWorkflow ::
  "run_env \<Rightarrow> (string \<Rightarrow> call list list) \<Rightarrow> ExecutionMode option \<Rightarrow> Server
     \<Rightarrow> (response \<times> Server) option" where
  "startWorkflow env scheds mode s =
     (let s1 = s\<lparr> executionState := fresh_state mode \<rparr>;
          starting = startingAgents (agentConnections s1)
      in if length starting = 0
         then Some (Status400 ''No starting agents found'', s1)
         else
           (case start_each env scheds mode starting s1 of
              None \<Rightarrow> None
            | Some (Some err, s2) \<Rightarrow> Some (Status500 err, s2)
            | Some (None, s2) \<Rightarrow>
                Some (Success starting,
                      s2\<lparr> executionState :=
                            (executionState s2)\<lparr> currentAgentType := Some (hd starting) \<rparr> \<rparr>)))"

subsection \<open>The monitor\<close>

text \<open>
  The monitor's \<^verbatim>\<open>on('message')\<close> handler is an \<^verbatim>\<open>async\<close> function: every message that
  arrives begins a run of the handler, and a run gives up control at each \<^verbatim>\<open>await\<close>, where
  the runs begun by other messages can go on. A run of the handler is followed from
  \<^verbatim>\<open>await\<close> to \<^verbatim>\<open>await\<close>; what is left of it is one of:

  \<^item> \<open>Arrived m\<close>: the frame carrying \<open>m\<close> has arrived, the handler has not begun;
  \<^item> \<open>Marked t\<close>: \<open>t\<close> was pushed to \<^verbatim>\<open>completedNodes\<close>, the run awaits \<^verbatim>\<open>saveExecutionState\<close>;
  \<^item> \<open>Saving n rest\<close>: in the loop over the next agents, \<open>n\<close> has passed the tests
    (dependencies completed, initialised, idle) and is the current agent, the run awaits
    \<^verbatim>\<open>saveExecutionState\<close>; \<open>rest\<close> are the next agents still to be looked at;
  \<^item> \<open>Reading_config n mode rest\<close>: \<^verbatim>\<open>n.start({}, mode)\<close> was called and found the agent not
    running, \<open>start\<close> awaits \<^verbatim>\<open>readAgentConfig\<close>;
  \<^item> \<open>In_run n rest\<close>: \<open>start\<close> has set the agent running and sent the start message,
    \<open>run\<close> awaits \<^verbatim>\<open>readWorkflow\<close>;
  \<^item> \<open>After_start rest\<close>: the call of \<open>start\<close> has returned, the run awaits its promise;
  \<^item> \<open>Asleep n\<close>: the loop of \<open>run\<close> of agent \<open>n\<close> has not ended within its schedule;
  \<^item> \<open>Handled\<close>: the handler has returned (or has caught an error and logged it).
\<close>

datatype task =
    Arrived A2AMessage
  | Marked string
  | Saving string "string list"
  | Reading_config string ExecutionMode "string list"
  | In_run string "string list"
  | After_start "string list"
  | Asleep string
  | Handled

text \<open>\<^verbatim>\<open>agentConnections.filter(conn => conn.from === completedAgentType).map(conn => conn.to)\<close>\<close>

definition nextAgents :: "string \<Rightarrow> Server \<Rightarrow> string list" where
  "nextAgents completedAgentType s =
     map conn_to (filter (\<lambda>conn. conn_from conn = completedAgentType) (agentConnections s))"

text \<open>
  The loop over the next agents, up to its first \<^verbatim>\<open>await\<close>: the candidates whose
  dependencies are not all completed, that are not initialised or whose status is not
  idle are passed over; the first one that is idle becomes the current agent.
\<close>

fun examine :: "string list \<Rightarrow> Server \<Rightarrow> task \<times> Server" where
  "examine [] s = (Handled, s)"
| "examine (nextAgentType # rest) s =
     (let dependencies =
            map conn_from (filter (\<lambda>conn. conn_to conn = nextAgentType) (agentConnections s))
      in if list_all (\<lambda>dep. dep \<in> set (completedNodes (executionState s))) dependencies
         then
           (case getAgentByType s nextAgentType of
              None \<Rightarrow> examine rest s
            | Some agent \<Rightarrow>
                if status agent = IDLE
                then (Saving nextAgentType rest,
                      s\<lparr> executionState :=
                           (executionState s)\<lparr> currentAgentType := Some nextAgentType \<rparr> \<rparr>)
                else examine rest s)
         else examine rest s)"

text \<open>
  One run of the handler, from where it is to its next \<^verbatim>\<open>await\<close>. The agent that \<open>start\<close> is
  called on is the object found before the \<^verbatim>\<open>await\<close>; the server holds the same object as
  long as the agents are not initialised anew, which no handler does. Saving the
  execution state is taken to succeed. From \<open>In_run\<close> on, the loop of \<open>run\<close> is followed in
  one step, with the calls of the agent's schedule: what other runs of the handler do
  to the same agent while its loop is under way is not followed.
\<close>

fun handler_step ::
  "run_env \<Rightarrow> (string \<Rightarrow> call list list) \<Rightarrow> task \<Rightarrow> Server \<Rightarrow> task \<times> Server" where
  "handler_step env scheds (Arrived m) s =
     (if msg_type m = AGENT_COMPLETE
      then
        (if msg_from m \<in> set (completedNodes (executionState s))
         then examine (nextAgents (msg_from m) s) s
         else (Marked (msg_from m),
               s\<lparr> executionState :=
                    (executionState s)\<lparr> completedNodes :=
                       completedNodes (executionState s) @ [msg_from m] \<rparr> \<rparr>))
      else (Handled, s))"
| "handler_step env scheds (Marked completedAgentType) s =
     examine (nextAgents completedAgentType s) s"
| "handler_step env scheds (Saving n rest) s =
     (case getAgentByType s n of
        None \<Rightarrow> (Handled, s)
      | Some agent \<Rightarrow>
          if status agent = RUNNING then (After_start rest, called_start n s)
          else (Reading_config n (es_mode (executionState s)) rest, called_start n s))"
| "handler_step env scheds (Reading_config n mode rest) s =
     (case getAgentByType s n of
        None \<Rightarrow> (Handled, s)
      | Some agent \<Rightarrow>
          (case start_configured env [] (Some mode) agent of
             AlreadyRunning \<Rightarrow> (After_start rest, s)
           | NoScenario err a1 \<Rightarrow> (Handled, put_agent n a1 s)
           | Begun a3 \<Rightarrow> (In_run n rest, put_agent n a3 s)))"
| "handler_step env scheds (In_run n rest) s =
     (case getAgentByType s n of
        None \<Rightarrow> (Handled, s)
      | Some agent \<Rightarrow>
          (case catch_run (run env (scheds n) agent) of
             Returned a' \<Rightarrow> (After_start rest, put_agent n a' s)
           | Threw err a' \<Rightarrow> (Handled, put_agent n a' s)
           | Pending a' \<Rightarrow> (Asleep n, put_agent n a' s)))"
| "handler_step env scheds (After_start rest) s = examine rest s"
| "handler_step env scheds (Asleep n) s = (Asleep n, s)"
| "handler_step env scheds Handled s = (Handled, s)"

text \<open>
  Several runs of the handler, one for each message that has arrived, and the order in
  which they are resumed: each entry of \<open>order\<close> names the run that goes on to its next
  \<^verbatim>\<open>await\<close>.
\<close>

fun run_handlers ::
  "run_env \<Rightarrow> (string \<Rightarrow> call list list) \<Rightarrow> nat list \<Rightarrow> task list \<Rightarrow> Server
     \<Rightarrow> task list \<times> Server" where
  "run_handlers env scheds [] tasks s = (tasks, s)"
| "run_handlers env scheds (i # order) tasks s =
     (if i < length tasks
      then run_handlers env scheds order
             (tasks[i := fst (handler_step env scheds (tasks ! i) s)])
             (snd (handler_step env scheds (tasks ! i) s))
      else run_handlers env scheds order tasks s)"

section \<open>Example inputs\<close>

text \<open>
  Concrete hosts, tools, nodes and contexts on which the theorems below are
  instantiated.
\<close>

definition literal_eval :: "string \<Rightarrow> ctx \<Rightarrow> string + jv" where
  "literal_eval s c =
     (if s = ''true'' then Inr (JBool True)
      else if s = ''false'' then Inr (JBool False)
      else Inl ''SyntaxError'')"

text \<open>
  A model whose reply is empty, one that always asks for a tool nobody has, one that
  fails, one that always asks for the tool \<^verbatim>\<open>echo\<close>, and hosts whose \<^verbatim>\<open>JSON.stringify\<close> rejects
  every value or every context.
\<close>

definition silent_host :: host where
  "silent_host = \<lparr> chat = (\<lambda>ms. Inr []), js_eval = literal_eval,
                   json_parse = (\<lambda>s. None), json_stringify = (\<lambda>v. Inr (to_string v)),
                   json_context = (\<lambda>c. Inr []) \<rparr>"

definition stubborn_host :: host where
  "stubborn_host = silent_host\<lparr> chat := (\<lambda>ms. Inr ''Action: fly'') \<rparr>"

definition failing_host :: host where
  "failing_host = silent_host\<lparr> chat := (\<lambda>ms. Inl ''model unavailable'') \<rparr>"

definition echo_host :: host where
  "echo_host = silent_host\<lparr> chat := (\<lambda>ms. Inr ''Action: echo'') \<rparr>"

definition cyclic_host :: host where
  "cyclic_host = echo_host\<lparr> json_stringify := (\<lambda>v. Inl ''Converting circular structure to JSON'') \<rparr>"

definition cyclic_context_host :: host where
  "cyclic_context_host =
     silent_host\<lparr> json_context := (\<lambda>c. Inl ''Converting circular structure to JSON'') \<rparr>"

definition empty_ctx :: ctx where
  "empty_ctx = \<lparr> variables = [], iteration = 0, history = [], userMessages = [],
                 previousArtifacts = [] \<rparr>"

definition ctx_x :: ctx where
  "ctx_x = empty_ctx\<lparr> variables := [(''x'', JStr ''hello'')] \<rparr>"

definition echo_tool :: Tool where
  "echo_tool = \<lparr> description = ''returns its parameters'', parameters = JObj [],
                 execute = (\<lambda>params c. Inr (params, c)) \<rparr>"

definition echo_tools :: tools where
  "echo_tools = [(''echo'', echo_tool)]"

text \<open>A registry whose tool \<^verbatim>\<open>echo\<close> throws.\<close>

definition broken_tools :: tools where
  "broken_tools = [(''echo'', echo_tool\<lparr> execute := (\<lambda>params c. Inl ''disk full'') \<rparr>)]"

definition no_config :: config where
  "no_config = \<lparr> toolName = None, toolParams = None, dataSource = None, condition = None,
                 cfg_maxIterations = None, reactPrompt = None \<rparr>"

text \<open>
  The workflow of the scenario: \<open>A\<close> calls the tool \<^verbatim>\<open>echo\<close> and leads to \<open>B\<close>, \<open>B\<close> is the
  condition \<^verbatim>\<open>true\<close> with the branch pair \<open>[C, D]\<close>, the goal condition is \<^verbatim>\<open>false\<close>.
\<close>

definition node_A :: "(string \<times> jv) list \<Rightarrow> WorkflowNode" where
  "node_A ps = \<lparr> node_id = ''A'', node_type = TOOL_CALL, node_name = ''A'',
                 node_config = no_config\<lparr> toolName := Some ''echo'', toolParams := Some ps \<rparr>,
                 node_next = NextId ''B'' \<rparr>"

definition node_B :: WorkflowNode where
  "node_B = \<lparr> node_id = ''B'', node_type = CONDITION, node_name = ''B'',
              node_config = no_config\<lparr> condition := Some ''true'' \<rparr>,
              node_next = NextIds [''C'', ''D''] \<rparr>"

definition scenario_workflow ::
  "(string \<times> jv) list \<Rightarrow> WorkflowNode \<Rightarrow> WorkflowNode \<Rightarrow> Workflow" where
  "scenario_workflow ps C D =
     \<lparr> wf_id = ''wf'', wf_name = ''scenario'', wf_agentType = ''planner'',
       nodes = [node_A ps, node_B, C, D], startNode = ''A'', goalCondition = ''false'' \<rparr>"

definition node_C :: WorkflowNode where
  "node_C = \<lparr> node_id = ''C'', node_type = DATA_ACCESS, node_name = ''C'',
              node_config = no_config\<lparr> dataSource := Some ''variable:x'' \<rparr>,
              node_next = NoNext \<rparr>"

definition node_D :: WorkflowNode where
  "node_D = \<lparr> node_id = ''D'', node_type = DATA_ACCESS, node_name = ''D'',
              node_config = no_config\<lparr> dataSource := Some ''variable:y'' \<rparr>,
              node_next = NoNext \<rparr>"

definition branch_node :: WorkflowNode where
  "branch_node = (node_A [])\<lparr> node_next := NextIds [''C'', ''D''] \<rparr>"

text \<open>A bus with one connected client, and two messages for the planner.\<close>

definition bus1 :: A2AServer where
  "bus1 = on_connection ''c1'' new_A2AServer"

definition user_says :: "string \<Rightarrow> string \<Rightarrow> nat \<Rightarrow> A2AMessage" where
  "user_says recipient txt n =
     \<lparr> msg_type = USER_MESSAGE, msg_from = ''user'', msg_to = recipient,
       msg_payload = no_payload\<lparr> p_content := Some txt \<rparr>,
       msg_id = show_nat n, msg_timestamp = n \<rparr>"

text \<open>
  An environment in which every agent has a scenario stored and none has a workflow,
  one in which nothing is stored, and a connected planner.
\<close>

definition some_config :: AgentConfig where
  "some_config = \<lparr> scenario = Some ''a design document exists'', prompt = None,
                   suggestedQuestions = None \<rparr>"

definition env0 :: run_env where
  "env0 = \<lparr> env_host = silent_host,
            env_store = \<lparr> readAgentConfig = (\<lambda>t. Some some_config), readWorkflow = (\<lambda>t. None) \<rparr>,
            env_fuel = 10,
            agent_eval = (\<lambda>s a. literal_eval s (executionContext a)) \<rparr>"

definition env_unconfigured :: run_env where
  "env_unconfigured = env0\<lparr> env_store := \<lparr> readAgentConfig = (\<lambda>t. None),
                                             readWorkflow = (\<lambda>t. None) \<rparr> \<rparr>"

definition agent0 :: "string \<Rightarrow> BaseAgent" where
  "agent0 t = connectToA2A (new_BaseAgent t [] ''Create the artifact'' ''You are an agent'')"

text \<open>
  A server with its three agents initialised and the single connection from the
  planner to the artist; a schedule without calls from outside; a completion message.
\<close>

definition server0 :: Server where
  "server0 =
     \<lparr> plannerAgent = Some (agent0 ''planner''), artistAgent = Some (agent0 ''artist''),
       developerAgent = Some (agent0 ''developer''),
       agentConnections = [\<lparr> conn_from = ''planner'', conn_to = ''artist'' \<rparr>],
       executionState = fresh_state None, startCalls = [] \<rparr>"

text \<open>The same server before the planner was initialised.\<close>

definition server_no_planner :: Server where
  "server_no_planner = server0\<lparr> plannerAgent := None \<rparr>"

definition quiet :: "string \<Rightarrow> call list list" where
  "quiet t = [[], []]"

definition completion_of :: "string \<Rightarrow> A2AMessage" where
  "completion_of t =
     \<lparr> msg_type = AGENT_COMPLETE, msg_from = t, msg_to = ''all'', msg_payload = no_payload,
       msg_id = ''m1'', msg_timestamp = 0 \<rparr>"

definition server_cycle :: Server where
  "server_cycle =
     server0\<lparr> agentConnections :=
                 [\<lparr> conn_from = ''planner'', conn_to = ''artist'' \<rparr>,
                  \<lparr> conn_from = ''artist'', conn_to = ''developer'' \<rparr>,
                  \<lparr> conn_from = ''developer'', conn_to = ''planner'' \<rparr>] \<rparr>"

text \<open>
  An environment whose model finishes at once with an empty result, so that a pass
  succeeds and leaves the goal unmet.
\<close>

definition env_unmet :: run_env where
  "env_unmet =
     env0\<lparr> env_host := silent_host\<lparr> chat :=
               (\<lambda>ms. Inr (''Action: FINISH'' @ nl @ ''Action Input: '')) \<rparr> \<rparr>"

section \<open>Properties of the workflow graph executor\<close>

subsection \<open>Branch selection\<close>

text \<open>
  C10. For every node whose \<^verbatim>\<open>next\<close> is a non-empty array, \<open>determineNextNode\<close> returns
  \<^verbatim>\<open>next[0]\<close> when the node's result is truthy and \<^verbatim>\<open>next[1]\<close> otherwise (\<^verbatim>\<open>undefined\<close>
  when the array has one element). The node's kind plays no part: replacing it by any
  other kind gives the same choice.
\<close>

theorem determineNextNode_branch_pair:
  assumes "node_next node = NextIds ns" and "ns \<noteq> []"
  shows "determineNextNode node res c = (if truthy res then nth_opt ns 0 else nth_opt ns 1)
         \<and> (\<forall>k. determineNextNode (node\<lparr> node_type := k \<rparr>) res c = determineNextNode node res c)"
  using assms by (simp add: determineNextNode_def)

theorem determineNextNode_branch_pair_witness:
  "determineNextNode branch_node (JStr ''ok'') empty_ctx = Some ''C''
   \<and> determineNextNode branch_node (JNum 0) empty_ctx = Some ''D''
   \<and> determineNextNode (branch_node\<lparr> node_type := LOOP \<rparr>) (JArr []) empty_ctx = Some ''C''"
proof -
  have nx: "node_next branch_node = NextIds [''C'', ''D'']"
    by (simp add: branch_node_def)
  have ne: "[''C'', ''D''] \<noteq> ([] :: string list)"
    by simp
  note pair = determineNextNode_branch_pair [OF nx ne]
  from pair [of "JStr ''ok''" empty_ctx] pair [of "JNum 0" empty_ctx] pair [of "JArr []" empty_ctx]
  show ?thesis
    by (simp add: nth_opt_def)
qed

subsection \<open>Placeholder substitution\<close>

lemma resolveString_plain:
  "resolveString ''true'' c = ''true''" "resolveString ''false'' c = ''false''"
  by (simp_all add: resolveString_def match_at_def startsWith_def)

text \<open>
  C9. A placeholder \<^verbatim>\<open>{{context.<path>}}\<close> whose path is missing is replaced by the text
  \<^verbatim>\<open>undefined\<close>, not by the empty string: the callback returns \<^verbatim>\<open>undefined\<close> and \<^verbatim>\<open>replace\<close>
  converts it to a string. The other branch has the fallback \<^verbatim>\<open>|| ''\<close>: an absent
  variable gives the empty string, and so does a variable whose value is \<open>0\<close>.
\<close>

theorem resolveString_missing_context_path:
  "resolveString ''{{context.missing}}'' c = ''undefined''
   \<and> resolveString ''{{missing}}'' empty_ctx = []
   \<and> resolveString ''{{n}}'' (empty_ctx\<lparr> variables := [(''n'', JNum 0)] \<rparr>) = []
   \<and> resolveString ''{{x}} {{ context.variables.x }}'' ctx_x = ''hello hello''"
  by (simp add: resolveString_def match_at_def startsWith_def line_terminator_def
      placeholder_def trim_def is_space_def getNestedValue_def context_value_def js_prop_def
      js_or_def empty_ctx_def ctx_x_def)

subsection \<open>The scenario A, B, C\<close>

lemma goal_false:
  assumes "\<And>c. js_eval h ''false'' c = Inr (JBool False)"
  shows "evaluateGoalCondition h ''false'' c = False"
  by (simp add: evaluateGoalCondition_def resolveString_plain assms)

lemma loop_end:
  "executeWorkflow_loop h ts w fuel None c =
     Some \<lparr> wf_success = True, wf_output = js_prop (variables c) ''output'',
            wf_error = None, wf_context = c \<rparr>"
  by simp

lemma loop_step:
  assumes "cur \<noteq> []"
    and "find (\<lambda>n. node_id n = cur) (nodes w) = Some node"
    and "executeNode h ts node c w = Inr (res, c1)"
    and "\<not> evaluateGoalCondition h (goalCondition w) (visited node res c1)"
  shows "executeWorkflow_loop h ts w (Suc fuel) (Some cur) c =
           executeWorkflow_loop h ts w fuel
             (determineNextNode node res (visited node res c1)) (visited node res c1)"
  using assms by (simp add: Let_def)

text \<open>
  The run of the scenario. With a tool \<^verbatim>\<open>echo\<close> that returns and a node \<open>C\<close> without \<^verbatim>\<open>next\<close>
  that executes, the run visits \<open>A\<close>, then \<open>B\<close> with the result \<^verbatim>\<open>true\<close>, then \<open>C\<close> (each visit is
  appended to the history of the context handed on), and stops there with success. Its
  output is the variable \<^verbatim>\<open>output\<close> of the context, whatever the result \<open>rC\<close> of \<open>C\<close> was.
\<close>

lemma scenario_run:
  assumes idC: "node_id C = ''C''" and nextC: "node_next C = NoNext"
    and evalT: "\<And>c. js_eval h ''true'' c = Inr (JBool True)"
    and evalF: "\<And>c. js_eval h ''false'' c = Inr (JBool False)"
    and echo: "map_of ts ''echo'' = Some tool"
    and runA: "execute tool (resolveParameters ps c) c = Inr (rA, cA)"
    and runC: "executeNode h ts C (visited node_B (JBool True) (visited (node_A ps) rA cA))
                 (scenario_workflow ps C D) = Inr (rC, cC)"
    and fuel: "3 \<le> fuel"
  shows "executeWorkflow h ts fuel (scenario_workflow ps C D) c =
           Some \<lparr> wf_success = True, wf_output = js_prop (variables cC) ''output'',
                  wf_error = None, wf_context = visited C rC cC \<rparr>"
proof -
  let ?w = "scenario_workflow ps C D"
  let ?c1 = "visited (node_A ps) rA cA"
  let ?c2 = "visited node_B (JBool True) ?c1"
  obtain f where f: "fuel = Suc (Suc (Suc f))"
    using fuel by (metis Suc_le_D numeral_3_eq_3 Suc_le_mono)
  have goal: "\<And>c. evaluateGoalCondition h (goalCondition ?w) c = False"
    by (simp add: scenario_workflow_def goal_false evalF)
  have exA: "executeNode h ts (node_A ps) c ?w = Inr (rA, cA)"
    by (simp add: executeNode_def executeToolCall_def node_A_def no_config_def echo runA)
  have exB: "executeNode h ts node_B ?c1 ?w = Inr (JBool True, ?c1)"
    by (simp add: executeNode_def evaluateCondition_def node_B_def no_config_def
        resolveString_plain evalT)
  have findA: "find (\<lambda>n. node_id n = ''A'') (nodes ?w) = Some (node_A ps)"
    by (simp add: scenario_workflow_def node_A_def)
  have findB: "find (\<lambda>n. node_id n = ''B'') (nodes ?w) = Some node_B"
    by (simp add: scenario_workflow_def node_A_def node_B_def)
  have findC: "find (\<lambda>n. node_id n = ''C'') (nodes ?w) = Some C"
    by (simp add: scenario_workflow_def node_A_def node_B_def idC)
  have nextA: "\<And>x. determineNextNode (node_A ps) rA x = Some ''B''"
    by (simp add: determineNextNode_def node_A_def)
  have nextB: "\<And>x. determineNextNode node_B (JBool True) x = Some ''C''"
    by (simp add: determineNextNode_def node_B_def nth_opt_def)
  have nextC': "\<And>x. determineNextNode C rC x = None"
    by (simp add: determineNextNode_def nextC)
  have stepA: "executeWorkflow_loop h ts ?w (Suc (Suc (Suc f))) (Some ''A'') c =
                 executeWorkflow_loop h ts ?w (Suc (Suc f)) (Some ''B'') ?c1"
    by (subst loop_step [OF _ findA exA]) (simp_all add: goal nextA)
  have stepB: "executeWorkflow_loop h ts ?w (Suc (Suc f)) (Some ''B'') ?c1 =
                 executeWorkflow_loop h ts ?w (Suc f) (Some ''C'') ?c2"
    by (subst loop_step [OF _ findB exB]) (simp_all add: goal nextB)
  have stepC: "executeWorkflow_loop h ts ?w (Suc f) (Some ''C'') ?c2 =
                 executeWorkflow_loop h ts ?w f None (visited C rC cC)"
    by (subst loop_step [OF _ findC runC]) (simp_all add: goal nextC')
  have start: "startNode ?w = ''A''"
    by (simp add: scenario_workflow_def)
  show ?thesis
    unfolding executeWorkflow_def f start stepA stepB stepC
    by (simp add: visited_def)
qed

lemma scenario_run_example:
  "executeWorkflow silent_host echo_tools 3 (scenario_workflow [] node_C node_D) ctx_x =
     Some \<lparr> wf_success = True, wf_output = JUndefined, wf_error = None,
            wf_context = ctx_x\<lparr> history :=
              [history_entry (node_A []) (JObj []),
               history_entry node_B (JBool True),
               history_entry node_C (JStr ''hello'')] \<rparr> \<rparr>"
proof -
  have idC: "node_id node_C = ''C''" and nextC: "node_next node_C = NoNext"
    by (simp_all add: node_C_def)
  have evalT: "\<And>c. js_eval silent_host ''true'' c = Inr (JBool True)"
    and evalF: "\<And>c. js_eval silent_host ''false'' c = Inr (JBool False)"
    by (simp_all add: silent_host_def literal_eval_def)
  have echo: "map_of echo_tools ''echo'' = Some echo_tool"
    by (simp add: echo_tools_def)
  have runA: "execute echo_tool (resolveParameters [] ctx_x) ctx_x = Inr (JObj [], ctx_x)"
    by (simp add: echo_tool_def resolveParameters_def)
  have runC: "executeNode silent_host echo_tools node_C
                (visited node_B (JBool True) (visited (node_A []) (JObj []) ctx_x))
                (scenario_workflow [] node_C node_D) =
              Inr (JStr ''hello'', visited node_B (JBool True) (visited (node_A []) (JObj []) ctx_x))"
    by (simp add: executeNode_def executeDataAccess_def node_C_def no_config_def startsWith_def
        visited_def ctx_x_def empty_ctx_def js_prop_def)
  have fuel: "(3::nat) \<le> 3" by simp
  from scenario_run [OF idC nextC evalT evalF echo runA runC fuel]
  show ?thesis
    by (simp add: visited_def ctx_x_def empty_ctx_def js_prop_def)
qed

text \<open>
  C6. In the scenario, with \<open>C\<close> a node that reads the variable \<open>x\<close>, whose value is
  \<^verbatim>\<open>hello\<close>, the run visits \<open>A\<close>, \<open>B\<close> and \<open>C\<close> in this order and stops at \<open>C\<close> with success, but
  what it returns is not the output of \<open>C\<close>: the result of \<open>C\<close> is \<^verbatim>\<open>hello\<close>, the last entry of
  the history, and the output of the run is \<^verbatim>\<open>undefined\<close>, the variable \<^verbatim>\<open>output\<close> of the
  context, which nothing has set. The return that follows the loop lacks the fallback
  to the node's result that the return inside the loop has: the same node \<open>C\<close>, run as
  the start node under the goal condition \<^verbatim>\<open>true\<close>, ends the run through the other return,
  and the output is \<^verbatim>\<open>hello\<close>.
\<close>

theorem scenario_output_is_not_result_of_C:
  "map_option (\<lambda>r. (wf_success r, history (wf_context r)))
     (executeWorkflow silent_host echo_tools 3 (scenario_workflow [] node_C node_D) ctx_x)
     = Some (True, [JObj [(''node'', JStr ''A''), (''result'', JObj [])],
                    JObj [(''node'', JStr ''B''), (''result'', JBool True)],
                    JObj [(''node'', JStr ''C''), (''result'', JStr ''hello'')]])
   \<and> map_option wf_output
       (executeWorkflow silent_host echo_tools 3 (scenario_workflow [] node_C node_D) ctx_x)
       = Some JUndefined
   \<and> map_option (\<lambda>r. (wf_success r, wf_output r, history (wf_context r)))
       (executeWorkflow silent_host echo_tools 3
          ((scenario_workflow [] node_C node_D)\<lparr> startNode := ''C'', goalCondition := ''true'' \<rparr>)
          ctx_x)
       = Some (True, JStr ''hello'', [JObj [(''node'', JStr ''C''), (''result'', JStr ''hello'')]])"
  by (simp add: executeWorkflow_def scenario_workflow_def numeral_3_eq_3 node_A_def node_B_def
      node_C_def node_D_def no_config_def executeNode_def executeToolCall_def
      executeDataAccess_def evaluateCondition_def evaluateGoalCondition_def
      determineNextNode_def nth_opt_def echo_tools_def echo_tool_def resolveParameters_def
      resolveString_plain silent_host_def literal_eval_def ctx_x_def empty_ctx_def js_prop_def
      js_or_def startsWith_def history_entry_def visited_def)

section \<open>Properties of the reasoning loop\<close>

lemma label_match_None: "\<not> str_includes s label \<Longrightarrow> label_match label stops s = None"
  by (induction s) auto

text \<open>
  The loop of an executor without callback, unfolded: these are the two equations of
  \<open>execute_rounds\<close> with nothing reported.
\<close>

lemma execute_loop_0 [simp]:
  "execute_loop h ts 0 messages stps c =
     (\<lparr> success = False,
         result = JStr ''Max iterations reached without completion'',
         steps = stps \<rparr>, c)"
  by (simp add: execute_loop_def)

lemma execute_loop_Suc [simp]:
  "execute_loop h ts (Suc n) messages stps c =
     (case chat h messages of
        Inl err \<Rightarrow> (\<lparr> success = False, result = JStr err, steps = stps \<rparr>, c)
      | Inr content \<Rightarrow>
          (let p = parseReActResponse h content in
           if action p = ''FINISH''
           then (\<lparr> success = True, result = actionInput p,
                    steps = stps @ [parsed.extend p \<lparr> observation = ''Task completed'' \<rparr>] \<rparr>, c)
           else
             (case map_of ts (action p) of
                None \<Rightarrow>
                  execute_loop h ts n
                    (messages @ [(Assistant, content),
                                 (User, follow_up (missing_tool ts (action p)))])
                    (stps @ [parsed.extend p \<lparr> observation = missing_tool ts (action p) \<rparr>])
                    c
              | Some tool \<Rightarrow>
                  (case execute tool (actionInput p) c of
                     Inl err \<Rightarrow> (\<lparr> success = False, result = JStr err, steps = stps \<rparr>, c)
                   | Inr (obs, c') \<Rightarrow>
                       (case json_stringify h obs of
                          Inl err \<Rightarrow> (\<lparr> success = False, result = JStr err, steps = stps \<rparr>, c')
                        | Inr obs_json \<Rightarrow>
                            execute_loop h ts n
                              (messages @ [(Assistant, content), (User, follow_up obs_json)])
                              (stps @ [parsed.extend p \<lparr> observation = obs_json \<rparr>])
                              c')))))"
  by (simp add: execute_loop_def report_step_def Let_def split: sum.splits option.splits)

text \<open>A callback changes nothing in what the loop returns.\<close>

lemma callback_is_observer:
  "fst (execute_rounds h ts cb n messages stps c s) = execute_loop h ts n messages stps c"
  by (induction n arbitrary: messages stps c s)
     (auto simp: Let_def split: sum.splits option.splits)

lemma rounds_le: "length (round_events h ts n messages c) \<le> n"
  by (induction n arbitrary: messages c) (auto split: sum.splits option.splits simp: Let_def)

lemma steps_extend:
  "\<exists>new. steps (fst (execute_loop h ts n messages stps c)) = stps @ new
         \<and> length new \<le> length (round_events h ts n messages c)"
proof (induction n arbitrary: messages stps c)
  case 0
  show ?case by simp
next
  case (Suc n)
  have grow: "\<exists>new. steps (fst (execute_loop h ts n ms (stps @ [x]) c')) = stps @ new
                    \<and> length new \<le> Suc (length (round_events h ts n ms c'))"
    for ms x c'
  proof -
    obtain new where "steps (fst (execute_loop h ts n ms (stps @ [x]) c')) = (stps @ [x]) @ new"
      and "length new \<le> length (round_events h ts n ms c')"
      using Suc.IH by blast
    then show ?thesis by (intro exI [of _ "x # new"]) simp
  qed
  show ?case
    by (auto split: sum.splits option.splits simp: Let_def grow)
qed

lemma success_iff_finished:
  "success (fst (execute_loop h ts n messages stps c))
     = (Finished \<in> set (round_events h ts n messages c))"
  by (induction n arbitrary: messages stps c)
     (auto split: sum.splits option.splits simp: Let_def)

lemma exhausted:
  assumes "Finished \<notin> set (round_events h ts n messages c)"
    and "\<forall>err. Failed err \<notin> set (round_events h ts n messages c)"
  shows "length (round_events h ts n messages c) = n
         \<and> success (fst (execute_loop h ts n messages stps c)) = False
         \<and> result (fst (execute_loop h ts n messages stps c))
             = JStr ''Max iterations reached without completion''
         \<and> length (steps (fst (execute_loop h ts n messages stps c))) = length stps + n"
  using assms
  by (induction n arbitrary: messages stps c)
     (auto split: sum.splits option.splits if_splits simp: Let_def)

lemma failure_ends_loop:
  assumes "Failed err \<in> set (round_events h ts n messages c)"
  shows "last (round_events h ts n messages c) = Failed err
         \<and> success (fst (execute_loop h ts n messages stps c)) = False
         \<and> result (fst (execute_loop h ts n messages stps c)) = JStr err"
  using assms
proof (induction n arbitrary: messages stps c)
  case 0
  then show ?case by simp
next
  case (Suc n)
  have ne: "Failed err \<in> set (round_events h ts n ms d) \<Longrightarrow> round_events h ts n ms d \<noteq> []"
    for ms d
    by auto
  show ?case
  proof (cases "chat h messages")
    case (Inl e)
    with Suc.prems show ?thesis by simp
  next
    case (Inr content)
    note ch = this
    let ?p = "parseReActResponse h content"
    show ?thesis
    proof (cases "action ?p = ''FINISH''")
      case True
      with ch Suc.prems show ?thesis by (simp add: Let_def)
    next
      case False
      note nf = this
      show ?thesis
      proof (cases "map_of ts (action ?p)")
        case None
        let ?ms = "messages @ [(Assistant, content), (User, follow_up (missing_tool ts (action ?p)))]"
        from ch nf None Suc.prems have f: "Failed err \<in> set (round_events h ts n ?ms c)"
          by (simp add: Let_def)
        from Suc.IH [OF f] ne [OF f] ch nf None show ?thesis
          by (simp add: Let_def)
      next
        case (Some tool)
        note tl = this
        show ?thesis
        proof (cases "execute tool (actionInput ?p) c")
          case (Inl e)
          with ch nf tl Suc.prems show ?thesis by (simp add: Let_def)
        next
          case (Inr r)
          obtain obs d where r: "r = (obs, d)" by (cases r)
          show ?thesis
          proof (cases "json_stringify h obs")
            case (Inl e)
            with ch nf tl Inr r Suc.prems show ?thesis by (simp add: Let_def)
          next
            case (Inr obs_json)
            note js = this
            let ?ms = "messages @ [(Assistant, content), (User, follow_up obs_json)]"
            from ch nf tl \<open>execute tool (actionInput ?p) c = Inr r\<close> r js Suc.prems
            have f: "Failed err \<in> set (round_events h ts n ?ms d)"
              by (simp add: Let_def)
            from Suc.IH [OF f] ne [OF f] ch nf tl \<open>execute tool (actionInput ?p) c = Inr r\<close> r js
            show ?thesis
              by (simp add: Let_def)
          qed
        qed
      qed
    qed
  qed
qed

lemma react_execute_raises:
  "initial_messages h ts task c sp = Inl err \<Longrightarrow> react_execute h ts cb task c sp s = Inl err"
  by (simp add: react_execute_def)

lemma react_execute_returns:
  assumes "initial_messages h ts task c sp = Inr ms"
  shows "\<exists>r. react_execute h ts cb task c sp s = Inr r
             \<and> fst r = execute_loop h ts maxIterations ms [] c"
  using assms by (simp add: react_execute_def callback_is_observer)

text \<open>
  C7, as the code has it. \<open>execute\<close> raises when building the first prompt fails, before
  any round; otherwise it returns what the loop returns. Whatever the model and the
  tools do, a run of the loop has at most the allowed number of rounds (ten for
  \<open>execute\<close>), its steps extend the ones it started with by at most one per round, and it
  succeeds exactly when a round ended with \<^verbatim>\<open>FINISH\<close>. When in this run no round ended
  with \<^verbatim>\<open>FINISH\<close> and none failed, the run has exactly the allowed number of rounds, adds
  one step per round and returns \<^verbatim>\<open>success: false\<close> with the message that the iterations
  are used up. A round that fails is the last one: the loop returns \<^verbatim>\<open>success: false\<close>
  with the message of the error; and a round fails when the call of the model fails,
  when the tool throws, or when \<^verbatim>\<open>JSON.stringify\<close> throws on the tool's result, each time
  with the steps accumulated before that round.
\<close>

theorem react_loop_bounded:
  "(initial_messages h ts task c sp = Inl err0 \<longrightarrow> react_execute h ts cb task c sp s = Inl err0)
   \<and> (initial_messages h ts task c sp = Inr ms \<longrightarrow>
        (\<exists>r. react_execute h ts cb task c sp s = Inr r
              \<and> fst r = execute_loop h ts maxIterations ms [] c)
        \<and> length (round_events h ts maxIterations ms c) \<le> 10)
   \<and> length (round_events h ts n messages c) \<le> n
   \<and> (\<exists>new. steps (fst (execute_loop h ts n messages stps c)) = stps @ new
             \<and> length new \<le> length (round_events h ts n messages c))
   \<and> success (fst (execute_loop h ts n messages stps c))
       = (Finished \<in> set (round_events h ts n messages c))
   \<and> (Finished \<notin> set (round_events h ts n messages c)
        \<and> (\<forall>err. Failed err \<notin> set (round_events h ts n messages c)) \<longrightarrow>
        length (round_events h ts n messages c) = n
        \<and> success (fst (execute_loop h ts n messages stps c)) = False
        \<and> result (fst (execute_loop h ts n messages stps c))
            = JStr ''Max iterations reached without completion''
        \<and> length (steps (fst (execute_loop h ts n messages stps c))) = length stps + n)
   \<and> (Failed err \<in> set (round_events h ts n messages c) \<longrightarrow>
        last (round_events h ts n messages c) = Failed err
        \<and> success (fst (execute_loop h ts n messages stps c)) = False
        \<and> result (fst (execute_loop h ts n messages stps c)) = JStr err)
   \<and> (chat h messages = Inl err \<longrightarrow>
        round_events h ts (Suc n) messages c = [Failed err]
        \<and> execute_loop h ts (Suc n) messages stps c
            = (\<lparr> success = False, result = JStr err, steps = stps \<rparr>, c))
   \<and> (chat h messages = Inr content
        \<and> action (parseReActResponse h content) \<noteq> ''FINISH''
        \<and> map_of ts (action (parseReActResponse h content)) = Some tool
        \<and> execute tool (actionInput (parseReActResponse h content)) c = Inl err \<longrightarrow>
        round_events h ts (Suc n) messages c = [Failed err]
        \<and> execute_loop h ts (Suc n) messages stps c
            = (\<lparr> success = False, result = JStr err, steps = stps \<rparr>, c))
   \<and> (chat h messages = Inr content
        \<and> action (parseReActResponse h content) \<noteq> ''FINISH''
        \<and> map_of ts (action (parseReActResponse h content)) = Some tool
        \<and> execute tool (actionInput (parseReActResponse h content)) c = Inr (obs, c')
        \<and> json_stringify h obs = Inl err \<longrightarrow>
        round_events h ts (Suc n) messages c = [Failed err]
        \<and> execute_loop h ts (Suc n) messages stps c
            = (\<lparr> success = False, result = JStr err, steps = stps \<rparr>, c'))"
proof -
  have raises: "initial_messages h ts task c sp = Inl err0 \<longrightarrow>
                  react_execute h ts cb task c sp s = Inl err0"
    by (simp add: react_execute_raises)
  have returns: "initial_messages h ts task c sp = Inr ms \<longrightarrow>
        (\<exists>r. react_execute h ts cb task c sp s = Inr r
              \<and> fst r = execute_loop h ts maxIterations ms [] c)
        \<and> length (round_events h ts maxIterations ms c) \<le> 10"
    using rounds_le [of h ts maxIterations ms c] react_execute_returns [of h ts task c sp ms cb s]
    by (simp add: maxIterations_def)
  have exh: "Finished \<notin> set (round_events h ts n messages c)
        \<and> (\<forall>err. Failed err \<notin> set (round_events h ts n messages c)) \<longrightarrow>
        length (round_events h ts n messages c) = n
        \<and> success (fst (execute_loop h ts n messages stps c)) = False
        \<and> result (fst (execute_loop h ts n messages stps c))
            = JStr ''Max iterations reached without completion''
        \<and> length (steps (fst (execute_loop h ts n messages stps c))) = length stps + n"
    using exhausted [of h ts n messages c stps] by blast
  have fails: "Failed err \<in> set (round_events h ts n messages c) \<longrightarrow>
        last (round_events h ts n messages c) = Failed err
        \<and> success (fst (execute_loop h ts n messages stps c)) = False
        \<and> result (fst (execute_loop h ts n messages stps c)) = JStr err"
    using failure_ends_loop [of err h ts n messages c stps] by blast
  have model: "chat h messages = Inl err \<longrightarrow>
        round_events h ts (Suc n) messages c = [Failed err]
        \<and> execute_loop h ts (Suc n) messages stps c
            = (\<lparr> success = False, result = JStr err, steps = stps \<rparr>, c)"
    by simp
  have tool: "chat h messages = Inr content
        \<and> action (parseReActResponse h content) \<noteq> ''FINISH''
        \<and> map_of ts (action (parseReActResponse h content)) = Some tool
        \<and> execute tool (actionInput (parseReActResponse h content)) c = Inl err \<longrightarrow>
        round_events h ts (Suc n) messages c = [Failed err]
        \<and> execute_loop h ts (Suc n) messages stps c
            = (\<lparr> success = False, result = JStr err, steps = stps \<rparr>, c)"
    by (simp add: Let_def)
  have stringify: "chat h messages = Inr content
        \<and> action (parseReActResponse h content) \<noteq> ''FINISH''
        \<and> map_of ts (action (parseReActResponse h content)) = Some tool
        \<and> execute tool (actionInput (parseReActResponse h content)) c = Inr (obs, c')
        \<and> json_stringify h obs = Inl err \<longrightarrow>
        round_events h ts (Suc n) messages c = [Failed err]
        \<and> execute_loop h ts (Suc n) messages stps c
            = (\<lparr> success = False, result = JStr err, steps = stps \<rparr>, c')"
    by (simp add: Let_def)
  show ?thesis
    by (intro conjI raises returns rounds_le steps_extend success_iff_finished exh fails model
        tool stringify)
qed

lemma parse_action_only:
  "parseReActResponse (silent_host\<lparr> chat := f \<rparr>) ''Action: fly''
     = \<lparr> thought = [], action = ''fly'', actionInput = JObj [] \<rparr>"
  "parseReActResponse (silent_host\<lparr> chat := f \<rparr>) ''Action: echo''
     = \<lparr> thought = [], action = ''echo'', actionInput = JObj [] \<rparr>"
  "parseReActResponse (silent_host\<lparr> chat := f, json_stringify := g \<rparr>) ''Action: echo''
     = \<lparr> thought = [], action = ''echo'', actionInput = JObj [] \<rparr>"
  by (simp_all add: parseReActResponse_def startsWith_def group_after_def is_space_def trim_def
      nl_def)

lemma stubborn_rounds:
  "round_events stubborn_host echo_tools 3 [] empty_ctx = [Continued, Continued, Continued]"
  by (simp add: numeral_3_eq_3 stubborn_host_def parse_action_only echo_tools_def)

theorem react_loop_bounded_witness:
  "react_execute cyclic_context_host echo_tools (None :: unit progressCallback option)
       ''task'' empty_ctx None ()
     = Inl ''Converting circular structure to JSON''
   \<and> (case react_execute silent_host echo_tools (None :: unit progressCallback option)
              ''task'' empty_ctx None () of
         Inl e \<Rightarrow> False
       | Inr r \<Rightarrow> success (fst (fst r)) \<and> length (steps (fst (fst r))) = 1)
   \<and> length (round_events stubborn_host echo_tools 3 [] empty_ctx) = 3
   \<and> fst (execute_loop stubborn_host echo_tools 3 [] [] empty_ctx)
       = \<lparr> success = False, result = JStr ''Max iterations reached without completion'',
           steps = steps (fst (execute_loop stubborn_host echo_tools 3 [] [] empty_ctx)) \<rparr>
   \<and> length (steps (fst (execute_loop stubborn_host echo_tools 3 [] [] empty_ctx))) = 3
   \<and> last (round_events failing_host echo_tools 10 [] empty_ctx) = Failed ''model unavailable''
   \<and> execute_loop failing_host echo_tools (Suc 9) [] [] empty_ctx
       = (\<lparr> success = False, result = JStr ''model unavailable'', steps = [] \<rparr>, empty_ctx)
   \<and> execute_loop echo_host broken_tools (Suc 9) [] [] empty_ctx
       = (\<lparr> success = False, result = JStr ''disk full'', steps = [] \<rparr>, empty_ctx)
   \<and> execute_loop cyclic_host echo_tools (Suc 9) [] [] empty_ctx
       = (\<lparr> success = False, result = JStr ''Converting circular structure to JSON'',
             steps = [] \<rparr>, empty_ctx)"
proof -
  let ?none = "None :: unit progressCallback option"
  have "initial_messages cyclic_context_host echo_tools ''task'' empty_ctx None
          = Inl ''Converting circular structure to JSON''"
    by (simp add: initial_messages_def getToolsDescription_def buildReActPrompt_def
        cyclic_context_host_def silent_host_def echo_tools_def echo_tool_def)
  with react_loop_bounded [where h = cyclic_context_host and ts = echo_tools and task = "''task''"
      and c = empty_ctx and sp = None and cb = ?none and s = "()", THEN conjunct1]
  have one: "react_execute cyclic_context_host echo_tools ?none ''task'' empty_ctx None ()
               = Inl ''Converting circular structure to JSON''"
    by blast
  obtain ms where ms: "initial_messages silent_host echo_tools ''task'' empty_ctx None = Inr ms"
    by (simp add: initial_messages_def getToolsDescription_def buildReActPrompt_def
        silent_host_def echo_tools_def echo_tool_def)
  with react_loop_bounded [where h = silent_host and ts = echo_tools and task = "''task''"
      and c = empty_ctx and sp = None and cb = ?none and s = "()" and ms = ms, THEN conjunct2, THEN conjunct1]
  obtain r where r: "react_execute silent_host echo_tools ?none ''task'' empty_ctx None () = Inr r"
    and fr: "fst r = execute_loop silent_host echo_tools maxIterations ms [] empty_ctx"
    by blast
  have "success (fst (execute_loop silent_host echo_tools maxIterations ms [] empty_ctx))
        \<and> length (steps (fst (execute_loop silent_host echo_tools maxIterations ms [] empty_ctx))) = 1"
    by (simp add: maxIterations_def eval_nat_numeral silent_host_def parseReActResponse_def)
  with r fr have two:
    "(case react_execute silent_host echo_tools ?none ''task'' empty_ctx None () of
        Inl e \<Rightarrow> False
      | Inr r \<Rightarrow> success (fst (fst r)) \<and> length (steps (fst (fst r))) = 1)"
    by simp
  have "Finished \<notin> set (round_events stubborn_host echo_tools 3 [] empty_ctx)"
    "\<forall>err. Failed err \<notin> set (round_events stubborn_host echo_tools 3 [] empty_ctx)"
    by (simp_all add: stubborn_rounds)
  with react_loop_bounded [where h = stubborn_host and ts = echo_tools and n = 3
      and messages = "[]" and c = empty_ctx and stps = "[]", THEN conjunct2, THEN conjunct2, THEN conjunct2, THEN conjunct2, THEN conjunct2, THEN conjunct1]
  have three0: "length (round_events stubborn_host echo_tools 3 [] empty_ctx) = 3
     \<and> success (fst (execute_loop stubborn_host echo_tools 3 [] [] empty_ctx)) = False
     \<and> result (fst (execute_loop stubborn_host echo_tools 3 [] [] empty_ctx))
         = JStr ''Max iterations reached without completion''
     \<and> length (steps (fst (execute_loop stubborn_host echo_tools 3 [] [] empty_ctx)))
         = length ([] :: ReActStep list) + 3"
    by blast
  then have three: "length (round_events stubborn_host echo_tools 3 [] empty_ctx) = 3
     \<and> success (fst (execute_loop stubborn_host echo_tools 3 [] [] empty_ctx)) = False
     \<and> result (fst (execute_loop stubborn_host echo_tools 3 [] [] empty_ctx))
         = JStr ''Max iterations reached without completion''
     \<and> length (steps (fst (execute_loop stubborn_host echo_tools 3 [] [] empty_ctx))) = 3"
    by simp
  have chf: "chat failing_host [] = Inl ''model unavailable''"
    by (simp add: failing_host_def)
  have "Failed ''model unavailable'' \<in> set (round_events failing_host echo_tools 10 [] empty_ctx)"
    by (simp add: eval_nat_numeral chf)
  with react_loop_bounded [where h = failing_host and ts = echo_tools and n = 10
      and messages = "[]" and c = empty_ctx and err = "''model unavailable''", THEN conjunct2, THEN conjunct2, THEN conjunct2, THEN conjunct2, THEN conjunct2, THEN conjunct2, THEN conjunct1]
  have four: "last (round_events failing_host echo_tools 10 [] empty_ctx) = Failed ''model unavailable''"
    by blast
  from chf react_loop_bounded [where h = failing_host and ts = echo_tools and n = 9
      and messages = "[]" and c = empty_ctx and stps = "[]" and err = "''model unavailable''",
      THEN conjunct2, THEN conjunct2, THEN conjunct2, THEN conjunct2, THEN conjunct2, THEN conjunct2, THEN conjunct2, THEN conjunct1]
  have five: "execute_loop failing_host echo_tools (Suc 9) [] [] empty_ctx
       = (\<lparr> success = False, result = JStr ''model unavailable'', steps = [] \<rparr>, empty_ctx)"
    by blast
  let ?broken = "echo_tool\<lparr> execute := (\<lambda>params c. Inl ''disk full'') \<rparr>"
  have "chat echo_host [] = Inr ''Action: echo''"
    "action (parseReActResponse echo_host ''Action: echo'') \<noteq> ''FINISH''"
    "map_of broken_tools (action (parseReActResponse echo_host ''Action: echo'')) = Some ?broken"
    "execute ?broken (actionInput (parseReActResponse echo_host ''Action: echo'')) empty_ctx
       = Inl ''disk full''"
    by (simp_all add: echo_host_def parse_action_only broken_tools_def)
  with react_loop_bounded [where h = echo_host and ts = broken_tools and n = 9
      and messages = "[]" and c = empty_ctx and stps = "[]" and err = "''disk full''"
      and content = "''Action: echo''" and tool = ?broken,
      THEN conjunct2, THEN conjunct2, THEN conjunct2, THEN conjunct2, THEN conjunct2, THEN conjunct2, THEN conjunct2, THEN conjunct2, THEN conjunct1]
  have six: "execute_loop echo_host broken_tools (Suc 9) [] [] empty_ctx
       = (\<lparr> success = False, result = JStr ''disk full'', steps = [] \<rparr>, empty_ctx)"
    by blast
  have "chat cyclic_host [] = Inr ''Action: echo''"
    "action (parseReActResponse cyclic_host ''Action: echo'') \<noteq> ''FINISH''"
    "map_of echo_tools (action (parseReActResponse cyclic_host ''Action: echo'')) = Some echo_tool"
    "execute echo_tool (actionInput (parseReActResponse cyclic_host ''Action: echo'')) empty_ctx
       = Inr (JObj [], empty_ctx)"
    "json_stringify cyclic_host (JObj []) = Inl ''Converting circular structure to JSON''"
    by (simp_all add: cyclic_host_def echo_host_def parse_action_only echo_tools_def echo_tool_def)
  with react_loop_bounded [where h = cyclic_host and ts = echo_tools and n = 9
      and messages = "[]" and c = empty_ctx and stps = "[]"
      and err = "''Converting circular structure to JSON''"
      and content = "''Action: echo''" and tool = echo_tool and obs = "JObj []" and c' = empty_ctx,
      THEN conjunct2, THEN conjunct2, THEN conjunct2, THEN conjunct2, THEN conjunct2, THEN conjunct2, THEN conjunct2, THEN conjunct2, THEN conjunct2]
  have seven: "execute_loop cyclic_host echo_tools (Suc 9) [] [] empty_ctx
       = (\<lparr> success = False, result = JStr ''Converting circular structure to JSON'',
             steps = [] \<rparr>, empty_ctx)"
    by blast
  from three have three': "fst (execute_loop stubborn_host echo_tools 3 [] [] empty_ctx)
       = \<lparr> success = False, result = JStr ''Max iterations reached without completion'',
           steps = steps (fst (execute_loop stubborn_host echo_tools 3 [] [] empty_ctx)) \<rparr>"
    by (cases "fst (execute_loop stubborn_host echo_tools 3 [] [] empty_ctx)") simp
  from one two three three' four five six seven show ?thesis
    by simp
qed

text \<open>
  The claim as stated lets the loop end only after ten rounds when no round produces
  \<^verbatim>\<open>FINISH\<close>. With a model whose first call fails, \<open>execute\<close> returns after one round: no
  round has produced \<^verbatim>\<open>FINISH\<close>, and the only round failed.
\<close>

theorem react_one_round_counterexample:
  "maxIterations = 10
   \<and> (case initial_messages failing_host echo_tools ''task'' empty_ctx None of
         Inl e \<Rightarrow> []
       | Inr ms \<Rightarrow> round_events failing_host echo_tools maxIterations ms empty_ctx)
       = [Failed ''model unavailable'']
   \<and> (case react_execute failing_host echo_tools (None :: unit progressCallback option)
              ''task'' empty_ctx None () of
         Inl e \<Rightarrow> None
       | Inr r \<Rightarrow> Some (fst (fst r)))
       = Some \<lparr> success = False, result = JStr ''model unavailable'', steps = [] \<rparr>"
  by (simp add: react_execute_def initial_messages_def getToolsDescription_def
      buildReActPrompt_def maxIterations_def eval_nat_numeral failing_host_def silent_host_def
      echo_tools_def echo_tool_def)

text \<open>
  C8. A reply in which \<^verbatim>\<open>Action:\<close> does not occur parses to the action \<^verbatim>\<open>FINISH\<close>, and a round
  with such a reply ends the loop with success. When the parsed action is not
  \<^verbatim>\<open>FINISH\<close> and no tool has that name, the round appends a step whose observation names
  the missing tool and lists the tools there are, puts the reply and the observation
  into the conversation, and the loop goes on with one round less.
\<close>

theorem react_missing_action_and_tool:
  "(\<not> str_includes response ''Action:'' \<longrightarrow>
      action (parseReActResponse h response) = ''FINISH''
      \<and> (chat h messages = Inr response \<longrightarrow>
           execute_loop h ts (Suc n) messages stps c =
             (\<lparr> success = True, result = actionInput (parseReActResponse h response),
                 steps = stps @ [parsed.extend (parseReActResponse h response)
                                   \<lparr> observation = ''Task completed'' \<rparr>] \<rparr>, c)))
   \<and> (chat h messages = Inr content
      \<and> action (parseReActResponse h content) \<noteq> ''FINISH''
      \<and> map_of ts (action (parseReActResponse h content)) = None \<longrightarrow>
        execute_loop h ts (Suc n) messages stps c =
          execute_loop h ts n
            (messages @ [(Assistant, content),
                         (User, follow_up (missing_tool ts (action (parseReActResponse h content))))])
            (stps @ [parsed.extend (parseReActResponse h content)
                       \<lparr> observation = missing_tool ts (action (parseReActResponse h content)) \<rparr>])
            c
        \<and> missing_tool ts (action (parseReActResponse h content)) =
            ''Error: Tool '' @ dq @ action (parseReActResponse h content) @ dq
            @ '' not found. Available tools: '' @ join '', '' (map fst ts))"
  by (simp add: Let_def parseReActResponse_def label_match_None missing_tool_def)

theorem react_missing_action_and_tool_witness:
  "action (parseReActResponse silent_host ''I am done'') = ''FINISH''
   \<and> success (fst (execute_loop silent_host echo_tools 1 [] [] empty_ctx)) = True
   \<and> execute_loop stubborn_host echo_tools 1 [] [] empty_ctx =
       (\<lparr> success = False, result = JStr ''Max iterations reached without completion'',
           steps = [\<lparr> thought = [], action = ''fly'', actionInput = JObj [],
                      observation = ''Error: Tool '' @ dq @ ''fly'' @ dq
                                    @ '' not found. Available tools: echo'' \<rparr>] \<rparr>, empty_ctx)"
proof -
  have no1: "\<not> str_includes ''I am done'' ''Action:''" and no2: "\<not> str_includes [] ''Action:''"
    by (simp_all add: startsWith_def)
  have ch1: "chat silent_host [] = Inr []"
    by (simp add: silent_host_def)
  have ch2: "chat stubborn_host [] = Inr ''Action: fly''"
    by (simp add: stubborn_host_def)
  have p: "parseReActResponse stubborn_host ''Action: fly''
             = \<lparr> thought = [], action = ''fly'', actionInput = JObj [] \<rparr>"
    by (simp add: parseReActResponse_def startsWith_def group_after_def is_space_def trim_def nl_def)
  have miss: "action (parseReActResponse stubborn_host ''Action: fly'') \<noteq> ''FINISH''"
    "map_of echo_tools (action (parseReActResponse stubborn_host ''Action: fly'')) = None"
    by (simp_all add: p echo_tools_def)
  from react_missing_action_and_tool [of "''I am done''" silent_host]
    react_missing_action_and_tool [of "[]" silent_host "[]" echo_tools 0 "[]" empty_ctx]
    react_missing_action_and_tool [of _ stubborn_host "[]" echo_tools 0 "[]" empty_ctx "''Action: fly''"]
    no1 no2 ch1 ch2 miss
  show ?thesis
    by (simp add: p parsed.extend_def missing_tool_def echo_tools_def)
qed

section \<open>Properties of the message bus\<close>

lemma deliver_queued:
  assumes "connection_of s a = None" and "map_of (messageQueue s) a = Some q"
  shows "deliverMessage a m s = s\<lparr> messageQueue := AList.update a (q @ [m]) (messageQueue s) \<rparr>"
  using assms by (simp add: deliverMessage_def)

lemma deliver_sent:
  assumes "connection_of s a = Some (cid, ws)"
  shows "deliverMessage a m s = s\<lparr> clients := AList.update cid (ws_send m ws) (clients s) \<rparr>"
  using assms by (simp add: deliverMessage_def)

lemma publish_all_Cons: "publish_all (m # ms) s = publish_all ms (sendMessage m s)"
  by (simp add: publish_all_def)

lemma publish_all_queued:
  assumes "connection_of s a = None" and "a \<noteq> ''all''"
    and "map_of (messageQueue s) a = Some q"
    and "\<forall>m \<in> set ms. msg_to m = a"
  shows "map_of (messageQueue (publish_all ms s)) a = Some (q @ ms)
         \<and> clients (publish_all ms s) = clients s
         \<and> agentClients (publish_all ms s) = agentClients s"
  using assms
proof (induction ms arbitrary: s q)
  case Nil
  then show ?case by (simp add: publish_all_def)
next
  case (Cons m ms)
  let ?s = "sendMessage m s"
  have to: "msg_to m = a" using Cons.prems(4) by simp
  have q': "map_of (messageQueue ?s) a = Some (q @ [m])"
    and cl: "clients ?s = clients s" and ac: "agentClients ?s = agentClients s"
    using Cons.prems(1-3) to
    by (simp_all add: sendMessage_def routeMessage_def deliver_queued update_conv')
  have conn: "connection_of ?s a = None"
    using Cons.prems(1) unfolding connection_of_def cl ac .
  have rest: "\<forall>m \<in> set ms. msg_to m = a" using Cons.prems(4) by simp
  from Cons.IH [OF conn Cons.prems(2) q' rest] show ?case
    by (simp add: publish_all_Cons cl ac)
qed

lemma ws_send_all: "foldl (\<lambda>w m. ws_send m w) ws ms = ws\<lparr> sent := sent ws @ ms \<rparr>"
  by (induction ms arbitrary: ws) (simp_all add: ws_send_def)

text \<open>
  With the agent bound to a connected socket the loop over the queue ends: from index
  \<open>i\<close> on, every queued message is written to that socket, in order, and nothing else
  changes.
\<close>

lemma sendQueued_connected:
  assumes "connection_of s a = Some (cid, ws)"
    and "map_of (messageQueue s) a = Some q"
    and "i \<le> length q"
  shows "sendQueued_from a i s =
           Some (s\<lparr> clients :=
                      AList.update cid (foldl (\<lambda>w m. ws_send m w) ws (drop i q)) (clients s) \<rparr>)"
  using assms
proof (induction "length q - i" arbitrary: i s ws)
  case 0
  then have "i = length q" by simp
  moreover have "AList.update cid ws (clients s) = clients s"
    using "0.prems"(1)
    by (intro update_triv) (auto simp: connection_of_def split: option.splits if_splits)
  ultimately show ?case
    using "0.prems"(2) by (subst sendQueued_from.simps) simp
next
  case (Suc k)
  then have lt: "i < length q" by simp
  let ?w = "ws_send (q ! i) ws"
  let ?s = "s\<lparr> clients := AList.update cid ?w (clients s) \<rparr>"
  have del: "deliverMessage a (q ! i) s = ?s"
    using Suc.prems(1) by (rule deliver_sent)
  have conn: "connection_of ?s a = Some (cid, ?w)"
    using Suc.prems(1)
    by (auto simp: connection_of_def update_conv' split: option.splits if_splits)
  have qs: "map_of (messageQueue ?s) a = Some q"
    using Suc.prems(2) by simp
  have k: "k = length q - Suc i" using Suc.hyps(2) by simp
  have "sendQueued_from a i s = sendQueued_from a (Suc i) ?s"
    using Suc.prems(2) lt del by (subst sendQueued_from.simps) simp
  also have "\<dots> = Some (?s\<lparr> clients :=
                 AList.update cid (foldl (\<lambda>w m. ws_send m w) ?w (drop (Suc i) q)) (clients ?s) \<rparr>)"
    using Suc.hyps(1) [OF k conn qs] lt by simp
  also have "foldl (\<lambda>w m. ws_send m w) ?w (drop (Suc i) q) = foldl (\<lambda>w m. ws_send m w) ws (drop i q)"
    using lt by (simp flip: Cons_nth_drop_Suc)
  finally show ?case by simp
qed

lemma register_connected:
  assumes "a \<noteq> []" and "cid \<noteq> []" and "map_of (clients s) cid = Some ws"
    and "map_of (messageQueue s) a = Some q"
  shows "handleMessage cid (Register a) s =
           Some (s\<lparr> agentClients := AList.update a cid (agentClients s),
                    clients := AList.update cid (ws\<lparr> sent := sent ws @ q \<rparr>) (clients s),
                    messageQueue := AList.update a [] (messageQueue s) \<rparr>)"
proof -
  let ?s = "s\<lparr> agentClients := AList.update a cid (agentClients s) \<rparr>"
  have conn: "connection_of ?s a = Some (cid, ws)"
    using assms(2,3) by (simp add: connection_of_def update_conv')
  have qs: "map_of (messageQueue ?s) a = Some q"
    using assms(4) by simp
  show ?thesis
  proof (cases "q = []")
    case True
    have "AList.update cid ws (clients s) = clients s"
      using assms(3) by (rule update_triv)
    moreover have "AList.update a [] (messageQueue s) = messageQueue s"
      using assms(4) True by (intro update_triv) simp
    ultimately show ?thesis
      using assms(1) qs True by (simp add: handleMessage_def sendQueuedMessages_def)
  next
    case False
    then show ?thesis
      using assms(1) qs sendQueued_connected [OF conn qs, of 0]
      by (simp add: handleMessage_def sendQueuedMessages_def ws_send_all)
  qed
qed

text \<open>
  C1. Let the agent type \<open>a\<close> be one with a queue (\<open>q\<close> is what the queue holds already; it
  is empty after the constructor) and let \<open>a\<close> not be connected. Messages \<open>ms\<close> published to
  \<open>a\<close> are appended to its queue in the order of publication, and no socket receives
  anything. When a connected client then registers as \<open>a\<close>, the call returns, that
  client's socket has been sent the queue, \<open>q\<close> followed by \<open>ms\<close>, once and in order, the
  other sockets have received nothing, and the queue of \<open>a\<close> is empty, so that a second
  registration delivers nothing more.
\<close>

theorem buffered_then_delivered_on_register:
  assumes disc: "\<not> connected s a"
    and a: "a \<noteq> []" "a \<noteq> ''all''"
    and q: "map_of (messageQueue s) a = Some q"
    and to: "\<forall>m \<in> set ms. msg_to m = a"
    and cid: "cid \<noteq> []" "map_of (clients s) cid = Some ws"
  shows "map_of (messageQueue (publish_all ms s)) a = Some (q @ ms)
         \<and> clients (publish_all ms s) = clients s
         \<and> (\<exists>s'. handleMessage cid (Register a) (publish_all ms s) = Some s'
                \<and> map_of (clients s') cid = Some (ws\<lparr> sent := sent ws @ q @ ms \<rparr>)
                \<and> (\<forall>other. other \<noteq> cid \<longrightarrow> map_of (clients s') other = map_of (clients s) other)
                \<and> map_of (messageQueue s') a = Some []
                \<and> map_option clients (handleMessage cid (Register a) s') = Some (clients s'))"
proof -
  let ?p = "publish_all ms s"
  have none: "connection_of s a = None"
    using disc unfolding connected_def by blast
  have pub: "map_of (messageQueue ?p) a = Some (q @ ms)" "clients ?p = clients s"
    using publish_all_queued [OF none a(2) q to] by simp_all
  have ws: "map_of (clients ?p) cid = Some ws"
    using cid(2) pub(2) by simp
  let ?s' = "?p\<lparr> agentClients := AList.update a cid (agentClients ?p),
                 clients := AList.update cid (ws\<lparr> sent := sent ws @ q @ ms \<rparr>) (clients ?p),
                 messageQueue := AList.update a [] (messageQueue ?p) \<rparr>"
  have reg: "handleMessage cid (Register a) ?p = Some ?s'"
    using register_connected [OF a(1) cid(1) ws pub(1)] by simp
  have ws': "map_of (clients ?s') cid = Some (ws\<lparr> sent := sent ws @ q @ ms \<rparr>)"
    by (simp add: update_conv')
  have q': "map_of (messageQueue ?s') a = Some []"
    by (simp add: update_conv')
  have again: "map_option clients (handleMessage cid (Register a) ?s') = Some (clients ?s')"
    using register_connected [OF a(1) cid(1) ws' q'] by simp
  have others: "\<forall>other. other \<noteq> cid \<longrightarrow> map_of (clients ?s') other = map_of (clients s) other"
    by (simp add: update_conv' pub(2))
  from pub reg ws' q' again others show ?thesis
    by blast
qed

theorem buffered_then_delivered_on_register_witness:
  "map_of (messageQueue (publish_all [user_says ''planner'' ''one'' 1, user_says ''planner'' ''two'' 2] bus1))
      ''planner''
     = Some [user_says ''planner'' ''one'' 1, user_says ''planner'' ''two'' 2]
   \<and> map_option (\<lambda>s'. (map_of (clients s') ''c1'', map_of (messageQueue s') ''planner''))
       (handleMessage ''c1'' (Register ''planner'')
          (publish_all [user_says ''planner'' ''one'' 1, user_says ''planner'' ''two'' 2] bus1))
     = Some (Some \<lparr> ready = True,
                     sent = [user_says ''planner'' ''one'' 1, user_says ''planner'' ''two'' 2] \<rparr>,
             Some [])"
proof -
  let ?ms = "[user_says ''planner'' ''one'' 1, user_says ''planner'' ''two'' 2]"
  have disc: "\<not> connected bus1 ''planner''"
    by (simp add: connected_def connection_of_def bus1_def on_connection_def new_A2AServer_def)
  have a: "''planner'' \<noteq> []" "''planner'' \<noteq> ''all''"
    by simp_all
  have q: "map_of (messageQueue bus1) ''planner'' = Some []"
    by (simp add: bus1_def on_connection_def new_A2AServer_def)
  have to: "\<forall>m \<in> set ?ms. msg_to m = ''planner''"
    by (simp add: user_says_def)
  have cid: "''c1'' \<noteq> []" "map_of (clients bus1) ''c1'' = Some \<lparr> ready = True, sent = [] \<rparr>"
    by (simp_all add: bus1_def on_connection_def new_A2AServer_def)
  from buffered_then_delivered_on_register [OF disc a q to cid]
  obtain s' where "map_of (messageQueue (publish_all ?ms bus1)) ''planner'' = Some ?ms"
    and "handleMessage ''c1'' (Register ''planner'') (publish_all ?ms bus1) = Some s'"
    and "map_of (clients s') ''c1'' = Some \<lparr> ready = True, sent = ?ms \<rparr>"
    and "map_of (messageQueue s') ''planner'' = Some []"
    by auto
  then show ?thesis by simp
qed

section \<open>Properties of the agent runtime\<close>

text \<open>
  C3. \<open>stop\<close> sets the status to idle and the goal flag. The loop of \<open>run\<close>, when it next
  tests its condition, ends; but the code after the loop then sets the status to
  completed and sends \<^verbatim>\<open>agent_complete\<close>, since it only looks at the goal flag. The last
  conjunct is a whole call of \<open>start\<close> in interactive mode: the agent asks for input,
  and a \<open>stop\<close> during the wait makes the call return with the agent completed and the
  completion message sent.
\<close>

theorem stop_then_completion_sent:
  "status (stop a) = IDLE \<and> goalAchieved (stop a)
   \<and> run_loop env sched (stop a) = Returned (run_epilogue (stop a))
   \<and> status (run_epilogue (stop a)) = COMPLETED
   \<and> map msg_type (outbox (run_epilogue (stop (connectToA2A a))))
       = map msg_type (outbox a) @ [AGENT_COMPLETE]
   \<and> (case start env0 [[Stop]] [] (Some Interactive) (agent0 ''planner'') of
         Returned a' \<Rightarrow> (status a', map msg_type (outbox a'))
       | Threw err a' \<Rightarrow> (status a', [])
       | Pending a' \<Rightarrow> (status a', []))
       = (COMPLETED, [AGENT_START, AGENT_PROGRESS, AGENT_COMPLETE])"
proof -
  have loop: "run_loop env sched (stop a) = Returned (run_epilogue (stop a))"
    by (subst run_loop.simps) (simp add: stop_def)
  have run: "(case start env0 [[Stop]] [] (Some Interactive) (agent0 ''planner'') of
                Returned a' \<Rightarrow> (status a', map msg_type (outbox a'))
              | Threw err a' \<Rightarrow> (status a', [])
              | Pending a' \<Rightarrow> (status a', []))
             = (COMPLETED, [AGENT_START, AGENT_PROGRESS, AGENT_COMPLETE])"
    by (simp add: start_def start_begin_def start_configured_def catch_run_def run_def
        run_loop.simps env0_def
        agent0_def new_BaseAgent_def connectToA2A_def scenario_of_def some_config_def
        sendA2AMessage_def to_all_def ask_initial_input_def apply_calls_def stop_def
        run_epilogue_def Let_def)
  show ?thesis
    using loop run
    by (simp add: stop_def run_epilogue_def sendA2AMessage_def to_all_def connectToA2A_def Let_def)
qed

text \<open>
  In the example environment the model finishes in its first round with the result
  \<^verbatim>\<open>{}\<close>: a pass of an agent without workflow sends one progress message for the step of
  the reasoning loop and sets the output.
\<close>

lemma show_nat_1: "show_nat (Suc 0) = ''1''"
  by code_simp

lemma env0_facts:
  "env_host env0 = silent_host"
  "readAgentConfig (env_store env0) t = Some some_config"
  "readWorkflow (env_store env0) t = None"
  by (simp_all add: env0_def)

lemma agent0_pass:
  assumes "currentWorkflow a = None" and "agent_tools a = []" and "wsOpen a"
  shows "one_pass env0 a =
           Some (Inr (a\<lparr> outbox := outbox a @
                         [to_all a AGENT_PROGRESS
                            (no_payload\<lparr> p_content := Some ''ReAct step executed'',
                               p_data := JObj [(''step'',
                                                step_value \<lparr> thought = [], action = ''FINISH'',
                                                   actionInput = JObj [],
                                                   observation = ''Task completed'' \<rparr>),
                                               (''iteration'',
                                                JNum (int (iteration (executionContext a))))] \<rparr>)],
                       executionContext :=
                         (set_output (JObj []) (executionContext a))
                           \<lparr> history := history (executionContext a) @
                                [step_value \<lparr> thought = [], action = ''FINISH'',
                                   actionInput = JObj [], observation = ''Task completed'' \<rparr>] \<rparr> \<rparr>))"
proof -
  have ms: "\<exists>ms. initial_messages silent_host [] g c sp = Inr ms" for g c sp
    by (simp add: initial_messages_def getToolsDescription_def buildReActPrompt_def
        silent_host_def)
  have p: "parseReActResponse silent_host []
             = \<lparr> thought = [], action = ''FINISH'', actionInput = JObj [] \<rparr>"
    by (simp add: parseReActResponse_def)
  obtain ms where "initial_messages silent_host [] (defaultGoal a) (executionContext a)
                     (Some (full_system_prompt a)) = Inr ms"
    using ms by blast
  moreover note env0_facts(1)
  moreover have "chat silent_host x = Inr []" for x
    by (simp add: silent_host_def)
  ultimately show ?thesis
    using assms
    by (simp add: one_pass_def agent_executeReActLoop_def react_execute_def registered_tools_def
        maxIterations_def eval_nat_numeral p report_step_def step_progress_def
        sendA2AMessage_def to_all_def parsed.extend_def Let_def)
qed

text \<open>
  C4, as the code has it. \<open>start\<close> does nothing when the agent is running. Called on an
  agent that is idle, completed or in error (and whose loop, if it was started before,
  has ended: the call is followed on an agent that nothing else is running on), it
  throws when no scenario is stored for the agent, leaving status, messages and context
  as they were, and otherwise sends the start message, sets the agent running with the
  goal flag cleared and the variables replaced, and runs the loop. The terminal states
  are not told apart from idle.
\<close>

theorem start_from_idle_completed_or_error:
  "(status a = RUNNING \<longrightarrow> start env sched d mode a = Returned a)
   \<and> ((status a = IDLE \<or> status a = COMPLETED \<or> status a = ERROR)
       \<and> \<not> has_scenario env a \<longrightarrow>
        (\<exists>a'. start env sched d mode a
                 = Threw (''Agent '' @ agent_type a
                          @ '' must have a scenario configured to define completion criteria'') a'
              \<and> status a' = status a \<and> outbox a' = outbox a
              \<and> executionContext a' = executionContext a))
   \<and> ((status a = IDLE \<or> status a = COMPLETED \<or> status a = ERROR)
       \<and> has_scenario env a \<longrightarrow>
        (\<exists>a'. start_begin env d mode a = Begun a'
              \<and> status a' = RUNNING \<and> \<not> goalAchieved a'
              \<and> variables (executionContext a') = d
              \<and> map msg_type (outbox a')
                  = map msg_type (outbox a) @ (if wsOpen a then [AGENT_START] else [])
              \<and> start env sched d mode a = catch_run (run env sched a')))"
  by (auto simp add: start_def start_begin_def start_configured_def has_scenario_def Let_def
      sendA2AMessage_def to_all_def)

theorem start_from_idle_completed_or_error_witness:
  "start env0 [] [] None ((agent0 ''planner'')\<lparr> status := RUNNING \<rparr>)
     = Returned ((agent0 ''planner'')\<lparr> status := RUNNING \<rparr>)
   \<and> (case start env_unconfigured [] [] None ((agent0 ''planner'')\<lparr> status := ERROR \<rparr>) of
         Threw err a' \<Rightarrow>
           err = ''Agent planner must have a scenario configured to define completion criteria''
           \<and> status a' = ERROR
       | Returned a' \<Rightarrow> False
       | Pending a' \<Rightarrow> False)
   \<and> (case start_begin env0 [(''k'', JNum 1)] None (agent0 ''planner'') of
         Begun a' \<Rightarrow> status a' = RUNNING \<and> variables (executionContext a') = [(''k'', JNum 1)]
                     \<and> map msg_type (outbox a') = [AGENT_START]
       | AlreadyRunning \<Rightarrow> False
       | NoScenario err a' \<Rightarrow> False)
   \<and> (case start_begin env0 [] None ((agent0 ''planner'')\<lparr> status := COMPLETED \<rparr>) of
         Begun a' \<Rightarrow> status a' = RUNNING \<and> \<not> goalAchieved a'
       | AlreadyRunning \<Rightarrow> False
       | NoScenario err a' \<Rightarrow> False)"
proof -
  have r: "status ((agent0 ''planner'')\<lparr> status := RUNNING \<rparr>) = RUNNING"
    by simp
  have p: "status ((agent0 ''planner'')\<lparr> status := ERROR \<rparr>) = ERROR"
    "\<not> has_scenario env_unconfigured ((agent0 ''planner'')\<lparr> status := ERROR \<rparr>)"
    "agent_type ((agent0 ''planner'')\<lparr> status := ERROR \<rparr>) = ''planner''"
    by (simp_all add: has_scenario_def env_unconfigured_def scenario_of_def agent0_def
        new_BaseAgent_def connectToA2A_def)
  have i: "status (agent0 ''planner'') = IDLE" "has_scenario env0 (agent0 ''planner'')"
    "outbox (agent0 ''planner'') = []" "wsOpen (agent0 ''planner'')"
    by (simp_all add: has_scenario_def env0_def scenario_of_def some_config_def agent0_def
        new_BaseAgent_def connectToA2A_def)
  have c: "status ((agent0 ''planner'')\<lparr> status := COMPLETED \<rparr>) = COMPLETED"
    "has_scenario env0 ((agent0 ''planner'')\<lparr> status := COMPLETED \<rparr>)"
    by (simp_all add: has_scenario_def env0_def scenario_of_def some_config_def agent0_def
        new_BaseAgent_def connectToA2A_def)
  from start_from_idle_completed_or_error
         [of "(agent0 ''planner'')\<lparr> status := RUNNING \<rparr>" env0 "[]" "[]" None] r
  have one: "start env0 [] [] None ((agent0 ''planner'')\<lparr> status := RUNNING \<rparr>)
               = Returned ((agent0 ''planner'')\<lparr> status := RUNNING \<rparr>)"
    by blast
  from start_from_idle_completed_or_error
         [of "(agent0 ''planner'')\<lparr> status := ERROR \<rparr>" env_unconfigured "[]" "[]" None] p
  have two: "(case start env_unconfigured [] [] None ((agent0 ''planner'')\<lparr> status := ERROR \<rparr>) of
         Threw err a' \<Rightarrow>
           err = ''Agent planner must have a scenario configured to define completion criteria''
           \<and> status a' = ERROR
       | Returned a' \<Rightarrow> False
       | Pending a' \<Rightarrow> False)"
    by auto
  from start_from_idle_completed_or_error
         [of "agent0 ''planner''" env0 "[]" "[(''k'', JNum 1)]" None] i
  have three: "(case start_begin env0 [(''k'', JNum 1)] None (agent0 ''planner'') of
         Begun a' \<Rightarrow> status a' = RUNNING \<and> variables (executionContext a') = [(''k'', JNum 1)]
                     \<and> map msg_type (outbox a') = [AGENT_START]
       | AlreadyRunning \<Rightarrow> False
       | NoScenario err a' \<Rightarrow> False)"
    by auto
  from start_from_idle_completed_or_error
         [of "(agent0 ''planner'')\<lparr> status := COMPLETED \<rparr>" env0 "[]" "[]" None] c
  have four: "(case start_begin env0 [] None ((agent0 ''planner'')\<lparr> status := COMPLETED \<rparr>) of
         Begun a' \<Rightarrow> status a' = RUNNING \<and> \<not> goalAchieved a'
       | AlreadyRunning \<Rightarrow> False
       | NoScenario err a' \<Rightarrow> False)"
    by auto
  from one two three four show ?thesis
    by simp
qed

text \<open>
  The claim as stated says that a completed agent cannot be restarted by \<open>start\<close>. A
  completed planner that is started again is set running, runs one more iteration and
  completes again, with a second round of messages: the start message, the progress
  message for the step of the reasoning loop, the one for the iteration, and the
  completion message.
\<close>

theorem restart_completed_counterexample:
  "(case start_begin env0 [] None ((agent0 ''planner'')\<lparr> status := COMPLETED \<rparr>) of
      Begun a' \<Rightarrow> status a'
    | AlreadyRunning \<Rightarrow> COMPLETED
    | NoScenario err a' \<Rightarrow> COMPLETED) = RUNNING
   \<and> (case start env0 [[], []] [] None ((agent0 ''planner'')\<lparr> status := COMPLETED \<rparr>) of
        Returned a' \<Rightarrow>
          (status a', iteration (executionContext a'),
           map (\<lambda>m. (msg_type m, p_content (msg_payload m))) (outbox a'))
      | Threw err a' \<Rightarrow> (status a', 0, [])
      | Pending a' \<Rightarrow> (status a', 0, []))
       = (COMPLETED, 1,
          [(AGENT_START, Some ''planner agent started in automatic mode''),
           (AGENT_PROGRESS, Some ''ReAct step executed''),
           (AGENT_PROGRESS, Some ''Iteration 1 completed''),
           (AGENT_COMPLETE, Some ''planner agent completed'')])"
  by (simp add: start_def start_begin_def start_configured_def catch_run_def run_def
      run_loop.simps agent0_pass env0_facts
      agent0_def new_BaseAgent_def connectToA2A_def scenario_of_def some_config_def
      sendA2AMessage_def to_all_def apply_calls_def begin_iteration_def
      checkGoalAchievement_def set_output_def no_payload_def show_nat_1
      js_prop_def report_progress_def run_epilogue_def Let_def)

section \<open>Properties of the dependency scheduler\<close>

lemma run_loop_returned:
  "run_loop env sched a = Returned a' \<Longrightarrow> status a' = COMPLETED \<or> status a' = ERROR"
proof (induction "2 * length sched + (if askedForInitialInput a then 0 else (1::nat))"
    arbitrary: sched a rule: less_induct)
  case less
  note IH = less.hyps [rotated]
  have asked: "askedForInitialInput (ask_initial_input x)" for x
    by (simp add: ask_initial_input_def sendA2AMessage_def Let_def)
  from less.prems show ?case
    apply (subst (asm) run_loop.simps)
    apply (simp split: if_splits list.splits option.splits sum.splits prod.splits
        add: run_epilogue_def sendA2AMessage_def Let_def)
    apply (auto dest!: IH simp: asked)
    done
qed

lemma start_returned:
  assumes "start env sched d mode a = Returned a'" and "status a \<noteq> RUNNING"
  shows "status a' = COMPLETED \<or> status a' = ERROR"
proof (cases "start_begin env d mode a")
  case AlreadyRunning
  with assms(2) show ?thesis
    by (simp add: start_begin_def start_configured_def Let_def split: if_splits)
next
  case (NoScenario err a1)
  with assms(1) show ?thesis by (simp add: start_def)
next
  case (Begun a3)
  with assms(1) have r: "catch_run (run env sched a3) = Returned a'"
    by (simp add: start_def)
  show ?thesis
  proof (cases "run env sched a3")
    case (Returned a4)
    with r have "run env sched a3 = Returned a'" by (simp add: catch_run_def)
    then show ?thesis unfolding run_def by (rule run_loop_returned)
  next
    case (Threw err a4)
    with r show ?thesis by (auto simp: catch_run_def sendA2AMessage_def split: if_splits)
  next
    case (Pending a4)
    with r show ?thesis by (simp add: catch_run_def)
  qed
qed

lemma get_put_other: "t' \<noteq> t \<Longrightarrow> getAgentByType (put_agent t a s) t' = getAgentByType s t'"
  by (auto simp: getAgentByType_def put_agent_def)

lemma get_put_same: "t \<in> set allAgents \<Longrightarrow> getAgentByType (put_agent t a s) t = Some a"
  by (auto simp: getAgentByType_def put_agent_def allAgents_def)

lemma get_called [simp]: "getAgentByType (called_start t s) t' = getAgentByType s t'"
  by (simp add: getAgentByType_def called_start_def)

lemma put_agent_keeps [simp]:
  "agentConnections (put_agent t a s) = agentConnections s"
  "executionState (put_agent t a s) = executionState s"
  "startCalls (put_agent t a s) = startCalls s"
  by (simp_all add: put_agent_def)

lemma get_state_update [simp]:
  "getAgentByType (s\<lparr> executionState := e \<rparr>) t = getAgentByType s t"
  by (simp add: getAgentByType_def)

text \<open>
  When the call of \<open>start\<close> returns for every agent of the list that is initialised, the
  loop calls \<open>start\<close> on each of these, in order, passes over the agents that are not
  initialised, and touches no other agent.
\<close>

lemma start_each_all:
  assumes "distinct ts"
    and "\<forall>t \<in> set ts. getAgentByType s t = None
                     \<or> (\<exists>a a'. getAgentByType s t = Some a
                                \<and> start env (scheds t) [] mode a = Returned a')"
  shows "\<exists>s'. start_each env scheds mode ts s = Some (None, s')
              \<and> startCalls s' = startCalls s @ filter (\<lambda>t. getAgentByType s t \<noteq> None) ts
              \<and> agentConnections s' = agentConnections s
              \<and> executionState s' = executionState s
              \<and> (\<forall>t. t \<notin> set ts \<longrightarrow> getAgentByType s' t = getAgentByType s t)"
  using assms
proof (induction ts arbitrary: s)
  case Nil
  show ?case by simp
next
  case (Cons t ts)
  have d: "distinct ts" and nt: "t \<notin> set ts"
    using Cons.prems(1) by simp_all
  show ?case
  proof (cases "getAgentByType s t")
    case None
    have rest: "\<forall>u \<in> set ts. getAgentByType s u = None
                    \<or> (\<exists>a a'. getAgentByType s u = Some a
                               \<and> start env (scheds u) [] mode a = Returned a')"
      using Cons.prems(2) by simp
    from Cons.IH [OF d rest] obtain s' where
      s': "start_each env scheds mode ts s = Some (None, s')"
      "startCalls s' = startCalls s @ filter (\<lambda>t. getAgentByType s t \<noteq> None) ts"
      "agentConnections s' = agentConnections s"
      "executionState s' = executionState s"
      "\<forall>u. u \<notin> set ts \<longrightarrow> getAgentByType s' u = getAgentByType s u"
      by blast
    have "start_each env scheds mode (t # ts) s = Some (None, s')"
      using None s'(1) by simp
    moreover have "startCalls s' = startCalls s @ filter (\<lambda>t. getAgentByType s t \<noteq> None) (t # ts)"
      using None s'(2) by simp
    moreover have "\<forall>u. u \<notin> set (t # ts) \<longrightarrow> getAgentByType s' u = getAgentByType s u"
      using s'(5) by simp
    ultimately show ?thesis using s'(3,4) by blast
  next
    case (Some a)
    then obtain a' where r: "start env (scheds t) [] mode a = Returned a'"
      using Cons.prems(2) by auto
    let ?s = "put_agent t a' (called_start t s)"
    have same: "getAgentByType ?s u = getAgentByType s u" if "u \<in> set ts" for u
    proof -
      from that nt have "u \<noteq> t" by blast
      then show ?thesis by (simp add: get_put_other)
    qed
    have rest: "\<forall>u \<in> set ts. getAgentByType ?s u = None
                    \<or> (\<exists>a a'. getAgentByType ?s u = Some a
                               \<and> start env (scheds u) [] mode a = Returned a')"
      using Cons.prems(2) by (simp add: same)
    have flt: "filter (\<lambda>u. getAgentByType ?s u \<noteq> None) ts
                 = filter (\<lambda>u. getAgentByType s u \<noteq> None) ts"
      by (rule filter_cong) (simp_all add: same)
    from Cons.IH [OF d rest] obtain s' where
      s': "start_each env scheds mode ts ?s = Some (None, s')"
      "startCalls s' = startCalls ?s @ filter (\<lambda>u. getAgentByType ?s u \<noteq> None) ts"
      "agentConnections s' = agentConnections ?s"
      "executionState s' = executionState ?s"
      "\<forall>u. u \<notin> set ts \<longrightarrow> getAgentByType s' u = getAgentByType ?s u"
      by blast
    have "start_each env scheds mode (t # ts) s = Some (None, s')"
      using Some r s'(1) by simp
    moreover have "startCalls s' = startCalls s @ filter (\<lambda>t. getAgentByType s t \<noteq> None) (t # ts)"
      using Some s'(2) unfolding flt by (simp add: called_start_def)
    moreover have "agentConnections s' = agentConnections s" "executionState s' = executionState s"
      using s'(3,4) by (simp_all add: called_start_def)
    moreover have "\<forall>u. u \<notin> set (t # ts) \<longrightarrow> getAgentByType s' u = getAgentByType s u"
      using s'(5) by (simp add: get_put_other)
    ultimately show ?thesis by blast
  qed
qed

text \<open>
  A call of \<open>start\<close> that throws ends the loop: the agents before it were started or
  passed over, the ones after it are not looked at.
\<close>

lemma start_each_throws:
  assumes "distinct (pre @ t # post)"
    and "\<forall>u \<in> set pre. getAgentByType s u = None
                     \<or> (\<exists>a a'. getAgentByType s u = Some a
                                \<and> start env (scheds u) [] mode a = Returned a')"
    and "getAgentByType s t = Some a"
    and "start env (scheds t) [] mode a = Threw err a'"
  shows "\<exists>s'. start_each env scheds mode (pre @ t # post) s = Some (Some err, s')
              \<and> startCalls s' = startCalls s @ filter (\<lambda>u. getAgentByType s u \<noteq> None) pre @ [t]"
  using assms
proof (induction pre arbitrary: s)
  case Nil
  then show ?case by (simp add: called_start_def)
next
  case (Cons p pre)
  have d: "distinct (pre @ t # post)" and np: "p \<notin> set pre" "p \<noteq> t"
    using Cons.prems(1) by auto
  show ?case
  proof (cases "getAgentByType s p")
    case None
    have rest: "\<forall>u \<in> set pre. getAgentByType s u = None
                    \<or> (\<exists>a a'. getAgentByType s u = Some a
                               \<and> start env (scheds u) [] mode a = Returned a')"
      using Cons.prems(2) by simp
    from Cons.IH [OF d rest Cons.prems(3,4)] obtain s' where
      "start_each env scheds mode (pre @ t # post) s = Some (Some err, s')"
      "startCalls s' = startCalls s @ filter (\<lambda>u. getAgentByType s u \<noteq> None) pre @ [t]"
      by blast
    then show ?thesis using None by simp
  next
    case (Some b)
    then obtain b' where r: "start env (scheds p) [] mode b = Returned b'"
      using Cons.prems(2) by auto
    let ?s = "put_agent p b' (called_start p s)"
    have same: "getAgentByType ?s u = getAgentByType s u" if "u \<noteq> p" for u
      using that by (simp add: get_put_other)
    have rest: "\<forall>u \<in> set pre. getAgentByType ?s u = None
                    \<or> (\<exists>a a'. getAgentByType ?s u = Some a
                               \<and> start env (scheds u) [] mode a = Returned a')"
    proof
      fix u assume u: "u \<in> set pre"
      with np(1) have "u \<noteq> p" by blast
      with Cons.prems(2) u show "getAgentByType ?s u = None
                    \<or> (\<exists>a a'. getAgentByType ?s u = Some a
                               \<and> start env (scheds u) [] mode a = Returned a')"
        by (simp add: same)
    qed
    have t: "getAgentByType ?s t = Some a"
      using Cons.prems(3) np(2) by (simp add: same)
    have flt: "filter (\<lambda>u. getAgentByType ?s u \<noteq> None) pre
                 = filter (\<lambda>u. getAgentByType s u \<noteq> None) pre"
    proof (rule filter_cong)
      fix u assume "u \<in> set pre"
      with np(1) have "u \<noteq> p" by blast
      then show "(getAgentByType ?s u \<noteq> None) = (getAgentByType s u \<noteq> None)"
        by (simp add: same)
    qed simp
    from Cons.IH [OF d rest t Cons.prems(4)] obtain s' where
      s': "start_each env scheds mode (pre @ t # post) ?s = Some (Some err, s')"
      "startCalls s' = startCalls ?s @ filter (\<lambda>u. getAgentByType ?s u \<noteq> None) pre @ [t]"
      by blast
    have "start_each env scheds mode ((p # pre) @ t # post) s = Some (Some err, s')"
      using Some r s'(1) by simp
    moreover have "startCalls s' = startCalls s
                     @ filter (\<lambda>u. getAgentByType s u \<noteq> None) (p # pre) @ [t]"
      using Some s'(2) unfolding flt by (simp add: called_start_def)
    ultimately show ?thesis by blast
  qed
qed

text \<open>Whatever the agents do, \<open>start\<close> is only ever called on agents of the list.\<close>

lemma start_each_only:
  "start_each env scheds mode ts s = Some (r, s')
   \<Longrightarrow> \<exists>called. startCalls s' = startCalls s @ called \<and> set called \<subseteq> set ts"
proof (induction ts arbitrary: s)
  case Nil
  then show ?case by simp
next
  case (Cons t ts)
  show ?case
  proof (cases "getAgentByType s t")
    case None
    with Cons.prems have "start_each env scheds mode ts s = Some (r, s')" by simp
    from Cons.IH [OF this] show ?thesis by auto
  next
    case (Some agent)
    show ?thesis
    proof (cases "start env (scheds t) [] mode agent")
      case (Returned a')
      with Some Cons.prems
      have "start_each env scheds mode ts (put_agent t a' (called_start t s)) = Some (r, s')"
        by simp
      from Cons.IH [OF this] obtain called where
        "startCalls s' = (startCalls s @ [t]) @ called" "set called \<subseteq> set ts"
        by (auto simp: called_start_def)
      then show ?thesis by (intro exI [of _ "t # called"]) auto
    next
      case (Threw err a')
      with Some Cons.prems have "s' = put_agent t a' (called_start t s)" by simp
      then show ?thesis by (intro exI [of _ "[t]"]) (simp add: called_start_def)
    next
      case (Pending a')
      with Some Cons.prems show ?thesis by simp
    qed
  qed
qed

lemma startingAgents_set:
  "set (startingAgents conns) = {t \<in> set allAgents. \<not> (\<exists>c \<in> set conns. conn_to c = t)}"
  by (auto simp: startingAgents_def)

lemma startingAgents_distinct: "distinct (startingAgents conns)"
  unfolding startingAgents_def Let_def by (rule distinct_filter) (simp add: allAgents_def)

lemma startingAgents_order:
  "startingAgents conns
     = filter (\<lambda>t. t \<in> set (startingAgents conns)) [''planner'', ''artist'', ''developer'']"
proof -
  have "filter (\<lambda>t. t \<in> set (filter P xs)) xs = filter P xs" for P and xs :: "string list"
    by (rule filter_cong) auto
  then show ?thesis
    unfolding startingAgents_def Let_def allAgents_def by simp
qed

lemma startingAgents_empty:
  "startingAgents conns = [] \<longleftrightarrow> (\<forall>t \<in> set allAgents. \<exists>c \<in> set conns. conn_to c = t)"
proof -
  have "startingAgents conns = [] \<longleftrightarrow> set (startingAgents conns) = {}"
    by simp
  also have "\<dots> \<longleftrightarrow> (\<forall>t \<in> set allAgents. \<exists>c \<in> set conns. conn_to c = t)"
    unfolding startingAgents_set by blast
  finally show ?thesis .
qed

lemma startWorkflow_all:
  assumes "startingAgents (agentConnections s) \<noteq> []"
    and "\<forall>t \<in> set (startingAgents (agentConnections s)).
           getAgentByType s t = None
           \<or> (\<exists>a a'. getAgentByType s t = Some a \<and> start env (scheds t) [] mode a = Returned a')"
  shows "\<exists>s'. startWorkflow env scheds mode s
                = Some (Success (startingAgents (agentConnections s)), s')
              \<and> startCalls s' = startCalls s
                  @ filter (\<lambda>t. getAgentByType s t \<noteq> None) (startingAgents (agentConnections s))
              \<and> agentConnections s' = agentConnections s
              \<and> completedNodes (executionState s') = []
              \<and> es_mode (executionState s') = (case mode of None \<Rightarrow> Automatic | Some m \<Rightarrow> m)
              \<and> (\<forall>t. t \<notin> set (startingAgents (agentConnections s)) \<longrightarrow>
                     getAgentByType s' t = getAgentByType s t)"
proof -
  let ?st = "startingAgents (agentConnections s)"
  let ?s1 = "s\<lparr> executionState := fresh_state mode \<rparr>"
  have "\<forall>t \<in> set ?st. getAgentByType ?s1 t = None
          \<or> (\<exists>a a'. getAgentByType ?s1 t = Some a \<and> start env (scheds t) [] mode a = Returned a')"
    using assms(2) by simp
  from start_each_all [OF startingAgents_distinct this]
  obtain s2 where s2: "start_each env scheds mode ?st ?s1 = Some (None, s2)"
    "startCalls s2 = startCalls ?s1 @ filter (\<lambda>t. getAgentByType ?s1 t \<noteq> None) ?st"
    "agentConnections s2 = agentConnections ?s1"
    "executionState s2 = executionState ?s1"
    "\<forall>t. t \<notin> set ?st \<longrightarrow> getAgentByType s2 t = getAgentByType ?s1 t"
    by blast
  let ?s' = "s2\<lparr> executionState := (executionState s2)\<lparr> currentAgentType := Some (hd ?st) \<rparr> \<rparr>"
  have "startWorkflow env scheds mode s = Some (Success ?st, ?s')"
    using assms(1) s2(1) by (simp add: startWorkflow_def Let_def)
  moreover have "startCalls ?s' = startCalls s @ filter (\<lambda>t. getAgentByType s t \<noteq> None) ?st"
    using s2(2) by simp
  moreover have "agentConnections ?s' = agentConnections s"
    using s2(3) by simp
  moreover have "completedNodes (executionState ?s') = []"
    "es_mode (executionState ?s') = (case mode of None \<Rightarrow> Automatic | Some m \<Rightarrow> m)"
    using s2(4) by (simp_all add: fresh_state_def)
  moreover have "\<forall>t. t \<notin> set ?st \<longrightarrow> getAgentByType ?s' t = getAgentByType s t"
    using s2(5) by simp
  ultimately show ?thesis by blast
qed

lemma startWorkflow_throws:
  assumes "startingAgents (agentConnections s) = pre @ t # post"
    and "\<forall>u \<in> set pre. getAgentByType s u = None
           \<or> (\<exists>a a'. getAgentByType s u = Some a \<and> start env (scheds u) [] mode a = Returned a')"
    and "getAgentByType s t = Some a"
    and "start env (scheds t) [] mode a = Threw err a'"
  shows "\<exists>s'. startWorkflow env scheds mode s = Some (Status500 err, s')
              \<and> startCalls s' = startCalls s @ filter (\<lambda>u. getAgentByType s u \<noteq> None) pre @ [t]"
proof -
  let ?s1 = "s\<lparr> executionState := fresh_state mode \<rparr>"
  have d: "distinct (pre @ t # post)"
    using startingAgents_distinct [of "agentConnections s"] assms(1) by simp
  have pre: "\<forall>u \<in> set pre. getAgentByType ?s1 u = None
          \<or> (\<exists>a a'. getAgentByType ?s1 u = Some a \<and> start env (scheds u) [] mode a = Returned a')"
    using assms(2) by simp
  have t: "getAgentByType ?s1 t = Some a"
    using assms(3) by simp
  from start_each_throws [OF d pre t assms(4)]
  obtain s2 where "start_each env scheds mode (pre @ t # post) ?s1 = Some (Some err, s2)"
    "startCalls s2 = startCalls ?s1 @ filter (\<lambda>u. getAgentByType ?s1 u \<noteq> None) pre @ [t]"
    by blast
  then show ?thesis
    using assms(1) by (simp add: startWorkflow_def Let_def)
qed

lemma start_throws_without_scenario:
  assumes "status a \<noteq> RUNNING" and "\<not> has_scenario env a"
  shows "start env sched d mode a
           = Threw (''Agent '' @ agent_type a
                    @ '' must have a scenario configured to define completion criteria'')
               (a\<lparr> agentConfig := readAgentConfig (env_store env) (agent_type a) \<rparr>)"
  using assms
  by (simp add: start_def start_begin_def start_configured_def has_scenario_def Let_def)

text \<open>
  C5, as the code has it. When every agent has an incoming connection, the handler
  answers with status 400 and \<^verbatim>\<open>No starting agents found\<close>; the execution state is
  reset and nothing else changes: no agent is touched and \<open>start\<close> is not called.
  Otherwise the start set consists of the agents without incoming connection, in the
  order planner, artist, developer, and \<open>start\<close> is never called on any other agent. The
  handler goes through the start set in this order and passes over an agent that is
  not initialised. When every call of \<open>start\<close> returns, \<open>start\<close> has been called on
  exactly the initialised agents of the start set, and the answer is success, listing
  the whole start set. A call of \<open>start\<close> that throws, as it does on an agent that is not
  running and has no scenario stored, ends the handler with status 500 and the
  message of the error: \<open>start\<close> has then been called on the initialised agents before
  that one and on that one, and on none of the agents after it.
\<close>

theorem startWorkflow_start_set:
  "((\<forall>t \<in> set allAgents. \<exists>c \<in> set (agentConnections s). conn_to c = t) \<longrightarrow>
       startWorkflow env scheds mode s
         = Some (Status400 ''No starting agents found'', s\<lparr> executionState := fresh_state mode \<rparr>))
   \<and> set (startingAgents (agentConnections s))
       = {t \<in> set allAgents. \<not> (\<exists>c \<in> set (agentConnections s). conn_to c = t)}
   \<and> startingAgents (agentConnections s)
       = filter (\<lambda>t. t \<in> set (startingAgents (agentConnections s)))
           [''planner'', ''artist'', ''developer'']
   \<and> (\<forall>r s'. startWorkflow env scheds mode s = Some (r, s') \<longrightarrow>
         (\<exists>called. startCalls s' = startCalls s @ called
                   \<and> set called \<subseteq> set (startingAgents (agentConnections s))))
   \<and> (\<not> (\<forall>t \<in> set allAgents. \<exists>c \<in> set (agentConnections s). conn_to c = t)
       \<and> (\<forall>t \<in> set (startingAgents (agentConnections s)).
             getAgentByType s t = None
             \<or> (\<exists>a a'. getAgentByType s t = Some a
                        \<and> start env (scheds t) [] mode a = Returned a')) \<longrightarrow>
         (\<exists>s'. startWorkflow env scheds mode s
                  = Some (Success (startingAgents (agentConnections s)), s')
               \<and> startCalls s' = startCalls s
                   @ filter (\<lambda>t. getAgentByType s t \<noteq> None)
                       (startingAgents (agentConnections s))))
   \<and> (startingAgents (agentConnections s) = pre @ t # post
       \<and> (\<forall>u \<in> set pre.
             getAgentByType s u = None
             \<or> (\<exists>a a'. getAgentByType s u = Some a
                        \<and> start env (scheds u) [] mode a = Returned a'))
       \<and> getAgentByType s t = Some a
       \<and> start env (scheds t) [] mode a = Threw err a' \<longrightarrow>
         (\<exists>s'. startWorkflow env scheds mode s = Some (Status500 err, s')
               \<and> startCalls s' = startCalls s
                   @ filter (\<lambda>u. getAgentByType s u \<noteq> None) pre @ [t]))
   \<and> (status a \<noteq> RUNNING \<and> \<not> has_scenario env a \<longrightarrow>
         (\<exists>a'. start env (scheds t) [] mode a
                  = Threw (''Agent '' @ agent_type a
                           @ '' must have a scenario configured to define completion criteria'') a'))"
proof -
  let ?st = "startingAgents (agentConnections s)"
  let ?s1 = "s\<lparr> executionState := fresh_state mode \<rparr>"
  note empty = startingAgents_empty [of "agentConnections s"]
  have none: "(\<forall>t \<in> set allAgents. \<exists>c \<in> set (agentConnections s). conn_to c = t) \<longrightarrow>
       startWorkflow env scheds mode s = Some (Status400 ''No starting agents found'', ?s1)"
    using empty by (simp add: startWorkflow_def Let_def)
  have only: "\<exists>called. startCalls s' = startCalls s @ called \<and> set called \<subseteq> set ?st"
    if "startWorkflow env scheds mode s = Some (r, s')" for r s'
  proof (cases "?st = []")
    case True
    with that show ?thesis by (auto simp: startWorkflow_def Let_def)
  next
    case False
    with that obtain e s2 where e: "start_each env scheds mode ?st ?s1 = Some (e, s2)"
      and "startCalls s' = startCalls s2"
      by (auto simp: startWorkflow_def Let_def split: option.splits)
    with start_each_only [OF e] show ?thesis by simp
  qed
  have only': "\<forall>r s'. startWorkflow env scheds mode s = Some (r, s') \<longrightarrow>
         (\<exists>called. startCalls s' = startCalls s @ called \<and> set called \<subseteq> set ?st)"
    using only by blast
  have all: "\<exists>s'. startWorkflow env scheds mode s = Some (Success ?st, s')
                 \<and> startCalls s' = startCalls s @ filter (\<lambda>t. getAgentByType s t \<noteq> None) ?st"
    if ne: "\<not> (\<forall>t \<in> set allAgents. \<exists>c \<in> set (agentConnections s). conn_to c = t)"
      and ret: "\<forall>t \<in> set ?st. getAgentByType s t = None
                  \<or> (\<exists>a a'. getAgentByType s t = Some a
                             \<and> start env (scheds t) [] mode a = Returned a')"
  proof -
    have "?st \<noteq> []" using ne empty by simp
    from startWorkflow_all [OF this ret] show ?thesis by blast
  qed
  have all': "\<not> (\<forall>t \<in> set allAgents. \<exists>c \<in> set (agentConnections s). conn_to c = t)
       \<and> (\<forall>t \<in> set ?st.
             getAgentByType s t = None
             \<or> (\<exists>a a'. getAgentByType s t = Some a
                        \<and> start env (scheds t) [] mode a = Returned a')) \<longrightarrow>
         (\<exists>s'. startWorkflow env scheds mode s = Some (Success ?st, s')
               \<and> startCalls s' = startCalls s @ filter (\<lambda>t. getAgentByType s t \<noteq> None) ?st)"
    using all by blast
  have throws: "?st = pre @ t # post
       \<and> (\<forall>u \<in> set pre.
             getAgentByType s u = None
             \<or> (\<exists>a a'. getAgentByType s u = Some a
                        \<and> start env (scheds u) [] mode a = Returned a'))
       \<and> getAgentByType s t = Some a
       \<and> start env (scheds t) [] mode a = Threw err a' \<longrightarrow>
         (\<exists>s'. startWorkflow env scheds mode s = Some (Status500 err, s')
               \<and> startCalls s' = startCalls s
                   @ filter (\<lambda>u. getAgentByType s u \<noteq> None) pre @ [t])"
    using startWorkflow_throws [of s pre t post env scheds mode a err a'] by blast
  have unconfigured: "status a \<noteq> RUNNING \<and> \<not> has_scenario env a \<longrightarrow>
         (\<exists>a'. start env (scheds t) [] mode a
                  = Threw (''Agent '' @ agent_type a
                           @ '' must have a scenario configured to define completion criteria'') a')"
    using start_throws_without_scenario [of a env "scheds t" "[]" mode] by blast
  show ?thesis
    by (intro conjI none startingAgents_set startingAgents_order only' all' throws unconfigured)
qed

text \<open>
  In the example environment an idle agent that is started in automatic mode and is
  left alone runs one iteration and completes.
\<close>

lemma agent0_facts:
  "agent_type (agent0 t) = t" "status (agent0 t) = IDLE" "wsOpen (agent0 t)"
  "outbox (agent0 t) = []" "has_scenario env0 (agent0 t)"
  "\<not> has_scenario env_unconfigured (agent0 t)"
  by (simp_all add: agent0_def new_BaseAgent_def connectToA2A_def has_scenario_def
      scenario_of_def env0_def env_unconfigured_def some_config_def)

lemma agent0_start_returns:
  assumes "mode \<noteq> Some Interactive"
  shows "\<exists>a'. start env0 (quiet t) [] mode (agent0 t) = Returned a' \<and> status a' = COMPLETED"
proof -
  have m: "(case mode of None \<Rightarrow> Automatic | Some m \<Rightarrow> m) = Automatic"
    using assms by (cases mode) (auto intro: ExecutionMode.exhaust)
  show ?thesis
    by (simp add: m start_def start_begin_def start_configured_def catch_run_def run_def
        run_loop.simps agent0_pass env0_facts
        quiet_def agent0_def new_BaseAgent_def connectToA2A_def scenario_of_def some_config_def
        sendA2AMessage_def to_all_def apply_calls_def begin_iteration_def
        checkGoalAchievement_def set_output_def
        js_prop_def report_progress_def run_epilogue_def Let_def)
qed

lemma server0_facts:
  "agentConnections server0 = [\<lparr> conn_from = ''planner'', conn_to = ''artist'' \<rparr>]"
  "startingAgents (agentConnections server0) = [''planner'', ''developer'']"
  "getAgentByType server0 t = (if t \<in> set allAgents then Some (agent0 t) else None)"
  "startCalls server0 = []"
  "completedNodes (executionState server0) = []"
  "es_mode (executionState server0) = Automatic"
  by (auto simp: server0_def startingAgents_def allAgents_def getAgentByType_def fresh_state_def)

lemma server_no_planner_facts:
  "startingAgents (agentConnections server_no_planner) = [''planner'', ''developer'']"
  "getAgentByType server_no_planner ''planner'' = None"
  "getAgentByType server_no_planner ''developer'' = Some (agent0 ''developer'')"
  "startCalls server_no_planner = []"
  by (auto simp: server_no_planner_def server0_def startingAgents_def allAgents_def
      getAgentByType_def)

theorem startWorkflow_start_set_witness:
  "startWorkflow env0 quiet None server_cycle
     = Some (Status400 ''No starting agents found'',
             server_cycle\<lparr> executionState := fresh_state None \<rparr>)
   \<and> map_option (\<lambda>(r, s'). (r, startCalls s')) (startWorkflow env0 quiet None server0)
     = Some (Success [''planner'', ''developer''], [''planner'', ''developer''])
   \<and> map_option (\<lambda>(r, s'). (r, startCalls s')) (startWorkflow env0 quiet None server_no_planner)
     = Some (Success [''planner'', ''developer''], [''developer''])
   \<and> map_option (\<lambda>(r, s'). (r, startCalls s'))
       (startWorkflow env_unconfigured quiet None server0)
     = Some (Status500 ''Agent planner must have a scenario configured to define completion criteria'',
             [''planner''])"
proof -
  have cyc: "\<forall>t \<in> set allAgents. \<exists>c \<in> set (agentConnections server_cycle). conn_to c = t"
    by (simp add: allAgents_def server_cycle_def)
  from startWorkflow_start_set [of server_cycle env0 quiet None, THEN conjunct1] cyc
  have one: "startWorkflow env0 quiet None server_cycle
               = Some (Status400 ''No starting agents found'',
                       server_cycle\<lparr> executionState := fresh_state None \<rparr>)"
    by blast
  have ne: "\<not> (\<forall>t \<in> set allAgents. \<exists>c \<in> set (agentConnections server0). conn_to c = t)"
    by (simp add: allAgents_def server0_def)
  have ret: "\<forall>t \<in> set (startingAgents (agentConnections server0)).
               getAgentByType server0 t = None
               \<or> (\<exists>a a'. getAgentByType server0 t = Some a
                          \<and> start env0 (quiet t) [] None a = Returned a')"
    using agent0_start_returns [of None] by (auto simp: server0_facts allAgents_def)
  from startWorkflow_start_set [of server0 env0 quiet None,
      THEN conjunct2, THEN conjunct2, THEN conjunct2, THEN conjunct2, THEN conjunct1] ne ret
  obtain s' where "startWorkflow env0 quiet None server0
                     = Some (Success (startingAgents (agentConnections server0)), s')"
    and "startCalls s' = startCalls server0
           @ filter (\<lambda>t. getAgentByType server0 t \<noteq> None)
               (startingAgents (agentConnections server0))"
    by blast
  then have two: "map_option (\<lambda>(r, s'). (r, startCalls s')) (startWorkflow env0 quiet None server0)
                    = Some (Success [''planner'', ''developer''], [''planner'', ''developer''])"
    by (simp add: server0_facts(2,3,4) allAgents_def)
  have ne': "\<not> (\<forall>t \<in> set allAgents.
                 \<exists>c \<in> set (agentConnections server_no_planner). conn_to c = t)"
    by (simp add: allAgents_def server_no_planner_def server0_def)
  have ret': "\<forall>t \<in> set (startingAgents (agentConnections server_no_planner)).
               getAgentByType server_no_planner t = None
               \<or> (\<exists>a a'. getAgentByType server_no_planner t = Some a
                          \<and> start env0 (quiet t) [] None a = Returned a')"
    using agent0_start_returns [of None] by (auto simp: server_no_planner_facts)
  from startWorkflow_start_set [of server_no_planner env0 quiet None,
      THEN conjunct2, THEN conjunct2, THEN conjunct2, THEN conjunct2, THEN conjunct1] ne' ret'
  obtain s'' where "startWorkflow env0 quiet None server_no_planner
                     = Some (Success (startingAgents (agentConnections server_no_planner)), s'')"
    and "startCalls s'' = startCalls server_no_planner
           @ filter (\<lambda>t. getAgentByType server_no_planner t \<noteq> None)
               (startingAgents (agentConnections server_no_planner))"
    by blast
  then have three: "map_option (\<lambda>(r, s'). (r, startCalls s'))
                      (startWorkflow env0 quiet None server_no_planner)
                    = Some (Success [''planner'', ''developer''], [''developer''])"
    by (simp add: server_no_planner_facts)
  have nr: "status (agent0 ''planner'') \<noteq> RUNNING"
    "\<not> has_scenario env_unconfigured (agent0 ''planner'')"
    by (simp_all add: agent0_facts)
  from startWorkflow_start_set [where a = "agent0 ''planner''" and env = env_unconfigured
      and scheds = quiet and t = "''planner''" and mode = None,
      THEN conjunct2, THEN conjunct2, THEN conjunct2, THEN conjunct2, THEN conjunct2,
      THEN conjunct2] nr
  obtain a' where thr: "start env_unconfigured (quiet ''planner'') [] None (agent0 ''planner'')
                  = Threw (''Agent '' @ agent_type (agent0 ''planner'')
                           @ '' must have a scenario configured to define completion criteria'') a'"
    by blast
  have split: "startingAgents (agentConnections server0) = [] @ ''planner'' # [''developer'']"
    "\<forall>u \<in> set ([] :: string list).
       getAgentByType server0 u = None
       \<or> (\<exists>a a'. getAgentByType server0 u = Some a
                  \<and> start env_unconfigured (quiet u) [] None a = Returned a')"
    "getAgentByType server0 ''planner'' = Some (agent0 ''planner'')"
    by (simp_all add: server0_facts(2,3) allAgents_def)
  from startWorkflow_start_set [where s = server0 and env = env_unconfigured
      and scheds = quiet and mode = None and pre = "[]" and t = "''planner''"
      and post = "[''developer'']" and a = "agent0 ''planner''"
      and err = "''Agent '' @ agent_type (agent0 ''planner'')
                 @ '' must have a scenario configured to define completion criteria''"
      and a' = a',
      THEN conjunct2, THEN conjunct2, THEN conjunct2, THEN conjunct2, THEN conjunct2,
      THEN conjunct1] split thr
  obtain s3 where "startWorkflow env_unconfigured quiet None server0
      = Some (Status500 (''Agent '' @ agent_type (agent0 ''planner'')
                 @ '' must have a scenario configured to define completion criteria''), s3)"
    and "startCalls s3 = startCalls server0
           @ filter (\<lambda>u. getAgentByType server0 u \<noteq> None) [] @ [''planner'']"
    by blast
  then have four: "map_option (\<lambda>(r, s'). (r, startCalls s'))
       (startWorkflow env_unconfigured quiet None server0)
     = Some (Status500 ''Agent planner must have a scenario configured to define completion criteria'',
             [''planner''])"
    by (simp add: server0_facts(2,3,4) agent0_facts)
  from one two three four show ?thesis by simp
qed

text \<open>
  The claim as stated has every agent without incoming connection started, whatever the
  state of the system. With the single connection from the planner to the artist and
  no scenario stored, the call of \<open>start\<close> on the planner throws, the handler answers with
  status 500, and \<open>start\<close> is never called on the developer.
\<close>

theorem start_set_not_started_counterexample:
  "startingAgents (agentConnections server0) = [''planner'', ''developer'']
   \<and> map_option (\<lambda>(r, s'). (r, startCalls s'))
        (startWorkflow env_unconfigured quiet None server0)
       = Some (Status500 ''Agent planner must have a scenario configured to define completion criteria'',
               [''planner''])"
proof -
  have "start env_unconfigured (quiet ''planner'') [] None (agent0 ''planner'')
          = Threw ''Agent planner must have a scenario configured to define completion criteria''
              ((agent0 ''planner'')\<lparr> agentConfig := None \<rparr>)"
    by (simp add: start_def start_begin_def start_configured_def env_unconfigured_def
        scenario_of_def agent0_def new_BaseAgent_def connectToA2A_def Let_def)
  then show ?thesis
    by (simp add: server0_facts(2) startWorkflow_def Let_def)
       (simp add: server0_def getAgentByType_def called_start_def put_agent_def)
qed

text \<open>
  With the single connection from the planner to the artist, starting the workflow
  calls \<open>start\<close> on the planner and on the developer, which has no incoming connection
  either.
\<close>

lemma third_agent_is_started_too:
  "agentConnections server0 = [\<lparr> conn_from = ''planner'', conn_to = ''artist'' \<rparr>]
   \<and> map_option (\<lambda>(r, s'). startCalls s') (startWorkflow env0 quiet None server0)
       = Some [''planner'', ''developer'']"
proof -
  have "\<forall>t \<in> set (startingAgents (agentConnections server0)).
          getAgentByType server0 t = None
          \<or> (\<exists>a a'. getAgentByType server0 t = Some a \<and> start env0 (quiet t) [] None a = Returned a')"
    using agent0_start_returns [of None] by (auto simp: server0_facts(2,3) allAgents_def)
  moreover have "startingAgents (agentConnections server0) \<noteq> []"
    by (simp add: server0_facts(2))
  ultimately obtain s' where
    "startWorkflow env0 quiet None server0
       = Some (Success (startingAgents (agentConnections server0)), s')"
    "startCalls s' = startCalls server0
       @ filter (\<lambda>t. getAgentByType server0 t \<noteq> None) (startingAgents (agentConnections server0))"
    using startWorkflow_all [of server0 env0 quiet None] by blast
  then show ?thesis
    unfolding server0_facts(2,4) by (simp add: server0_facts(1,3) allAgents_def)
qed

text \<open>
  What follows \<^verbatim>\<open>await readAgentConfig\<close> in \<open>start\<close>, on an agent for which a scenario is
  stored: whatever the status of the agent is by then, it is set running and the start
  message is sent.
\<close>

lemma start_configured_begun:
  assumes "has_scenario env a"
  shows "\<exists>a'. start_configured env d md a = Begun a'
              \<and> status a' = RUNNING \<and> has_scenario env a'
              \<and> map msg_type (outbox a')
                  = map msg_type (outbox a) @ (if wsOpen a then [AGENT_START] else [])
              \<and> wsOpen a' = wsOpen a"
  using assms
  by (auto simp add: start_configured_def has_scenario_def scenario_of_def Let_def
      sendA2AMessage_def to_all_def)

lemma called_start_keeps [simp]:
  "agentConnections (called_start t s) = agentConnections s"
  "executionState (called_start t s) = executionState s"
  by (simp_all add: called_start_def)

text \<open>
  C2. Let the only connection lead from \<open>P\<close> to \<open>Q\<close>, with \<open>Q\<close> idle and configured, and let
  the completion message of \<open>P\<close> be delivered twice to the monitor, so that two runs of
  its handler are under way. When the second run begins while the first awaits
  \<^verbatim>\<open>saveExecutionState\<close>, and the two then take turns at each \<^verbatim>\<open>await\<close>, both runs find \<open>Q\<close> idle,
  both call \<open>start\<close> on \<open>Q\<close>, both calls pass the test for a running agent (the status is
  set only after \<^verbatim>\<open>await readAgentConfig\<close>), and \<open>Q\<close> is set running and sends its start
  message twice: \<open>Q\<close> is started twice, and two loops of \<open>run\<close> are entered on the same
  agent. The test for an idle agent prevents the second start only when the second
  run reaches it after the first call of \<open>start\<close> has set the status: when the first run
  has come as far as \<open>run\<close> before the second begins, the second finds \<open>Q\<close> running and
  returns, and \<open>start\<close> has been called once.
\<close>

theorem duplicate_completion_starts_twice:
  assumes conns: "agentConnections s = [\<lparr> conn_from = P, conn_to = Q \<rparr>]"
    and Q: "Q \<in> set allAgents"
    and fresh: "P \<notin> set (completedNodes (executionState s))"
    and q: "getAgentByType s Q = Some q" "status q = IDLE" "has_scenario env q"
    and m: "msg_type m = AGENT_COMPLETE" "msg_from m = P"
  shows "(\<exists>s' q'. run_handlers env scheds [0, 1, 0, 1, 0, 1, 0] [Arrived m, Arrived m] s
                    = ([In_run Q [], In_run Q []], s')
                \<and> startCalls s' = startCalls s @ [Q, Q]
                \<and> getAgentByType s' Q = Some q' \<and> status q' = RUNNING
                \<and> map msg_type (outbox q')
                    = map msg_type (outbox q) @ (if wsOpen q then [AGENT_START, AGENT_START] else []))
         \<and> (\<exists>s' q'. run_handlers env scheds [0, 0, 0, 0, 1] [Arrived m, Arrived m] s
                      = ([In_run Q [], Handled], s')
                \<and> startCalls s' = startCalls s @ [Q]
                \<and> getAgentByType s' Q = Some q' \<and> status q' = RUNNING
                \<and> map msg_type (outbox q')
                    = map msg_type (outbox q) @ (if wsOpen q then [AGENT_START] else []))"
proof -
  define md where "md = es_mode (executionState s)"
  define s1 where "s1 = s\<lparr> executionState :=
                 (executionState s)\<lparr> completedNodes := completedNodes (executionState s) @ [P] \<rparr> \<rparr>"
  define s2 where "s2 = s1\<lparr> executionState := (executionState s1)\<lparr> currentAgentType := Some Q \<rparr> \<rparr>"
  define s3 where "s3 = called_start Q s2"
  define s4 where "s4 = called_start Q s3"
  obtain q1 where q1: "start_configured env [] (Some md) q = Begun q1"
    "status q1 = RUNNING" "has_scenario env q1"
    "map msg_type (outbox q1) = map msg_type (outbox q) @ (if wsOpen q then [AGENT_START] else [])"
    "wsOpen q1 = wsOpen q"
    using start_configured_begun [OF q(3)] by blast
  obtain q2 where q2: "start_configured env [] (Some md) q1 = Begun q2"
    "status q2 = RUNNING"
    "map msg_type (outbox q2) = map msg_type (outbox q1) @ (if wsOpen q1 then [AGENT_START] else [])"
    using start_configured_begun [OF q1(3)] by blast
  define s5 where "s5 = put_agent Q q1 s4"
  define s6 where "s6 = put_agent Q q2 s5"
  define s3' where "s3' = put_agent Q q1 s3"
  have arrive: "handler_step env scheds (Arrived m) s = (Marked P, s1)"
    using m fresh by (simp add: s1_def)
  have ex1: "examine [Q] s1 = (Saving Q [], s2)"
    using conns q(1,2) by (simp add: s1_def s2_def)
  have ex2: "examine [Q] s2 = (Saving Q [], s2)"
    using conns q(1,2) by (simp add: s1_def s2_def)
  have again: "handler_step env scheds (Arrived m) s1 = (Saving Q [], s2)"
    using m conns ex1 by (simp add: nextAgents_def s1_def)
  have marked1: "handler_step env scheds (Marked P) s1 = (Saving Q [], s2)"
    using conns ex1 by (simp add: nextAgents_def s1_def)
  have marked2: "handler_step env scheds (Marked P) s2 = (Saving Q [], s2)"
    using conns ex2 by (simp add: nextAgents_def s1_def s2_def)
  have saving2: "handler_step env scheds (Saving Q []) s2 = (Reading_config Q md [], s3)"
    using q(1,2) by (simp add: s1_def s2_def s3_def md_def)
  have saving3: "handler_step env scheds (Saving Q []) s3 = (Reading_config Q md [], s4)"
    using q(1,2) by (simp add: s1_def s2_def s3_def s4_def md_def)
  have reading3: "handler_step env scheds (Reading_config Q md []) s3 = (In_run Q [], s3')"
    using q(1) q1(1) by (simp add: s1_def s2_def s3_def s3'_def)
  have reading4: "handler_step env scheds (Reading_config Q md []) s4 = (In_run Q [], s5)"
    using q(1) q1(1) by (simp add: s1_def s2_def s3_def s4_def s5_def)
  have getq1: "getAgentByType (put_agent Q q1 x) Q = Some q1" for x
    using Q by (rule get_put_same)
  have reading5: "handler_step env scheds (Reading_config Q md []) s5 = (In_run Q [], s6)"
    using getq1 q2(1) by (simp add: s5_def s6_def)
  have late: "handler_step env scheds (Arrived m) s3' = (Handled, s3')"
    using m conns getq1 q1(2)
    by (simp add: nextAgents_def s1_def s2_def s3_def s3'_def called_start_def)
  have both: "run_handlers env scheds [0, 1, 0, 1, 0, 1, 0] [Arrived m, Arrived m] s
                = ([In_run Q [], In_run Q []], s6)"
    by (simp add: arrive again marked2 saving2 saving3 reading4 reading5 del: handler_step.simps)
  have one: "run_handlers env scheds [0, 0, 0, 0, 1] [Arrived m, Arrived m] s
                = ([In_run Q [], Handled], s3')"
    by (simp add: arrive marked1 saving2 reading3 late del: handler_step.simps)
  have calls2: "startCalls s6 = startCalls s @ [Q, Q]"
    by (simp add: s1_def s2_def s3_def s4_def s5_def s6_def called_start_def)
  have calls1: "startCalls s3' = startCalls s @ [Q]"
    by (simp add: s1_def s2_def s3_def s3'_def called_start_def)
  have getq2: "getAgentByType s6 Q = Some q2"
    unfolding s6_def using Q by (rule get_put_same)
  have getq1': "getAgentByType s3' Q = Some q1"
    unfolding s3'_def by (rule getq1)
  have out2: "map msg_type (outbox q2)
                = map msg_type (outbox q) @ (if wsOpen q then [AGENT_START, AGENT_START] else [])"
    using q2(3) q1(4,5) by simp
  have first: "\<exists>s' q'. run_handlers env scheds [0, 1, 0, 1, 0, 1, 0] [Arrived m, Arrived m] s
                    = ([In_run Q [], In_run Q []], s')
                \<and> startCalls s' = startCalls s @ [Q, Q]
                \<and> getAgentByType s' Q = Some q' \<and> status q' = RUNNING
                \<and> map msg_type (outbox q')
                    = map msg_type (outbox q) @ (if wsOpen q then [AGENT_START, AGENT_START] else [])"
    using both calls2 getq2 q2(2) out2 by blast
  have second: "\<exists>s' q'. run_handlers env scheds [0, 0, 0, 0, 1] [Arrived m, Arrived m] s
                      = ([In_run Q [], Handled], s')
                \<and> startCalls s' = startCalls s @ [Q]
                \<and> getAgentByType s' Q = Some q' \<and> status q' = RUNNING
                \<and> map msg_type (outbox q')
                    = map msg_type (outbox q) @ (if wsOpen q then [AGENT_START] else [])"
    using one calls1 getq1' q1(2,4) by blast
  from first second show ?thesis by blast
qed

text \<open>
  The scenario of the claim on the example server, whose only connection leads from
  the planner to the artist. Starting the workflow calls \<open>start\<close> on the planner and the
  developer; the completion message of the planner, delivered twice, then makes the
  monitor call \<open>start\<close> on the artist twice. In the second and third conjunct the two
  deliveries meet the server as it is before the workflow is started.
\<close>

theorem duplicate_completion_starts_twice_witness:
  "Option.bind (startWorkflow env0 quiet None server0)
     (\<lambda>(r, s1).
        (case run_handlers env0 quiet [0, 1, 0, 1, 0, 1, 0]
                [Arrived (completion_of ''planner''), Arrived (completion_of ''planner'')] s1 of
           (tasks, s2) \<Rightarrow> Some (r, startCalls s1, tasks, startCalls s2)))
     = Some (Success [''planner'', ''developer''], [''planner'', ''developer''],
             [In_run ''artist'' [], In_run ''artist'' []],
             [''planner'', ''developer'', ''artist'', ''artist''])
   \<and> (case run_handlers env0 quiet [0, 1, 0, 1, 0, 1, 0]
              [Arrived (completion_of ''planner''), Arrived (completion_of ''planner'')] server0 of
         (tasks, s') \<Rightarrow>
           (tasks, startCalls s',
            map_option (\<lambda>a. (status a, map msg_type (outbox a))) (artistAgent s')))
       = ([In_run ''artist'' [], In_run ''artist'' []], [''artist'', ''artist''],
          Some (RUNNING, [AGENT_START, AGENT_START]))
   \<and> (case run_handlers env0 quiet [0, 0, 0, 0, 1]
              [Arrived (completion_of ''planner''), Arrived (completion_of ''planner'')] server0 of
         (tasks, s') \<Rightarrow>
           (tasks, startCalls s',
            map_option (\<lambda>a. (status a, map msg_type (outbox a))) (artistAgent s')))
       = ([In_run ''artist'' [], Handled], [''artist''], Some (RUNNING, [AGENT_START]))"
proof -
  let ?m = "completion_of ''planner''"
  have Q: "''artist'' \<in> set allAgents"
    by (simp add: allAgents_def)
  have m: "msg_type ?m = AGENT_COMPLETE" "msg_from ?m = ''planner''"
    by (simp_all add: completion_of_def)
  have art: "getAgentByType x ''artist'' = artistAgent x" for x
    by (simp add: getAgentByType_def)
  have fresh0: "''planner'' \<notin> set (completedNodes (executionState server0))"
    by (simp add: server0_facts(5))
  have q0: "getAgentByType server0 ''artist'' = Some (agent0 ''artist'')"
    by (simp add: server0_facts(3) allAgents_def)
  note T0 = duplicate_completion_starts_twice
    [OF server0_facts(1) Q fresh0 q0 agent0_facts(2) agent0_facts(5) m, of quiet]
  from T0 obtain s' q' where
    "run_handlers env0 quiet [0, 1, 0, 1, 0, 1, 0] [Arrived ?m, Arrived ?m] server0
       = ([In_run ''artist'' [], In_run ''artist'' []], s')"
    "startCalls s' = startCalls server0 @ [''artist'', ''artist'']"
    "getAgentByType s' ''artist'' = Some q'" "status q' = RUNNING"
    "map msg_type (outbox q') = map msg_type (outbox (agent0 ''artist''))
       @ (if wsOpen (agent0 ''artist'') then [AGENT_START, AGENT_START] else [])"
    by blast
  then have two: "(case run_handlers env0 quiet [0, 1, 0, 1, 0, 1, 0] [Arrived ?m, Arrived ?m] server0 of
         (tasks, s') \<Rightarrow>
           (tasks, startCalls s',
            map_option (\<lambda>a. (status a, map msg_type (outbox a))) (artistAgent s')))
       = ([In_run ''artist'' [], In_run ''artist'' []], [''artist'', ''artist''],
          Some (RUNNING, [AGENT_START, AGENT_START]))"
    by (simp add: art server0_facts(4) agent0_facts)
  from T0 obtain s'' q'' where
    "run_handlers env0 quiet [0, 0, 0, 0, 1] [Arrived ?m, Arrived ?m] server0
       = ([In_run ''artist'' [], Handled], s'')"
    "startCalls s'' = startCalls server0 @ [''artist'']"
    "getAgentByType s'' ''artist'' = Some q''" "status q'' = RUNNING"
    "map msg_type (outbox q'') = map msg_type (outbox (agent0 ''artist''))
       @ (if wsOpen (agent0 ''artist'') then [AGENT_START] else [])"
    by blast
  then have three: "(case run_handlers env0 quiet [0, 0, 0, 0, 1] [Arrived ?m, Arrived ?m] server0 of
         (tasks, s') \<Rightarrow>
           (tasks, startCalls s',
            map_option (\<lambda>a. (status a, map msg_type (outbox a))) (artistAgent s')))
       = ([In_run ''artist'' [], Handled], [''artist''], Some (RUNNING, [AGENT_START]))"
    by (simp add: art server0_facts(4) agent0_facts)
  have "\<forall>t \<in> set (startingAgents (agentConnections server0)).
          getAgentByType server0 t = None
          \<or> (\<exists>a a'. getAgentByType server0 t = Some a \<and> start env0 (quiet t) [] None a = Returned a')"
    using agent0_start_returns [of None] by (auto simp: server0_facts(2,3) allAgents_def)
  moreover have "startingAgents (agentConnections server0) \<noteq> []"
    by (simp add: server0_facts(2))
  ultimately obtain s1 where s1:
    "startWorkflow env0 quiet None server0
       = Some (Success (startingAgents (agentConnections server0)), s1)"
    "startCalls s1 = startCalls server0
       @ filter (\<lambda>t. getAgentByType server0 t \<noteq> None) (startingAgents (agentConnections server0))"
    "agentConnections s1 = agentConnections server0"
    "completedNodes (executionState s1) = []"
    "\<forall>t. t \<notin> set (startingAgents (agentConnections server0)) \<longrightarrow>
        getAgentByType s1 t = getAgentByType server0 t"
    using startWorkflow_all [of server0 env0 quiet None] by blast
  have conns1: "agentConnections s1 = [\<lparr> conn_from = ''planner'', conn_to = ''artist'' \<rparr>]"
    using s1(3) by (simp add: server0_facts(1))
  have fresh1: "''planner'' \<notin> set (completedNodes (executionState s1))"
    using s1(4) by simp
  have q1: "getAgentByType s1 ''artist'' = Some (agent0 ''artist'')"
    using s1(5) by (simp add: server0_facts(2,3) allAgents_def)
  have calls1: "startCalls s1 = [''planner'', ''developer'']"
    using s1(2) unfolding server0_facts(2,4) by (simp add: server0_facts(3) allAgents_def)
  from duplicate_completion_starts_twice
    [OF conns1 Q fresh1 q1 agent0_facts(2) agent0_facts(5) m, of quiet]
  obtain s2 where
    "run_handlers env0 quiet [0, 1, 0, 1, 0, 1, 0] [Arrived ?m, Arrived ?m] s1
       = ([In_run ''artist'' [], In_run ''artist'' []], s2)"
    "startCalls s2 = startCalls s1 @ [''artist'', ''artist'']"
    by blast
  with s1(1) calls1 have one:
    "Option.bind (startWorkflow env0 quiet None server0)
     (\<lambda>(r, s1).
        (case run_handlers env0 quiet [0, 1, 0, 1, 0, 1, 0] [Arrived ?m, Arrived ?m] s1 of
           (tasks, s2) \<Rightarrow> Some (r, startCalls s1, tasks, startCalls s2)))
     = Some (Success [''planner'', ''developer''], [''planner'', ''developer''],
             [In_run ''artist'' [], In_run ''artist'' []],
             [''planner'', ''developer'', ''artist'', ''artist''])"
    unfolding server0_facts(2) by simp
  from one two three show ?thesis by simp
qed

section \<open>Further properties of the main loop\<close>

text \<open>
  In interactive mode a pass that meets the goal sets the status to
  \<^verbatim>\<open>waiting_for_approval\<close> and sends the progress message, and then \<^verbatim>\<open>continue\<close> leads to the
  test of the loop, which fails because the goal flag is set: the run completes at
  once and does not wait for \<open>approveArtifact\<close>. The last conjunct is a whole call of
  \<open>start\<close>: the agent asks for input, receives a message, runs one pass (with one step
  of the reasoning loop), asks for approval and completes.
\<close>

theorem approval_is_not_awaited:
  "run_loop env sched (request_approval (a\<lparr> goalAchieved := True \<rparr>))
     = Returned (run_epilogue (request_approval (a\<lparr> goalAchieved := True \<rparr>)))
   \<and> status (run_epilogue (request_approval (a\<lparr> goalAchieved := True \<rparr>))) = COMPLETED
   \<and> (case start env0 [[SendUserMessage ''hi''], []] [] (Some Interactive) (agent0 ''planner'') of
         Returned a' \<Rightarrow> (status a', map msg_type (outbox a'))
       | Threw err a' \<Rightarrow> (status a', [])
       | Pending a' \<Rightarrow> (status a', []))
       = (COMPLETED, [AGENT_START, AGENT_PROGRESS, AGENT_PROGRESS, AGENT_PROGRESS, AGENT_COMPLETE])"
proof -
  have g: "goalAchieved (request_approval (a\<lparr> goalAchieved := True \<rparr>))"
    by (simp add: request_approval_def sendA2AMessage_def Let_def)
  have loop: "run_loop env sched (request_approval (a\<lparr> goalAchieved := True \<rparr>))
                = Returned (run_epilogue (request_approval (a\<lparr> goalAchieved := True \<rparr>)))"
    by (subst run_loop.simps) (simp add: g)
  have st: "status (run_epilogue (request_approval (a\<lparr> goalAchieved := True \<rparr>))) = COMPLETED"
    using g by (simp add: run_epilogue_def sendA2AMessage_def Let_def)
  have run: "(case start env0 [[SendUserMessage ''hi''], []] [] (Some Interactive) (agent0 ''planner'') of
                Returned a' \<Rightarrow> (status a', map msg_type (outbox a'))
              | Threw err a' \<Rightarrow> (status a', [])
              | Pending a' \<Rightarrow> (status a', []))
             = (COMPLETED, [AGENT_START, AGENT_PROGRESS, AGENT_PROGRESS, AGENT_PROGRESS, AGENT_COMPLETE])"
    by (simp add: start_def start_begin_def start_configured_def catch_run_def run_def
        run_loop.simps agent0_pass env0_facts
        agent0_def new_BaseAgent_def connectToA2A_def scenario_of_def some_config_def
        sendA2AMessage_def to_all_def ask_initial_input_def apply_calls_def sendUserMessage_def
        begin_iteration_def checkGoalAchievement_def set_output_def
        js_prop_def request_approval_def run_epilogue_def Let_def)
  from loop st run show ?thesis by simp
qed

text \<open>
  An idle agent whose goal flag is not set keeps the loop asleep: as long as no call
  reaches it, the run does not return. This is where a \<open>stop\<close> leads that arrives during
  a pass: the goal flag it sets is overwritten by the goal check after the pass, and
  when the goal is not met the status stays idle. The last conjunct is such a call of
  \<open>start\<close>, with three more seconds of sleep after the pass; the messages are the start
  message, the one for the step of the reasoning loop and the one for the iteration.
\<close>

theorem stop_during_pass_leaves_loop_asleep:
  "run_loop env (replicate n []) (a\<lparr> status := IDLE, goalAchieved := False \<rparr>)
     = Pending (a\<lparr> status := IDLE, goalAchieved := False \<rparr>)
   \<and> (case start env_unmet [[Stop], [], [], [], []] [] None (agent0 ''planner'') of
         Returned a' \<Rightarrow> (False, status a', goalAchieved a', [])
       | Threw err a' \<Rightarrow> (False, status a', goalAchieved a', [])
       | Pending a' \<Rightarrow> (True, status a', goalAchieved a', map msg_type (outbox a')))
       = (True, IDLE, False, [AGENT_START, AGENT_PROGRESS, AGENT_PROGRESS])"
proof -
  have loop: "run_loop env (replicate n []) (a\<lparr> status := IDLE, goalAchieved := False \<rparr>)
                = Pending (a\<lparr> status := IDLE, goalAchieved := False \<rparr>)"
  proof (induction n)
    case 0
    show ?case by (subst run_loop.simps) simp
  next
    case (Suc n)
    then show ?case by (subst run_loop.simps) (simp add: apply_calls_def)
  qed
  have run: "(case start env_unmet [[Stop], [], [], [], []] [] None (agent0 ''planner'') of
         Returned a' \<Rightarrow> (False, status a', goalAchieved a', [])
       | Threw err a' \<Rightarrow> (False, status a', goalAchieved a', [])
       | Pending a' \<Rightarrow> (True, status a', goalAchieved a', map msg_type (outbox a')))
       = (True, IDLE, False, [AGENT_START, AGENT_PROGRESS, AGENT_PROGRESS])"
    by (simp add: start_def start_begin_def start_configured_def catch_run_def run_def
        run_loop.simps env_unmet_def
        env0_def agent0_def new_BaseAgent_def connectToA2A_def scenario_of_def some_config_def
        sendA2AMessage_def to_all_def apply_calls_def stop_def
        begin_iteration_def one_pass_def registered_tools_def
        agent_executeReActLoop_def react_execute_def initial_messages_def
        getToolsDescription_def buildReActPrompt_def report_step_def step_progress_def
        maxIterations_def eval_nat_numeral
        silent_host_def parseReActResponse_def startsWith_def group_after_def is_space_def
        trim_def nl_def checkGoalAchievement_def set_output_def
        js_prop_def report_progress_def run_epilogue_def Let_def)
  from loop run show ?thesis by simp
qed

end
